theory Spec2Isabelle
  imports Main "HOL-Library.Word" "HOL-Library.AList" "HOL-Library.Multiset" "HOL-Library.Sublist"
begin

section \<open>Data model of the local-blocks processor\<close>

text \<open>
  The development embeds \<^verbatim>\<open>modules/generator/processor/localblocks/processor.go\<close>.
  Go maps are association lists with distinct keys: the order of the list stands for
  the (unspecified) iteration order of the Go map, and every theorem below holds for
  every order. Instants are integers (nanoseconds since the Unix epoch), durations are
  integers (nanoseconds) on which the 64-bit arithmetic of \<^verbatim>\<open>time.Duration\<close> is written out;
  every \<^verbatim>\<open>time.Now()\<close> of one call reads the same instant \<open>now\<close>.
  The two mutexes are not modelled: every operation runs atomically.
\<close>

type_synonym uuid = "128 word"
type_synonym byte = "8 word"
type_synonym bytes = "byte list"
type_synonym time = int
type_synonym duration = int
type_synonym addr = nat

text \<open>\<^verbatim>\<open>time.Time{}\<close>, the zero instant (January 1, year 1, UTC).\<close>

definition time_zero :: time where
  "time_zero = - 62135596800 * 1000000000"

text \<open>\<^verbatim>\<open>time.Duration\<close> is a signed 64-bit count of nanoseconds: \<open>wrap64\<close> is the wrap-around
  of its arithmetic, \<open>sat64\<close> the saturation at the ends of its range. The negation \<^verbatim>\<open>-d\<close>
  of a duration wraps, so that the least duration is its own negation. \<^verbatim>\<open>time.Since(t)\<close>
  is \<^verbatim>\<open>time.Now().Sub(t)\<close>, which saturates. \<^verbatim>\<open>t.Add(d)\<close> moves an instant by a duration;
  instants are not bounded here.\<close>

definition wrap64 :: "int \<Rightarrow> int" where
  "wrap64 x = (x + 2 ^ 63) mod 2 ^ 64 - 2 ^ 63"

definition sat64 :: "int \<Rightarrow> int" where
  "sat64 x = max (- (2 ^ 63)) (min (2 ^ 63 - 1) x)"

definition neg_duration :: "duration \<Rightarrow> duration" where
  "neg_duration d = wrap64 (- d)"

definition time_Add :: "time \<Rightarrow> duration \<Rightarrow> time" where
  "time_Add t d = t + d"

definition time_Since :: "time \<Rightarrow> time \<Rightarrow> duration" where
  "time_Since now t = sat64 (now - t)"

text \<open>Go error values: the two sentinels the code compares against, errors made by
  \<^verbatim>\<open>errors.New\<close>, wrapped errors (\<^verbatim>\<open>errors.Wrap\<close>, \<^verbatim>\<open>fmt.Errorf("...: %w")\<close>), and a
  run-time panic (a nil dereference, or the panic of \<^verbatim>\<open>time.NewTicker\<close>).\<close>

datatype error =
    errMaxExceeded
  | ErrDoesNotExist
  | ErrMsg string
  | ErrWrap string error
  | ErrPanic

subsection \<open>Spans and batches\<close>

text \<open>Spans, scopes and resources are Go objects reached through pointers. A pointer is
  an address; the span objects live in a store \<open>addr \<Rightarrow> span\<close> that the code below only
  reads. \<^verbatim>\<open>ScopeSpans\<close> and \<^verbatim>\<open>ResourceSpans\<close> are the grouping structures.\<close>

datatype span_kind =
    SPAN_KIND_UNSPECIFIED
  | SPAN_KIND_INTERNAL
  | SPAN_KIND_SERVER
  | SPAN_KIND_CLIENT
  | SPAN_KIND_PRODUCER
  | SPAN_KIND_CONSUMER

record span =
  Kind :: span_kind
  TraceId :: bytes

record scope_spans =
  Scope :: addr
  Spans :: "addr list"

record resource_spans =
  Resource :: addr
  ScopeSpans :: "scope_spans list"

subsection \<open>Configuration, blocks, live traces\<close>

text \<open>Modelled from the spec: the type \<^verbatim>\<open>Config\<close> of the package is declared outside the
  sources; these are the fields \<^verbatim>\<open>processor.go\<close> reads and the overrides set (the block
  configuration \<^verbatim>\<open>Cfg.Block\<close> is only handed to the codec and is left out).
  \<^verbatim>\<open>backend.BlockMeta\<close>, \<^verbatim>\<open>common.WALBlock\<close> and \<^verbatim>\<open>common.BackendBlock\<close> are declared in
  \<^verbatim>\<open>tempodb\<close>; a block is modelled by what the processor reads from it.\<close>

record config =
  MaxLiveTraces :: nat
  MaxBlockDuration :: duration
  MaxBlockBytes :: nat
  FlushCheckPeriod :: duration
  TraceIdlePeriod :: duration
  CompleteBlockTimeout :: duration

record block_meta =
  BlockID :: uuid
  TenantID :: string
  EndTime :: time
  Size :: nat

text \<open>A \<^verbatim>\<open>common.WALBlock\<close> handle: what \<^verbatim>\<open>BlockMeta()\<close> and \<^verbatim>\<open>DataLength()\<close> return and
  the objects appended so far (trace identifier and payload).\<close>

record wal_block =
  BlockMeta :: block_meta
  DataLength :: nat
  appended :: "(bytes \<times> bytes) list"

text \<open>A \<^verbatim>\<open>common.BackendBlock\<close> handle, of which the processor only reads the metadata.\<close>

datatype backend_block = BackendBlock block_meta

fun BackendMeta :: "backend_block \<Rightarrow> block_meta" where
  "BackendMeta (BackendBlock m) = m"

record live_trace =
  tid :: bytes
  Batches :: "resource_spans list"
  timestamp :: time

text \<open>The calls made on the storage collaborators, in the order they are made.\<close>

datatype call =
    Call_NewBlock uuid
  | Call_Append uuid bytes
  | Call_Flush uuid
  | Call_Clear uuid
  | Call_ClearBlock uuid
  | Call_Iterator uuid
  | Call_CreateBlock uuid
  | Call_OpenBlock uuid

record processor =
  tenant :: string
  Cfg :: config
  headBlock :: "wal_block option"
  walBlocks :: "(uuid \<times> wal_block) list"
  completeBlocks :: "(uuid \<times> backend_block) list"
  lastCutTime :: time
  liveTraces :: "(bytes \<times> live_trace) list"
  calls :: "call list"

text \<open>The package-level metrics and the logger.\<close>

record obs =
  metricDroppedTraces :: nat
  metricTotalTraces :: int
  metricLiveTraces :: nat
  metricBlockSize :: nat
  logs :: "(string \<times> error) list"

text \<open>The behaviour of the collaborators during one call of an operation: the identifier
  \<^verbatim>\<open>uuid.New()\<close> returns, which storage calls fail, and what the codec and the backend
  reader return. Every theorem quantifies over all such behaviours.\<close>

record collab =
  uuid_New :: uuid
  NewBlock_err :: "error option"
  Append_err :: "uuid \<Rightarrow> bytes \<Rightarrow> error option"
  Flush_err :: "uuid \<Rightarrow> error option"
  Clear_err :: "uuid \<Rightarrow> error option"
  ClearBlock_err :: "uuid \<Rightarrow> error option"
  Iterator_err :: "uuid \<Rightarrow> error option"
  CreateBlock :: "block_meta \<Rightarrow> (bytes \<times> bytes) list \<Rightarrow> error + block_meta"
  OpenBlock :: "block_meta \<Rightarrow> error + backend_block"
  PrepareForWrite :: "resource_spans list \<Rightarrow> error + bytes"
  ToObject :: "bytes list \<Rightarrow> error + bytes"
  RescanBlocks :: "error + wal_block list"
  Tenants :: "error + string list"
  Blocks :: "string \<Rightarrow> error + uuid list"
  ReadBlockMeta :: "uuid \<Rightarrow> string \<Rightarrow> error + block_meta"

section \<open>The span filter\<close>

text \<open>\<^verbatim>\<open>filterBatch\<close>: the inner loop appends the server spans of one scope group to
  \<^verbatim>\<open>keepSpans\<close>, the outer loop appends the non-empty groups to \<^verbatim>\<open>keepSS\<close>.\<close>

definition keepSpans_loop :: "(addr \<Rightarrow> span) \<Rightarrow> addr list \<Rightarrow> addr list" where
  "keepSpans_loop h spans =
     fold (\<lambda>s keepSpans. if Kind (h s) = SPAN_KIND_SERVER then keepSpans @ [s] else keepSpans)
       spans []"

definition keepSS_loop :: "(addr \<Rightarrow> span) \<Rightarrow> scope_spans list \<Rightarrow> scope_spans list" where
  "keepSS_loop h sss =
     fold (\<lambda>ss keepSS.
             (let keepSpans = keepSpans_loop h (Spans ss)
              in if length keepSpans > 0
                 then keepSS @ [\<lparr>Scope = Scope ss, Spans = keepSpans\<rparr>]
                 else keepSS))
       sss []"

definition filterBatch :: "(addr \<Rightarrow> span) \<Rightarrow> resource_spans \<Rightarrow> resource_spans option" where
  "filterBatch h batch =
     (let keepSS = keepSS_loop h (ScopeSpans batch)
      in if length keepSS > 0
         then Some \<lparr>Resource = Resource batch, ScopeSpans = keepSS\<rparr>
         else None)"

text \<open>The reading of the claim the filter is compared with: the server spans of a group,
  and all span pointers of a batch in order.\<close>

definition server_spans :: "(addr \<Rightarrow> span) \<Rightarrow> addr list \<Rightarrow> addr list" where
  "server_spans h spans = filter (\<lambda>s. Kind (h s) = SPAN_KIND_SERVER) spans"

definition all_spans :: "resource_spans \<Rightarrow> addr list" where
  "all_spans batch = concat (map Spans (ScopeSpans batch))"

section \<open>The live trace buffer\<close>

text \<open>Modelled from the spec: \<^verbatim>\<open>livetraces.go\<close> (the type \<^verbatim>\<open>liveTraces\<close> with \<^verbatim>\<open>Len\<close>,
  \<^verbatim>\<open>Push\<close> and \<^verbatim>\<open>CutIdle\<close>) is not among the sources. The buffer maps a trace identifier to
  its live trace. \<^verbatim>\<open>Push\<close> is given the identifier \<open>k\<close> extracted from the batch: an
  identifier already present gets the batch appended and its timestamp refreshed; a new
  identifier is refused with the buffer-full error when the buffer holds at least
  \<open>maxLive\<close> identifiers, and gets a new entry otherwise.\<close>

definition liveTraces_Len :: "(bytes \<times> live_trace) list \<Rightarrow> nat" where
  "liveTraces_Len lt = length lt"

text \<open>Modelled from the spec: \<^verbatim>\<open>liveTraces.Push(batch, max)\<close>, with the identifier of the
  batch as the argument \<open>k\<close>.\<close>

definition liveTraces_Push ::
  "bytes \<Rightarrow> time \<Rightarrow> resource_spans \<Rightarrow> nat \<Rightarrow> (bytes \<times> live_trace) list
     \<Rightarrow> error option \<times> (bytes \<times> live_trace) list" where
  "liveTraces_Push k now batch maxLive lt =
     (case map_of lt k of
        Some tr \<Rightarrow>
          (None, AList.update k (tr\<lparr>Batches := Batches tr @ [batch], timestamp := now\<rparr>) lt)
      | None \<Rightarrow>
          if liveTraces_Len lt \<ge> maxLive then (Some errMaxExceeded, lt)
          else (None, AList.update k \<lparr>tid = k, Batches = [batch], timestamp = now\<rparr> lt))"

text \<open>Modelled from the spec: \<^verbatim>\<open>CutIdle\<close> removes and returns every entry whose last write
  is strictly older than the cutoff; with the zero instant as cutoff every entry
  qualifies. The entries not selected stay in the buffer.\<close>

definition is_idle :: "time \<Rightarrow> live_trace \<Rightarrow> bool" where
  "is_idle cutoff tr \<longleftrightarrow> cutoff = time_zero \<or> timestamp tr < cutoff"

text \<open>Modelled from the spec: \<^verbatim>\<open>liveTraces.CutIdle(cutoff)\<close> returns the selected entries and
  leaves the others; the second component is the buffer after the call.\<close>

definition liveTraces_CutIdle ::
  "time \<Rightarrow> (bytes \<times> live_trace) list \<Rightarrow> live_trace list \<times> (bytes \<times> live_trace) list" where
  "liveTraces_CutIdle cutoff lt =
     (map snd (filter (\<lambda>kt. is_idle cutoff (snd kt)) lt),
      filter (\<lambda>kt. \<not> is_idle cutoff (snd kt)) lt)"

section \<open>The storage collaborators\<close>

text \<open>Modelled from the spec: \<^verbatim>\<open>wal.NewBlock(id, tenant, encoding)\<close> of package \<^verbatim>\<open>tempodb/wal\<close>
  allocates a new appendable segment: unless the call fails, an empty block with the
  given identifier and tenant.\<close>

definition wal_NewBlock :: "collab \<Rightarrow> uuid \<Rightarrow> string \<Rightarrow> error + wal_block" where
  "wal_NewBlock e i t =
     (case NewBlock_err e of
        Some err \<Rightarrow> Inl err
      | None \<Rightarrow>
          Inr \<lparr>BlockMeta = \<lparr>BlockID = i, TenantID = t, EndTime = time_zero, Size = 0\<rparr>,
               DataLength = 0, appended = []\<rparr>)"

text \<open>Modelled from the spec: a successful \<^verbatim>\<open>Append(id, payload, start, end)\<close> adds the
  object to the block, grows the accumulated byte size by the payload and extends the
  recorded end time (given in seconds).\<close>

definition wal_Append :: "wal_block \<Rightarrow> bytes \<Rightarrow> bytes \<Rightarrow> nat \<Rightarrow> nat \<Rightarrow> wal_block" where
  "wal_Append blk i b start en =
     blk\<lparr>BlockMeta := (BlockMeta blk)\<lparr>EndTime :=
            max (EndTime (BlockMeta blk)) (int en * 1000000000)\<rparr>,
         DataLength := DataLength blk + length b,
         appended := appended blk @ [(i, b)]\<rparr>"

text \<open>\<^verbatim>\<open>uint32(time.Now().Unix())\<close>.\<close>

definition unix_u32 :: "time \<Rightarrow> nat" where
  "unix_u32 t = nat ((t div 1000000000) mod 2 ^ 32)"

text \<open>\<^verbatim>\<open>bytes.Compare\<close> of the Go standard library: lexicographic order on unsigned
  bytes.\<close>

fun bytes_Compare :: "bytes \<Rightarrow> bytes \<Rightarrow> int" where
  "bytes_Compare [] [] = 0"
| "bytes_Compare [] (y # ys) = - 1"
| "bytes_Compare (x # xs) [] = 1"
| "bytes_Compare (x # xs) (y # ys) =
     (if x < y then - 1 else if y < x then 1 else bytes_Compare xs ys)"

text \<open>\<^verbatim>\<open>sort.Slice\<close> of the Go standard library sorts by the given \<^verbatim>\<open>less\<close>; it is
  modelled by insertion sort. (\<^verbatim>\<open>sort.Slice\<close> is not stable; for entries with pairwise
  distinct keys every sorting algorithm returns the same list, see
  \<open>sort_Slice_unique\<close>.)\<close>

fun insert_Slice :: "('a \<Rightarrow> 'a \<Rightarrow> bool) \<Rightarrow> 'a \<Rightarrow> 'a list \<Rightarrow> 'a list" where
  "insert_Slice lessf x [] = [x]"
| "insert_Slice lessf x (y # ys) =
     (if lessf y x then y # insert_Slice lessf x ys else x # y # ys)"

definition sort_Slice :: "('a \<Rightarrow> 'a \<Rightarrow> bool) \<Rightarrow> 'a list \<Rightarrow> 'a list" where
  "sort_Slice lessf xs = foldr (insert_Slice lessf) xs []"

section \<open>The block lifecycle manager\<close>

text \<open>\<^verbatim>\<open>resetHeadBlock\<close>, \<^verbatim>\<open>writeHeadBlock\<close> and \<^verbatim>\<open>cutBlocks\<close>. Every storage call is recorded in
  \<open>calls\<close> when it is made, whether it then succeeds or fails; a failed call is taken to
  leave the block as it was. A nil \<^verbatim>\<open>p.headBlock\<close> after a successful reset cannot occur;
  the branch is kept as the panic it would be. In
  \<^verbatim>\<open>cutBlocks\<close> the head block is registered in the write-ahead set before the new block is
  allocated: when that allocation fails, \<^verbatim>\<open>p.headBlock\<close> and the entry of the write-ahead
  set are one object in Go, and two equal values here.\<close>

definition resetHeadBlock :: "collab \<Rightarrow> time \<Rightarrow> processor \<Rightarrow> error option \<times> processor" where
  "resetHeadBlock e now p =
     (let p1 = p\<lparr>calls := calls p @ [Call_NewBlock (uuid_New e)]\<rparr>
      in case wal_NewBlock e (uuid_New e) (tenant p) of
           Inl err \<Rightarrow> (Some err, p1)
         | Inr block \<Rightarrow> (None, p1\<lparr>headBlock := Some block, lastCutTime := now\<rparr>))"

definition writeHeadBlock ::
  "collab \<Rightarrow> time \<Rightarrow> bytes \<Rightarrow> bytes \<Rightarrow> processor \<Rightarrow> error option \<times> processor" where
  "writeHeadBlock e now i b p =
     (case (if headBlock p = None then resetHeadBlock e now p else (None, p)) of
        (Some err, p1) \<Rightarrow> (Some err, p1)
      | (None, p1) \<Rightarrow>
          (case headBlock p1 of
             None \<Rightarrow> (Some ErrPanic, p1)
           | Some hb \<Rightarrow>
               (let now32 = unix_u32 now;
                    p2 = p1\<lparr>calls := calls p1 @ [Call_Append (BlockID (BlockMeta hb)) i]\<rparr>
                in case Append_err e (BlockID (BlockMeta hb)) i of
                     Some err \<Rightarrow> (Some err, p2)
                   | None \<Rightarrow> (None, p2\<lparr>headBlock := Some (wal_Append hb i b now32 now32)\<rparr>))))"

definition cutBlocks :: "collab \<Rightarrow> time \<Rightarrow> bool \<Rightarrow> processor \<Rightarrow> error option \<times> processor" where
  "cutBlocks e now immediate p =
     (case headBlock p of
        None \<Rightarrow> (None, p)
      | Some hb \<Rightarrow>
          if DataLength hb = 0 then (None, p)
          else if \<not> immediate \<and> time_Since now (lastCutTime p) < MaxBlockDuration (Cfg p)
                  \<and> DataLength hb < MaxBlockBytes (Cfg p)
          then (None, p)
          else
            (let p1 = p\<lparr>calls := calls p @ [Call_Flush (BlockID (BlockMeta hb))]\<rparr>
             in case Flush_err e (BlockID (BlockMeta hb)) of
                  Some err \<Rightarrow> (Some (ErrWrap ''failed to flush head block'' err), p1)
                | None \<Rightarrow>
                    (let p2 = p1\<lparr>walBlocks :=
                                 AList.update (BlockID (BlockMeta hb)) hb (walBlocks p1)\<rparr>
                     in case resetHeadBlock e now p2 of
                          (Some err, p3) \<Rightarrow> (Some (ErrWrap ''failed to resetHeadBlock'' err), p3)
                        | (None, p3) \<Rightarrow> (None, p3))))"

text \<open>\<^verbatim>\<open>completeBlock\<close>: the \<^verbatim>\<open>range\<close> loop returns in its first iteration, so only the first
  entry in iteration order is looked at. The iterator is the sequence of the objects of
  the block; the deferred \<^verbatim>\<open>iter.Close()\<close> changes nothing the processor holds.\<close>

definition completeBlock :: "collab \<Rightarrow> processor \<Rightarrow> error option \<times> processor" where
  "completeBlock e p =
     (case walBlocks p of
        [] \<Rightarrow> (None, p)
      | (i, b) # _ \<Rightarrow>
          (let bid = BlockID (BlockMeta b);
               p1 = p\<lparr>calls := calls p @ [Call_Iterator bid]\<rparr>
           in case Iterator_err e bid of
                Some err \<Rightarrow> (Some err, p1)
              | None \<Rightarrow>
                  (let p2 = p1\<lparr>calls := calls p1 @ [Call_CreateBlock bid]\<rparr>
                   in case CreateBlock e (BlockMeta b) (appended b) of
                        Inl err \<Rightarrow> (Some err, p2)
                      | Inr newMeta \<Rightarrow>
                          (let p3 = p2\<lparr>calls := calls p2 @ [Call_OpenBlock (BlockID newMeta)]\<rparr>
                           in case OpenBlock e newMeta of
                                Inl err \<Rightarrow> (Some err, p3)
                              | Inr newBlock \<Rightarrow>
                                  (let p4 = p3\<lparr>completeBlocks :=
                                               AList.update (BlockID newMeta) newBlock
                                                 (completeBlocks p3),
                                             calls := calls p3 @ [Call_Clear bid]\<rparr>
                                   in case Clear_err e bid of
                                        Some err \<Rightarrow> (Some err, p4)
                                      | None \<Rightarrow>
                                          (None, p4\<lparr>walBlocks :=
                                                     AList.delete i (walBlocks p4)\<rparr>))))))"

text \<open>\<^verbatim>\<open>deleteOldBlocks\<close>: the two \<^verbatim>\<open>range\<close> loops, each over the entries of its map as they
  were when the loop began; \<^verbatim>\<open>EndTime.Before(before)\<close> is the strict order. The cutoff is
  \<^verbatim>\<open>time.Now().Add(-p.Cfg.CompleteBlockTimeout)\<close>, with the negation of the duration.\<close>

fun deleteOld_wal ::
  "collab \<Rightarrow> time \<Rightarrow> (uuid \<times> wal_block) list \<Rightarrow> processor \<Rightarrow> error option \<times> processor" where
  "deleteOld_wal e before [] p = (None, p)"
| "deleteOld_wal e before ((i, b) # rest) p =
     (if EndTime (BlockMeta b) < before then
        (let p1 = p\<lparr>calls := calls p @ [Call_Clear (BlockID (BlockMeta b))]\<rparr>
         in case Clear_err e (BlockID (BlockMeta b)) of
              Some err \<Rightarrow> (Some err, p1)
            | None \<Rightarrow>
                deleteOld_wal e before rest (p1\<lparr>walBlocks := AList.delete i (walBlocks p1)\<rparr>))
      else deleteOld_wal e before rest p)"

fun deleteOld_complete ::
  "collab \<Rightarrow> time \<Rightarrow> (uuid \<times> backend_block) list \<Rightarrow> processor \<Rightarrow> error option \<times> processor" where
  "deleteOld_complete e before [] p = (None, p)"
| "deleteOld_complete e before ((i, b) # rest) p =
     (if EndTime (BackendMeta b) < before then
        (let p1 = p\<lparr>calls := calls p @ [Call_ClearBlock i]\<rparr>
         in case ClearBlock_err e i of
              Some err \<Rightarrow> (Some err, p1)
            | None \<Rightarrow>
                deleteOld_complete e before rest
                  (p1\<lparr>completeBlocks := AList.delete i (completeBlocks p1)\<rparr>))
      else deleteOld_complete e before rest p)"

definition deleteOldBlocks :: "collab \<Rightarrow> time \<Rightarrow> processor \<Rightarrow> error option \<times> processor" where
  "deleteOldBlocks e now p =
     (let before = time_Add now (neg_duration (CompleteBlockTimeout (Cfg p)))
      in case deleteOld_wal e before (walBlocks p) p of
           (Some err, p1) \<Rightarrow> (Some err, p1)
         | (None, p1) \<Rightarrow> deleteOld_complete e before (completeBlocks p1) p1)"

section \<open>Cutting idle traces\<close>

definition less_id :: "live_trace \<Rightarrow> live_trace \<Rightarrow> bool" where
  "less_id t u \<longleftrightarrow> bytes_Compare (tid t) (tid u) = - 1"

text \<open>The loop of \<^verbatim>\<open>cutIdleTraces\<close> over the sorted traces.\<close>

fun cut_loop ::
  "collab \<Rightarrow> time \<Rightarrow> live_trace list \<Rightarrow> processor \<Rightarrow> error option \<times> processor" where
  "cut_loop e now [] p = (None, p)"
| "cut_loop e now (t # ts) p =
     (case PrepareForWrite e (Batches t) of
        Inl err \<Rightarrow> (Some err, p)
      | Inr buf \<Rightarrow>
          (case ToObject e [buf] of
             Inl err \<Rightarrow> (Some err, p)
           | Inr out \<Rightarrow>
               (case writeHeadBlock e now (tid t) out p of
                  (Some err, p1) \<Rightarrow> (Some err, p1)
                | (None, p1) \<Rightarrow> cut_loop e now ts p1)))"

definition cutIdleTraces ::
  "collab \<Rightarrow> time \<Rightarrow> bool \<Rightarrow> processor \<times> obs \<Rightarrow> error option \<times> processor \<times> obs" where
  "cutIdleTraces e now immediate s =
     (case s of (p, ob) \<Rightarrow>
       (let ob1 = ob\<lparr>metricLiveTraces := length (liveTraces p)\<rparr>;
            since = (if immediate then time_zero
                     else time_Add now (neg_duration (TraceIdlePeriod (Cfg p))));
            cut = liveTraces_CutIdle since (liveTraces p);
            tracesToCut = fst cut;
            p1 = p\<lparr>liveTraces := snd cut\<rparr>
        in if length tracesToCut = 0 then (None, p1, ob1)
           else
             (case cut_loop e now (sort_Slice less_id tracesToCut) p1 of
                (Some err, p2) \<Rightarrow> (Some err, p2, ob1)
              | (None, p2) \<Rightarrow>
                  (case headBlock p2 of
                     None \<Rightarrow> (Some ErrPanic, p2, ob1)
                   | Some hb \<Rightarrow>
                       (Flush_err e (BlockID (BlockMeta hb)),
                        p2\<lparr>calls := calls p2 @ [Call_Flush (BlockID (BlockMeta hb))]\<rparr>,
                        ob1)))))"

section \<open>Ingestion\<close>

text \<open>\<^verbatim>\<open>PushSpans\<close>; \<open>key\<close> is the extraction of the trace identifier from a batch, which
  the spec leaves open. The \<^verbatim>\<open>switch\<close> has the single case \<^verbatim>\<open>errMaxExceeded\<close>. The counter
  is increased by \<^verbatim>\<open>after - before\<close>, written here on integers.\<close>

definition push_batch ::
  "(addr \<Rightarrow> span) \<Rightarrow> (resource_spans \<Rightarrow> bytes) \<Rightarrow> time \<Rightarrow> resource_spans
     \<Rightarrow> processor \<times> obs \<Rightarrow> processor \<times> obs" where
  "push_batch h key now batch s =
     (case s of (p, ob) \<Rightarrow>
       (case filterBatch h batch of
          None \<Rightarrow> (p, ob)
        | Some b \<Rightarrow>
            (case liveTraces_Push (key b) now b (MaxLiveTraces (Cfg p)) (liveTraces p) of
               (err, lt) \<Rightarrow>
                 (p\<lparr>liveTraces := lt\<rparr>,
                  if err = Some errMaxExceeded
                  then ob\<lparr>metricDroppedTraces := metricDroppedTraces ob + 1\<rparr>
                  else ob))))"

definition PushSpans ::
  "(addr \<Rightarrow> span) \<Rightarrow> (resource_spans \<Rightarrow> bytes) \<Rightarrow> time \<Rightarrow> resource_spans list
     \<Rightarrow> processor \<times> obs \<Rightarrow> processor \<times> obs" where
  "PushSpans h key now batches s =
     (let before = liveTraces_Len (liveTraces (fst s));
          s1 = fold (push_batch h key now) batches s;
          after = liveTraces_Len (liveTraces (fst s1))
      in (fst s1,
          (snd s1)\<lparr>metricTotalTraces := metricTotalTraces (snd s1) + (int after - int before)\<rparr>))"

section \<open>Recovery and construction\<close>

definition reload_wal :: "wal_block list \<Rightarrow> processor \<Rightarrow> processor" where
  "reload_wal blks p =
     fold (\<lambda>blk q. if TenantID (BlockMeta blk) = tenant q
                   then q\<lparr>walBlocks := AList.update (BlockID (BlockMeta blk)) blk (walBlocks q)\<rparr>
                   else q)
       blks p"

fun reload_complete ::
  "collab \<Rightarrow> uuid list \<Rightarrow> processor \<Rightarrow> obs \<Rightarrow> error option \<times> processor \<times> obs" where
  "reload_complete e [] p ob = (None, p, ob)"
| "reload_complete e (i # ids) p ob =
     (case ReadBlockMeta e i (tenant p) of
        Inl err \<Rightarrow>
          if err = ErrDoesNotExist then
            (let p1 = p\<lparr>calls := calls p @ [Call_ClearBlock i]\<rparr>
             in case ClearBlock_err e i of
                  Some err' \<Rightarrow>
                    reload_complete e ids p1
                      (ob\<lparr>logs := logs ob @
                         [(''local blocks processor failed to clear partially written block during replay'',
                           err')]\<rparr>)
                | None \<Rightarrow> reload_complete e ids p1 ob)
          else (Some err, p, ob)
      | Inr meta \<Rightarrow>
          (let p1 = p\<lparr>calls := calls p @ [Call_OpenBlock (BlockID meta)]\<rparr>
           in case OpenBlock e meta of
                Inl err \<Rightarrow> (Some err, p1, ob)
              | Inr blk \<Rightarrow>
                  reload_complete e ids
                    (p1\<lparr>completeBlocks := AList.update i blk (completeBlocks p1)\<rparr>) ob))"

definition reloadBlocks :: "collab \<Rightarrow> processor \<Rightarrow> obs \<Rightarrow> error option \<times> processor \<times> obs" where
  "reloadBlocks e p ob =
     (case RescanBlocks e of
        Inl err \<Rightarrow> (Some err, p, ob)
      | Inr blks \<Rightarrow>
          (let p1 = reload_wal blks p
           in case Tenants e of
                Inl err \<Rightarrow> (Some err, p1, ob)
              | Inr tenants \<Rightarrow>
                  if length tenants = 0 then (None, p1, ob)
                  else
                    (case Blocks e (tenant p1) of
                       Inl err \<Rightarrow> (Some err, p1, ob)
                     | Inr ids \<Rightarrow> reload_complete e ids p1 ob)))"

text \<open>\<^verbatim>\<open>New\<close>; \<open>wal_nil\<close> says that the \<^verbatim>\<open>wal\<close> argument is nil. \<^verbatim>\<open>New\<close> returns the processor
  to its caller once it has started the four loops as goroutines; what the loops do with
  the processor it returned is \<open>flushLoop\<close>, \<open>deleteLoop\<close>, \<open>completeLoop\<close> and \<open>metricLoop\<close>
  below.\<close>

definition New :: "collab \<Rightarrow> config \<Rightarrow> string \<Rightarrow> bool \<Rightarrow> obs \<Rightarrow> (error + processor) \<times> obs" where
  "New e cfg t wal_nil ob =
     (if wal_nil then (Inl (ErrMsg ''local blocks processor requires traces wal''), ob)
      else
        (let p = \<lparr>tenant = t, Cfg = cfg, headBlock = None, walBlocks = [],
                  completeBlocks = [], lastCutTime = time_zero, liveTraces = [], calls = []\<rparr>
         in case reloadBlocks e p ob of
              (Some err, p1, ob1) \<Rightarrow> (Inl (ErrWrap ''replaying blocks'' err), ob1)
            | (None, p1, ob1) \<Rightarrow> (Inr p1, ob1)))"

section \<open>The scheduler\<close>

definition log_error :: "string \<Rightarrow> error option \<Rightarrow> obs \<Rightarrow> obs" where
  "log_error msg err ob =
     (case err of None \<Rightarrow> ob | Some er \<Rightarrow> ob\<lparr>logs := logs ob @ [(msg, er)]\<rparr>)"

text \<open>One firing of the ticker of each loop, and \<^verbatim>\<open>Shutdown\<close> after the loops have stopped.
  Each operation of a tick has its own collaborator behaviour.\<close>

definition flushLoop_tick ::
  "collab \<Rightarrow> collab \<Rightarrow> time \<Rightarrow> processor \<times> obs \<Rightarrow> processor \<times> obs" where
  "flushLoop_tick e1 e2 now s =
     (case cutIdleTraces e1 now False s of
        (err1, p1, ob1) \<Rightarrow>
          (case cutBlocks e2 now False p1 of
             (err2, p2) \<Rightarrow>
               (p2,
                log_error ''local blocks processor failed to cut head block'' err2
                  (log_error ''local blocks processor failed to cut idle traces'' err1 ob1))))"

definition deleteLoop_tick :: "collab \<Rightarrow> time \<Rightarrow> processor \<times> obs \<Rightarrow> processor \<times> obs" where
  "deleteLoop_tick e now s =
     (case deleteOldBlocks e now (fst s) of
        (err, p1) \<Rightarrow>
          (p1, log_error ''local blocks processor failed to delete old blocks'' err (snd s)))"

definition completeLoop_tick :: "collab \<Rightarrow> processor \<times> obs \<Rightarrow> processor \<times> obs" where
  "completeLoop_tick e s =
     (case completeBlock e (fst s) of
        (err, p1) \<Rightarrow>
          (p1, log_error ''local blocks processor failed to complete a block'' err (snd s)))"

text \<open>\<^verbatim>\<open>recordBlockBytes\<close> sums on unsigned 64-bit integers, which wrap, and sets the gauge to
  the conversion of the sum to \<^verbatim>\<open>float64\<close>; the field \<open>metricBlockSize\<close> holds the sum that is
  handed to the conversion. It has no failure path.\<close>

definition recordBlockBytes :: "processor \<times> obs \<Rightarrow> processor \<times> obs" where
  "recordBlockBytes s =
     (let p = fst s;
          sum0 = (case headBlock p of None \<Rightarrow> 0 | Some hb \<Rightarrow> DataLength hb);
          sum1 = (sum0 + sum_list (map (\<lambda>kb. DataLength (snd kb)) (walBlocks p))) mod 2 ^ 64;
          sum2 = (sum1 + sum_list (map (\<lambda>kb. Size (BackendMeta (snd kb))) (completeBlocks p)))
                   mod 2 ^ 64
      in (p, (snd s)\<lparr>metricBlockSize := sum2\<rparr>))"

definition Shutdown :: "collab \<Rightarrow> collab \<Rightarrow> time \<Rightarrow> processor \<times> obs \<Rightarrow> processor \<times> obs" where
  "Shutdown e1 e2 now s =
     (case cutIdleTraces e1 now True s of
        (err1, p1, ob1) \<Rightarrow>
          (case cutBlocks e2 now True p1 of
             (err2, p2) \<Rightarrow>
               (p2,
                log_error ''local blocks processor failed to cut head block on shutdown'' err2
                  (log_error
                     ''local blocks processor failed to cut remaining traces on shutdown''
                     err1 ob1))))"

text \<open>\<^verbatim>\<open>time.NewTicker(d)\<close> of the Go standard library panics when \<open>d\<close> is not positive.\<close>

definition time_NewTicker :: "duration \<Rightarrow> error option" where
  "time_NewTicker d = (if d \<le> 0 then Some ErrPanic else None)"

text \<open>The four loops, which \<open>New\<close> starts as goroutines on the processor it returns. Each
  creates its ticker and then runs its tick function at every firing of the ticker until
  the processor is shut down; \<open>ticks\<close> lists the firings, each with the collaborator
  behaviour and the instant of the firing. The panic of \<^verbatim>\<open>time.NewTicker\<close> ends the loop,
  and the process, before the first tick; nothing recovers from it or logs it.\<close>

definition flushLoop ::
  "(collab \<times> collab \<times> time) list \<Rightarrow> processor \<times> obs \<Rightarrow> error option \<times> processor \<times> obs" where
  "flushLoop ticks s =
     (case time_NewTicker (FlushCheckPeriod (Cfg (fst s))) of
        Some pn \<Rightarrow> (Some pn, s)
      | None \<Rightarrow>
          (None, fold (\<lambda>tk. flushLoop_tick (fst tk) (fst (snd tk)) (snd (snd tk))) ticks s))"

definition deleteLoop ::
  "(collab \<times> time) list \<Rightarrow> processor \<times> obs \<Rightarrow> error option \<times> processor \<times> obs" where
  "deleteLoop ticks s =
     (case time_NewTicker (10 * 1000000000) of
        Some pn \<Rightarrow> (Some pn, s)
      | None \<Rightarrow> (None, fold (\<lambda>tk. deleteLoop_tick (fst tk) (snd tk)) ticks s))"

definition completeLoop ::
  "collab list \<Rightarrow> processor \<times> obs \<Rightarrow> error option \<times> processor \<times> obs" where
  "completeLoop ticks s =
     (case time_NewTicker (10 * 1000000000) of
        Some pn \<Rightarrow> (Some pn, s)
      | None \<Rightarrow> (None, fold completeLoop_tick ticks s))"

definition metricLoop :: "nat \<Rightarrow> processor \<times> obs \<Rightarrow> error option \<times> processor \<times> obs" where
  "metricLoop ticks s =
     (case time_NewTicker (10 * 1000000000) of
        Some pn \<Rightarrow> (Some pn, s)
      | None \<Rightarrow> (None, (recordBlockBytes ^^ ticks) s))"

section \<open>The readings of the claims\<close>

text \<open>A block with recorded end time \<open>t\<close> is expired at \<open>now\<close> when \<open>t\<close> is strictly before
  \<open>now - CompleteBlockTimeout\<close>.\<close>

definition expired :: "processor \<Rightarrow> time \<Rightarrow> time \<Rightarrow> bool" where
  "expired p now t \<longleftrightarrow> t < now - CompleteBlockTimeout (Cfg p)"

definition wal_expired :: "processor \<Rightarrow> time \<Rightarrow> uuid \<times> wal_block \<Rightarrow> bool" where
  "wal_expired p now kb \<longleftrightarrow> expired p now (EndTime (BlockMeta (snd kb)))"

definition complete_expired :: "processor \<Rightarrow> time \<Rightarrow> uuid \<times> backend_block \<Rightarrow> bool" where
  "complete_expired p now kb \<longleftrightarrow> expired p now (EndTime (BackendMeta (snd kb)))"

text \<open>The cutoff of \<open>deleteOldBlocks\<close> as the code computes it.\<close>

definition delete_cutoff :: "processor \<Rightarrow> time \<Rightarrow> time" where
  "delete_cutoff p now = time_Add now (neg_duration (CompleteBlockTimeout (Cfg p)))"

text \<open>The clears that one loop of \<open>deleteOldBlocks\<close> makes over the expired entries \<open>xs\<close> of a
  set, taken in iteration order, where \<open>clr x\<close> is the result of clearing the storage of
  \<open>x\<close>: the loop returns at the first clear that fails. \<open>cleared\<close> are the entries cleared
  before that, \<open>attempted\<close> the entries on which a clear is called (the failing one
  included), \<open>first_failure\<close> the error of the failing clear, if any.\<close>

definition cleared :: "('a \<Rightarrow> error option) \<Rightarrow> 'a list \<Rightarrow> 'a list" where
  "cleared clr xs = takeWhile (\<lambda>x. clr x = None) xs"

definition attempted :: "('a \<Rightarrow> error option) \<Rightarrow> 'a list \<Rightarrow> 'a list" where
  "attempted clr xs = cleared clr xs @ take 1 (dropWhile (\<lambda>x. clr x = None) xs)"

definition first_failure :: "('a \<Rightarrow> error option) \<Rightarrow> 'a list \<Rightarrow> error option" where
  "first_failure clr xs =
     (case dropWhile (\<lambda>x. clr x = None) xs of [] \<Rightarrow> None | x # rest \<Rightarrow> clr x)"

definition wal_clear :: "collab \<Rightarrow> uuid \<times> wal_block \<Rightarrow> error option" where
  "wal_clear e kb = Clear_err e (BlockID (BlockMeta (snd kb)))"

definition complete_clear :: "collab \<Rightarrow> uuid \<times> backend_block \<Rightarrow> error option" where
  "complete_clear e kb = ClearBlock_err e (fst kb)"

text \<open>A listed backend block recovers when its metadata is not found (a partial block) or
  when its metadata is read and the block opens. Recovery is fit to start the engine when
  the rescan, the tenant listing and (unless no tenant exists yet) the block listing
  succeed and every listed block recovers.\<close>

definition block_recovers :: "collab \<Rightarrow> string \<Rightarrow> uuid \<Rightarrow> bool" where
  "block_recovers e t i =
     (case ReadBlockMeta e i t of
        Inl err \<Rightarrow> err = ErrDoesNotExist
      | Inr meta \<Rightarrow> (case OpenBlock e meta of Inl err \<Rightarrow> False | Inr blk \<Rightarrow> True))"

definition recovery_ok :: "collab \<Rightarrow> string \<Rightarrow> bool" where
  "recovery_ok e t =
     (case RescanBlocks e of
        Inl err \<Rightarrow> False
      | Inr blks \<Rightarrow>
          (case Tenants e of
             Inl err \<Rightarrow> False
           | Inr tenants \<Rightarrow>
               tenants = [] \<or>
               (case Blocks e t of
                  Inl err \<Rightarrow> False
                | Inr ids \<Rightarrow> list_all (block_recovers e t) ids)))"

text \<open>The listed blocks whose metadata is not found, and the log records of the
  remediation deletions that fail.\<close>

definition partial_blocks :: "collab \<Rightarrow> string \<Rightarrow> uuid list \<Rightarrow> uuid list" where
  "partial_blocks e t ids = filter (\<lambda>i. ReadBlockMeta e i t = Inl ErrDoesNotExist) ids"

definition clear_failure_logs :: "collab \<Rightarrow> uuid list \<Rightarrow> (string \<times> error) list" where
  "clear_failure_logs e ids =
     concat (map (\<lambda>i. case ClearBlock_err e i of
                         None \<Rightarrow> []
                       | Some err \<Rightarrow>
                           [(''local blocks processor failed to clear partially written block during replay'',
                             err)]) ids)"

text \<open>The error with which recovery fails at a listed block (a metadata read that fails
  other than with not-found, or a failing open), the error with which recovery fails, and
  the listed blocks that recovery handles before it fails or ends.\<close>

definition block_error :: "collab \<Rightarrow> string \<Rightarrow> uuid \<Rightarrow> error option" where
  "block_error e t i =
     (case ReadBlockMeta e i t of
        Inl err \<Rightarrow> if err = ErrDoesNotExist then None else Some err
      | Inr meta \<Rightarrow> (case OpenBlock e meta of Inl err \<Rightarrow> Some err | Inr blk \<Rightarrow> None))"

definition recovery_failure :: "collab \<Rightarrow> string \<Rightarrow> error option" where
  "recovery_failure e t =
     (case RescanBlocks e of
        Inl err \<Rightarrow> Some err
      | Inr blks \<Rightarrow>
          (case Tenants e of
             Inl err \<Rightarrow> Some err
           | Inr tenants \<Rightarrow>
               if tenants = [] then None
               else (case Blocks e t of
                       Inl err \<Rightarrow> Some err
                     | Inr ids \<Rightarrow> first_failure (block_error e t) ids)))"

definition recovery_visited :: "collab \<Rightarrow> string \<Rightarrow> uuid list" where
  "recovery_visited e t =
     (case RescanBlocks e of
        Inl err \<Rightarrow> []
      | Inr blks \<Rightarrow>
          (case Tenants e of
             Inl err \<Rightarrow> []
           | Inr tenants \<Rightarrow>
               if tenants = [] then []
               else (case Blocks e t of
                       Inl err \<Rightarrow> []
                     | Inr ids \<Rightarrow> takeWhile (\<lambda>i. block_error e t i = None) ids)))"

text \<open>The trace identifiers of the \<open>Append\<close> calls in a sequence of storage calls, in order;
  the order on identifiers that \<open>bytes_Compare\<close> decides; the block an idle cut writes to
  (the head block, or the block allocated when there is none); the instant before which a
  trace counts as idle; and the traces an idle cut selects.\<close>

fun append_key :: "call \<Rightarrow> bytes list" where
  "append_key (Call_Append i k) = [k]"
| "append_key c = []"

definition appended_ids :: "call list \<Rightarrow> bytes list" where
  "appended_ids cs = concat (map append_key cs)"

definition bytes_le :: "bytes \<Rightarrow> bytes \<Rightarrow> bool" where
  "bytes_le a b \<longleftrightarrow> bytes_Compare a b \<le> 0"

definition head_or_new :: "collab \<Rightarrow> processor \<Rightarrow> wal_block" where
  "head_or_new e p =
     (case headBlock p of
        Some hb \<Rightarrow> hb
      | None \<Rightarrow> \<lparr>BlockMeta = \<lparr>BlockID = uuid_New e, TenantID = tenant p,
                               EndTime = time_zero, Size = 0\<rparr>,
                 DataLength = 0, appended = []\<rparr>)"

definition idle_since :: "time \<Rightarrow> bool \<Rightarrow> processor \<Rightarrow> time" where
  "idle_since now immediate p =
     (if immediate then time_zero else time_Add now (neg_duration (TraceIdlePeriod (Cfg p))))"

definition traces_to_cut :: "time \<Rightarrow> bool \<Rightarrow> processor \<Rightarrow> live_trace list" where
  "traces_to_cut now immediate p =
     fst (liveTraces_CutIdle (idle_since now immediate p) (liveTraces p))"

text \<open>The record an idle cut writes for a trace: the object the segment decoder makes of
  its batches (\<^verbatim>\<open>PrepareForWrite\<close>, then \<^verbatim>\<open>ToObject\<close> of the one buffer), or the error of
  the step that fails. \<open>append_all\<close> is a block after the given records have been appended
  to it in order, at the instant \<open>now\<close>.\<close>

definition trace_object :: "collab \<Rightarrow> live_trace \<Rightarrow> error + bytes" where
  "trace_object e t =
     (case PrepareForWrite e (Batches t) of
        Inl err \<Rightarrow> Inl err
      | Inr buf \<Rightarrow> ToObject e [buf])"

definition append_all :: "time \<Rightarrow> wal_block \<Rightarrow> (bytes \<times> bytes) list \<Rightarrow> wal_block" where
  "append_all now hb recs =
     foldl (\<lambda>blk rec. wal_Append blk (fst rec) (snd rec) (unix_u32 now) (unix_u32 now)) hb recs"

text \<open>The block lifecycle: the stage an identifier is in, the moves the lifecycle allows
  for an identifier that is present (stay, head to write-ahead, write-ahead to complete,
  or deleted), and the invariant: the keys of each set are distinct, a write-ahead block
  is stored under its own identifier, and the head block, the write-ahead set and the
  complete set share no identifier.\<close>

datatype stage = Absent | Head | WriteAhead | Complete

definition head_ids :: "processor \<Rightarrow> uuid set" where
  "head_ids p = (case headBlock p of None \<Rightarrow> {} | Some hb \<Rightarrow> {BlockID (BlockMeta hb)})"

definition wal_ids :: "processor \<Rightarrow> uuid set" where
  "wal_ids p = fst ` set (walBlocks p)"

definition complete_ids :: "processor \<Rightarrow> uuid set" where
  "complete_ids p = fst ` set (completeBlocks p)"

definition block_ids :: "processor \<Rightarrow> uuid set" where
  "block_ids p = head_ids p \<union> wal_ids p \<union> complete_ids p"

definition stage_of :: "processor \<Rightarrow> uuid \<Rightarrow> stage" where
  "stage_of p i =
     (if i \<in> head_ids p then Head
      else if i \<in> wal_ids p then WriteAhead
      else if i \<in> complete_ids p then Complete
      else Absent)"

definition forward :: "stage \<Rightarrow> stage \<Rightarrow> bool" where
  "forward s s' \<longleftrightarrow>
     s = s' \<or> (s = Head \<and> s' = WriteAhead) \<or> (s = WriteAhead \<and> s' = Complete) \<or> s' = Absent"

definition lifecycle_inv :: "processor \<Rightarrow> bool" where
  "lifecycle_inv p \<longleftrightarrow>
     distinct (map fst (walBlocks p)) \<and>
     distinct (map fst (completeBlocks p)) \<and>
     list_all (\<lambda>kb. BlockID (BlockMeta (snd kb)) = fst kb) (walBlocks p) \<and>
     head_ids p \<inter> wal_ids p = {} \<and>
     head_ids p \<inter> complete_ids p = {} \<and>
     wal_ids p \<inter> complete_ids p = {}"

text \<open>The operations of the block lifecycle manager, and the two failures after which
  an operation returns with a move half done: \<open>cutBlocks\<close> when the allocation of the new
  head block fails, \<open>completeBlock\<close> when clearing the source storage fails.\<close>

datatype operation =
    Op_writeHeadBlock bytes bytes
  | Op_cutBlocks bool
  | Op_completeBlock
  | Op_deleteOldBlocks

fun run :: "collab \<Rightarrow> time \<Rightarrow> operation \<Rightarrow> processor \<Rightarrow> error option \<times> processor" where
  "run e now (Op_writeHeadBlock i b) p = writeHeadBlock e now i b p"
| "run e now (Op_cutBlocks immediate) p = cutBlocks e now immediate p"
| "run e now Op_completeBlock p = completeBlock e p"
| "run e now Op_deleteOldBlocks p = deleteOldBlocks e now p"

fun half_done :: "collab \<Rightarrow> operation \<Rightarrow> processor \<Rightarrow> bool" where
  "half_done e (Op_cutBlocks immediate) p = (NewBlock_err e \<noteq> None)"
| "half_done e Op_completeBlock p =
     (case walBlocks p of
        [] \<Rightarrow> False
      | kb # rest \<Rightarrow> Clear_err e (BlockID (BlockMeta (snd kb))) \<noteq> None)"
| "half_done e op p = False"

text \<open>One step of the lifecycle from \<open>p\<close> to \<open>p'\<close>, where \<open>used\<close> holds every identifier in use
  so far and \<open>u\<close> is the identifier generated in this step: the invariant holds after the
  step, no identifier outside \<open>used\<close> other than \<open>u\<close> is in use, a present identifier stays
  or moves forward, and an absent identifier can only enter as \<open>u\<close>, as the head block.\<close>

definition lifecycle_step :: "uuid set \<Rightarrow> uuid \<Rightarrow> processor \<Rightarrow> processor \<Rightarrow> bool" where
  "lifecycle_step used u p p' \<longleftrightarrow>
     lifecycle_inv p' \<and>
     block_ids p' \<subseteq> insert u used \<and>
     (\<forall>i. stage_of p i \<noteq> Absent \<longrightarrow> forward (stage_of p i) (stage_of p' i)) \<and>
     (\<forall>i. stage_of p i = Absent \<and> stage_of p' i \<noteq> Absent \<longrightarrow> i = u \<and> stage_of p' i = Head)"

text \<open>The log records an error leaves, and the errors that the live trace buffer's push
  returns during one \<open>PushSpans\<close>, in order.\<close>

definition log_of :: "string \<Rightarrow> error option \<Rightarrow> (string \<times> error) list" where
  "log_of msg err = (case err of None \<Rightarrow> [] | Some er \<Rightarrow> [(msg, er)])"

fun push_errors ::
  "(addr \<Rightarrow> span) \<Rightarrow> (resource_spans \<Rightarrow> bytes) \<Rightarrow> time \<Rightarrow> resource_spans list
     \<Rightarrow> processor \<Rightarrow> error list" where
  "push_errors h key now [] p = []"
| "push_errors h key now (batch # batches) p =
     (case filterBatch h batch of
        None \<Rightarrow> push_errors h key now batches p
      | Some b \<Rightarrow>
          (case liveTraces_Push (key b) now b (MaxLiveTraces (Cfg p)) (liveTraces p) of
             (err, lt) \<Rightarrow>
               (case err of None \<Rightarrow> [] | Some er \<Rightarrow> [er])
               @ push_errors h key now batches (p\<lparr>liveTraces := lt\<rparr>)))"

section \<open>Concrete inputs\<close>

text \<open>A store with one server span (at address 1) and a batch with two scope groups.\<close>

definition ex_store :: "addr \<Rightarrow> span" where
  "ex_store a = (if a = 1 then \<lparr>Kind = SPAN_KIND_SERVER, TraceId = [1]\<rparr>
                 else \<lparr>Kind = SPAN_KIND_CLIENT, TraceId = [1]\<rparr>)"

definition ex_batch :: resource_spans where
  "ex_batch = \<lparr>Resource = 7, ScopeSpans =
      [\<lparr>Scope = 10, Spans = [0, 1]\<rparr>, \<lparr>Scope = 11, Spans = [2]\<rparr>]\<rparr>"

text \<open>A configuration, a collaborator behaviour in which every call succeeds, and a
  processor whose head block (identifier 1) holds one object of three bytes.\<close>

definition ex_cfg :: config where
  "ex_cfg = \<lparr>MaxLiveTraces = 2, MaxBlockDuration = 60000000000, MaxBlockBytes = 100,
     FlushCheckPeriod = 10000000000, TraceIdlePeriod = 10000000000,
     CompleteBlockTimeout = 3600000000000\<rparr>"

definition ex_collab :: collab where
  "ex_collab = \<lparr>uuid_New = 2, NewBlock_err = None, Append_err = (\<lambda>i k. None),
     Flush_err = (\<lambda>i. None), Clear_err = (\<lambda>i. None), ClearBlock_err = (\<lambda>i. None),
     Iterator_err = (\<lambda>i. None), CreateBlock = (\<lambda>m objs. Inr m),
     OpenBlock = (\<lambda>m. Inr (BackendBlock m)), PrepareForWrite = (\<lambda>bs. Inr [0]),
     ToObject = (\<lambda>bufs. Inr (concat bufs)), RescanBlocks = Inr [], Tenants = Inr [],
     Blocks = (\<lambda>t. Inr []), ReadBlockMeta = (\<lambda>i t. Inl ErrDoesNotExist)\<rparr>"

definition ex_block :: "uuid \<Rightarrow> time \<Rightarrow> wal_block" where
  "ex_block i t = \<lparr>BlockMeta = \<lparr>BlockID = i, TenantID = ''t'', EndTime = t, Size = 0\<rparr>,
     DataLength = 3, appended = [([1], [0, 0, 0])]\<rparr>"

definition ex_proc :: processor where
  "ex_proc = \<lparr>tenant = ''t'', Cfg = ex_cfg, headBlock = Some (ex_block 1 5000000000),
     walBlocks = [], completeBlocks = [], lastCutTime = 0, liveTraces = [], calls = []\<rparr>"

definition ex_disk_full :: error where
  "ex_disk_full = ErrMsg ''no space left on device''"

definition ex_flush_fails :: collab where
  "ex_flush_fails = ex_collab\<lparr>Flush_err := (\<lambda>i. Some ex_disk_full)\<rparr>"

text \<open>A processor without head block and with two write-ahead blocks, the first one old.\<close>

definition ex_proc_wal :: processor where
  "ex_proc_wal = \<lparr>tenant = ''t'', Cfg = ex_cfg, headBlock = None,
     walBlocks = [(1, ex_block 1 5000000000), (3, ex_block 3 9000000000000)],
     completeBlocks = [], lastCutTime = 0, liveTraces = [], calls = []\<rparr>"

text \<open>A processor with an old write-ahead block and an old complete block, and a
  collaborator behaviour in which clearing write-ahead storage fails.\<close>

definition ex_proc_old :: processor where
  "ex_proc_old = \<lparr>tenant = ''t'', Cfg = ex_cfg, headBlock = None,
     walBlocks = [(1, ex_block 1 5000000000), (3, ex_block 3 9000000000000)],
     completeBlocks = [(5, BackendBlock (BlockMeta (ex_block 5 5000000000)))],
     lastCutTime = 0, liveTraces = [], calls = []\<rparr>"

definition ex_clear_fails :: collab where
  "ex_clear_fails = ex_collab\<lparr>Clear_err := (\<lambda>i. Some ex_disk_full)\<rparr>"

text \<open>A processor with three old write-ahead blocks and an old complete block, a
  collaborator behaviour in which clearing the write-ahead block 3 fails, and a
  configuration whose \<open>CompleteBlockTimeout\<close> is the least duration.\<close>

definition ex_proc_old3 :: processor where
  "ex_proc_old3 = \<lparr>tenant = ''t'', Cfg = ex_cfg, headBlock = None,
     walBlocks = [(1, ex_block 1 5000000000), (3, ex_block 3 6000000000),
                  (4, ex_block 4 7000000000), (6, ex_block 6 9000000000000)],
     completeBlocks = [(5, BackendBlock (BlockMeta (ex_block 5 5000000000)))],
     lastCutTime = 0, liveTraces = [], calls = []\<rparr>"

definition ex_clear3_fails :: collab where
  "ex_clear3_fails = ex_collab\<lparr>Clear_err := (\<lambda>i. if i = 3 then Some ex_disk_full else None)\<rparr>"

definition ex_proc_min :: processor where
  "ex_proc_min = ex_proc_old\<lparr>Cfg := ex_cfg\<lparr>CompleteBlockTimeout := - (2 ^ 63)\<rparr>\<rparr>"

text \<open>A backend that lists one block without metadata and fails to delete it.\<close>

definition ex_partial :: collab where
  "ex_partial = ex_collab\<lparr>Tenants := Inr [''t''], Blocks := (\<lambda>t. Inr [9]),
     ClearBlock_err := (\<lambda>i. Some ex_disk_full)\<rparr>"

definition ex_obs :: obs where
  "ex_obs = \<lparr>metricDroppedTraces = 0, metricTotalTraces = 0, metricLiveTraces = 0,
     metricBlockSize = 0, logs = []\<rparr>"

text \<open>A store in which every span is a server span whose trace identifier is its address
  as one byte, the extraction of the identifier from the first span of a batch, a batch
  with the single span \<open>a\<close>, and a processor whose buffer holds the traces 1 and 2.\<close>

definition ex_server_store :: "addr \<Rightarrow> span" where
  "ex_server_store a = \<lparr>Kind = SPAN_KIND_SERVER, TraceId = [of_nat a]\<rparr>"

definition ex_key :: "resource_spans \<Rightarrow> bytes" where
  "ex_key b = TraceId (ex_server_store (hd (Spans (hd (ScopeSpans b)))))"

definition ex_span_batch :: "addr \<Rightarrow> resource_spans" where
  "ex_span_batch a = \<lparr>Resource = 0, ScopeSpans = [\<lparr>Scope = 0, Spans = [a]\<rparr>]\<rparr>"

definition ex_trace :: "addr \<Rightarrow> time \<Rightarrow> live_trace" where
  "ex_trace a t = \<lparr>tid = [of_nat a], Batches = [ex_span_batch a], timestamp = t\<rparr>"

definition ex_proc_full :: processor where
  "ex_proc_full = \<lparr>tenant = ''t'', Cfg = ex_cfg, headBlock = None, walBlocks = [],
     completeBlocks = [], lastCutTime = 0,
     liveTraces = [([2], ex_trace 2 1000), ([1], ex_trace 1 2000)], calls = []\<rparr>"

text \<open>A codec whose output depends on the trace: the object of a trace holds the addresses
  of the first span of each of its batches.\<close>

definition ex_codec :: collab where
  "ex_codec = ex_collab\<lparr>PrepareForWrite :=
     (\<lambda>bs. Inr (map (\<lambda>b. of_nat (hd (Spans (hd (ScopeSpans b))))) bs))\<rparr>"

text \<open>A run of the engine from construction: one record is written, the head block is cut,
  and the compaction of the resulting write-ahead block fails to clear its storage.\<close>

definition ex_init :: processor where
  "ex_init = \<lparr>tenant = ''t'', Cfg = ex_cfg, headBlock = None, walBlocks = [],
     completeBlocks = [], lastCutTime = time_zero, liveTraces = [], calls = []\<rparr>"

definition ex_collab3 :: collab where
  "ex_collab3 = ex_collab\<lparr>uuid_New := 3\<rparr>"

definition ex_written :: processor where
  "ex_written = snd (writeHeadBlock ex_collab 1000000000 [1] [7] ex_init)"

definition ex_cut :: processor where
  "ex_cut = snd (cutBlocks ex_collab3 1000000000 True ex_written)"

definition ex_half_completed :: processor where
  "ex_half_completed = snd (completeBlock ex_clear_fails ex_cut)"

text \<open>A WAL whose rescan fails.\<close>

definition ex_rescan_fails :: collab where
  "ex_rescan_fails = ex_collab\<lparr>RescanBlocks := Inl ex_disk_full\<rparr>"

text \<open>A configuration whose \<open>FlushCheckPeriod\<close> is zero, and a backend that lists a block
  without metadata, whose deletion fails, before a block whose metadata cannot be read.\<close>

definition ex_cfg_zero :: config where
  "ex_cfg_zero = ex_cfg\<lparr>FlushCheckPeriod := 0\<rparr>"

definition ex_partial_then_fail :: collab where
  "ex_partial_then_fail = ex_collab\<lparr>Tenants := Inr [''t''], Blocks := (\<lambda>t. Inr [9, 8]),
     ClearBlock_err := (\<lambda>i. Some ex_disk_full),
     ReadBlockMeta := (\<lambda>i t. if i = 9 then Inl ErrDoesNotExist else Inl ex_disk_full)\<rparr>"

text \<open>A second run: the cut fails to allocate the new head block, then a compaction and a
  further cut succeed.\<close>

definition ex_newblock_fails :: collab where
  "ex_newblock_fails = ex_collab\<lparr>NewBlock_err := Some ex_disk_full\<rparr>"

definition ex_reset_failed :: processor where
  "ex_reset_failed = snd (cutBlocks ex_newblock_fails 1000000000 True ex_written)"

definition ex_recompleted :: processor where
  "ex_recompleted = snd (completeBlock ex_collab ex_reset_failed)"

definition ex_recut :: processor where
  "ex_recut = snd (cutBlocks ex_collab3 1000000000 True ex_recompleted)"

section \<open>Results: the span filter\<close>

lemma keepSpans_fold:
  "fold (\<lambda>s keepSpans. if Kind (h s) = SPAN_KIND_SERVER then keepSpans @ [s] else keepSpans)
     spans acc = acc @ server_spans h spans"
  by (induction spans arbitrary: acc) (simp_all add: server_spans_def)

lemma keepSpans_loop_eq: "keepSpans_loop h spans = server_spans h spans"
  by (simp add: keepSpans_loop_def keepSpans_fold)

lemma keepSS_fold:
  "fold (\<lambda>ss keepSS.
             (let keepSpans = keepSpans_loop h (Spans ss)
              in if length keepSpans > 0
                 then keepSS @ [\<lparr>Scope = Scope ss, Spans = keepSpans\<rparr>]
                 else keepSS)) sss acc
   = acc @ map (\<lambda>ss. \<lparr>Scope = Scope ss, Spans = server_spans h (Spans ss)\<rparr>)
             (filter (\<lambda>ss. server_spans h (Spans ss) \<noteq> []) sss)"
  by (induction sss arbitrary: acc) (simp_all add: keepSpans_loop_eq Let_def)

lemma keepSS_loop_eq:
  "keepSS_loop h sss =
     map (\<lambda>ss. \<lparr>Scope = Scope ss, Spans = server_spans h (Spans ss)\<rparr>)
       (filter (\<lambda>ss. server_spans h (Spans ss) \<noteq> []) sss)"
  unfolding keepSS_loop_def keepSS_fold by simp

lemma concat_server_groups:
  "concat (map Spans (map (\<lambda>ss. \<lparr>Scope = Scope ss, Spans = server_spans h (Spans ss)\<rparr>)
       (filter (\<lambda>ss. server_spans h (Spans ss) \<noteq> []) sss)))
   = server_spans h (concat (map Spans sss))"
  by (induction sss) (simp_all add: server_spans_def)

lemma no_group_iff_no_server:
  "filter (\<lambda>ss. server_spans h (Spans ss) \<noteq> []) sss = []
   \<longleftrightarrow> server_spans h (concat (map Spans sss)) = []"
  by (induction sss) (simp_all add: server_spans_def)

text \<open>Claim C7. For every store and every input batch, \<open>filterBatch\<close> returns nothing
  exactly when the batch has no server span; otherwise it returns a batch with the input's
  resource pointer whose scope groups are, in order, the input's groups that have a server
  span, each with the input group's scope pointer and exactly the pointers to its server
  spans. So the result holds exactly the server spans of the input, and no returned group
  is empty. The span objects are only read: \<open>filterBatch\<close> takes the store and returns no
  store.\<close>

theorem C7_filterBatch:
  "(filterBatch h batch = None \<longleftrightarrow> server_spans h (all_spans batch) = []) \<and>
   (\<forall>r. filterBatch h batch = Some r \<longrightarrow>
      Resource r = Resource batch \<and>
      ScopeSpans r =
        map (\<lambda>ss. \<lparr>Scope = Scope ss, Spans = server_spans h (Spans ss)\<rparr>)
          (filter (\<lambda>ss. server_spans h (Spans ss) \<noteq> []) (ScopeSpans batch)) \<and>
      all_spans r = server_spans h (all_spans batch) \<and>
      (\<forall>g \<in> set (ScopeSpans r). Spans g \<noteq> []))"
proof -
  let ?groups = "map (\<lambda>ss. \<lparr>Scope = Scope ss, Spans = server_spans h (Spans ss)\<rparr>)
          (filter (\<lambda>ss. server_spans h (Spans ss) \<noteq> []) (ScopeSpans batch))"
  have eq: "filterBatch h batch =
      (if ?groups = [] then None else Some \<lparr>Resource = Resource batch, ScopeSpans = ?groups\<rparr>)"
    by (simp add: filterBatch_def keepSS_loop_eq Let_def)
  have empty: "?groups = [] \<longleftrightarrow> server_spans h (all_spans batch) = []"
    using no_group_iff_no_server [of h "ScopeSpans batch"] by (simp add: all_spans_def)
  have spans: "concat (map Spans ?groups) = server_spans h (all_spans batch)"
    by (simp only: concat_server_groups all_spans_def)
  have nonempty: "\<forall>g \<in> set ?groups. Spans g \<noteq> []"
    by auto
  show ?thesis
    unfolding eq using empty spans nonempty by (auto simp: all_spans_def)
qed

theorem C7_filterBatch_witness:
  "filterBatch ex_store ex_batch = Some \<lparr>Resource = 7, ScopeSpans = [\<lparr>Scope = 10, Spans = [1]\<rparr>]\<rparr>
   \<and> all_spans \<lparr>Resource = 7, ScopeSpans = [\<lparr>Scope = 10, Spans = [1]\<rparr>]\<rparr>
       = server_spans ex_store (all_spans ex_batch)"
proof -
  have e: "filterBatch ex_store ex_batch
             = Some \<lparr>Resource = 7, ScopeSpans = [\<lparr>Scope = 10, Spans = [1]\<rparr>]\<rparr>"
    by (simp add: filterBatch_def keepSS_loop_def keepSpans_loop_def ex_store_def ex_batch_def)
  from C7_filterBatch [of ex_store ex_batch] e show ?thesis by blast
qed

section \<open>Results: cutting the head block\<close>

lemma resetHeadBlock_ok:
  "NewBlock_err e = None \<Longrightarrow>
   resetHeadBlock e now p =
     (None, p\<lparr>calls := calls p @ [Call_NewBlock (uuid_New e)],
              headBlock := Some \<lparr>BlockMeta = \<lparr>BlockID = uuid_New e, TenantID = tenant p,
                                   EndTime = time_zero, Size = 0\<rparr>,
                                 DataLength = 0, appended = []\<rparr>,
              lastCutTime := now\<rparr>)"
  by (simp add: resetHeadBlock_def wal_NewBlock_def)

lemma resetHeadBlock_fail:
  "NewBlock_err e = Some err \<Longrightarrow>
   resetHeadBlock e now p = (Some err, p\<lparr>calls := calls p @ [Call_NewBlock (uuid_New e)]\<rparr>)"
  by (simp add: resetHeadBlock_def wal_NewBlock_def)

text \<open>Claim C1, as amended. For every call \<open>cutBlocks immediate\<close>: nothing changes and no
  storage call is made when the head block is absent or has zero accumulated bytes, and
  also when \<open>immediate\<close> is false and both the time since the last cut is below
  \<open>MaxBlockDuration\<close> and the accumulated bytes are below \<open>MaxBlockBytes\<close>. In every other case
  the head block is flushed. If that flush fails, the wrapped error is returned, the head
  block is not moved and no block is allocated. If the flush succeeds, the head block is
  registered in the write-ahead set under its own identifier and a new block is
  allocated under the identifier that \<^verbatim>\<open>uuid.New()\<close> returned. If that allocation fails,
  the wrapped error is returned, and the old block is still the head block, now also in
  the write-ahead set, with the cut clock unchanged. If it succeeds, the new empty block
  is the head block and the cut clock is \<open>now\<close>. In each case the whole state after the
  call is determined.\<close>

theorem C1_cutBlocks:
  "(headBlock p = None \<longrightarrow> cutBlocks e now immediate p = (None, p)) \<and>
   (\<forall>hb. headBlock p = Some hb \<longrightarrow>
      (DataLength hb = 0 \<longrightarrow> cutBlocks e now immediate p = (None, p)) \<and>
      (\<not> immediate \<and> time_Since now (lastCutTime p) < MaxBlockDuration (Cfg p)
         \<and> DataLength hb < MaxBlockBytes (Cfg p) \<longrightarrow>
       cutBlocks e now immediate p = (None, p)) \<and>
      (DataLength hb \<noteq> 0 \<and>
       (immediate \<or> MaxBlockDuration (Cfg p) \<le> time_Since now (lastCutTime p)
          \<or> MaxBlockBytes (Cfg p) \<le> DataLength hb) \<longrightarrow>
         (\<forall>err. Flush_err e (BlockID (BlockMeta hb)) = Some err \<longrightarrow>
            cutBlocks e now immediate p =
              (Some (ErrWrap ''failed to flush head block'' err),
               p\<lparr>calls := calls p @ [Call_Flush (BlockID (BlockMeta hb))]\<rparr>)) \<and>
         (\<forall>err. Flush_err e (BlockID (BlockMeta hb)) = None \<and> NewBlock_err e = Some err \<longrightarrow>
            cutBlocks e now immediate p =
              (Some (ErrWrap ''failed to resetHeadBlock'' err),
               p\<lparr>calls := calls p @ [Call_Flush (BlockID (BlockMeta hb)),
                                    Call_NewBlock (uuid_New e)],
                 walBlocks := AList.update (BlockID (BlockMeta hb)) hb (walBlocks p)\<rparr>)) \<and>
         (Flush_err e (BlockID (BlockMeta hb)) = None \<and> NewBlock_err e = None \<longrightarrow>
            cutBlocks e now immediate p =
              (None,
               p\<lparr>calls := calls p @ [Call_Flush (BlockID (BlockMeta hb)),
                                    Call_NewBlock (uuid_New e)],
                 walBlocks := AList.update (BlockID (BlockMeta hb)) hb (walBlocks p),
                 headBlock := Some \<lparr>BlockMeta = \<lparr>BlockID = uuid_New e, TenantID = tenant p,
                                                  EndTime = time_zero, Size = 0\<rparr>,
                                    DataLength = 0, appended = []\<rparr>,
                 lastCutTime := now\<rparr>)) \<and>
         (Flush_err e (BlockID (BlockMeta hb)) = None \<longrightarrow>
            map_of (walBlocks (snd (cutBlocks e now immediate p)))
              = (map_of (walBlocks p))(BlockID (BlockMeta hb) \<mapsto> hb) \<and>
            completeBlocks (snd (cutBlocks e now immediate p)) = completeBlocks p \<and>
            liveTraces (snd (cutBlocks e now immediate p)) = liveTraces p)))"
proof -
  have noop1: "headBlock p = None \<Longrightarrow> cutBlocks e now immediate p = (None, p)"
    by (simp add: cutBlocks_def)
  have noop2: "\<And>hb. headBlock p = Some hb \<Longrightarrow> DataLength hb = 0 \<Longrightarrow>
      cutBlocks e now immediate p = (None, p)"
    by (simp add: cutBlocks_def)
  have noop3: "\<And>hb. headBlock p = Some hb \<Longrightarrow> \<not> immediate \<Longrightarrow>
      time_Since now (lastCutTime p) < MaxBlockDuration (Cfg p) \<Longrightarrow>
      DataLength hb < MaxBlockBytes (Cfg p) \<Longrightarrow> cutBlocks e now immediate p = (None, p)"
    by (simp add: cutBlocks_def)
  have flushfail: "\<And>hb err. headBlock p = Some hb \<Longrightarrow> DataLength hb \<noteq> 0 \<Longrightarrow>
      immediate \<or> MaxBlockDuration (Cfg p) \<le> time_Since now (lastCutTime p)
          \<or> MaxBlockBytes (Cfg p) \<le> DataLength hb \<Longrightarrow>
      Flush_err e (BlockID (BlockMeta hb)) = Some err \<Longrightarrow>
      cutBlocks e now immediate p =
              (Some (ErrWrap ''failed to flush head block'' err),
               p\<lparr>calls := calls p @ [Call_Flush (BlockID (BlockMeta hb))]\<rparr>)"
    by (auto simp add: cutBlocks_def Let_def)
  have resetfail: "\<And>hb err. headBlock p = Some hb \<Longrightarrow> DataLength hb \<noteq> 0 \<Longrightarrow>
      immediate \<or> MaxBlockDuration (Cfg p) \<le> time_Since now (lastCutTime p)
          \<or> MaxBlockBytes (Cfg p) \<le> DataLength hb \<Longrightarrow>
      Flush_err e (BlockID (BlockMeta hb)) = None \<Longrightarrow> NewBlock_err e = Some err \<Longrightarrow>
      cutBlocks e now immediate p =
              (Some (ErrWrap ''failed to resetHeadBlock'' err),
               p\<lparr>calls := calls p @ [Call_Flush (BlockID (BlockMeta hb)),
                                    Call_NewBlock (uuid_New e)],
                 walBlocks := AList.update (BlockID (BlockMeta hb)) hb (walBlocks p)\<rparr>)"
    by (auto simp add: cutBlocks_def Let_def resetHeadBlock_fail)
  have cut: "\<And>hb. headBlock p = Some hb \<Longrightarrow> DataLength hb \<noteq> 0 \<Longrightarrow>
      immediate \<or> MaxBlockDuration (Cfg p) \<le> time_Since now (lastCutTime p)
          \<or> MaxBlockBytes (Cfg p) \<le> DataLength hb \<Longrightarrow>
      Flush_err e (BlockID (BlockMeta hb)) = None \<Longrightarrow> NewBlock_err e = None \<Longrightarrow>
      cutBlocks e now immediate p =
        (None, p\<lparr>calls := calls p @ [Call_Flush (BlockID (BlockMeta hb)),
                                    Call_NewBlock (uuid_New e)],
                 walBlocks := AList.update (BlockID (BlockMeta hb)) hb (walBlocks p),
                 headBlock := Some \<lparr>BlockMeta = \<lparr>BlockID = uuid_New e, TenantID = tenant p,
                                   EndTime = time_zero, Size = 0\<rparr>,
                                 DataLength = 0, appended = []\<rparr>,
                 lastCutTime := now\<rparr>)"
    by (auto simp add: cutBlocks_def Let_def resetHeadBlock_ok)
  have moved: "\<And>hb. headBlock p = Some hb \<Longrightarrow> DataLength hb \<noteq> 0 \<Longrightarrow>
      immediate \<or> MaxBlockDuration (Cfg p) \<le> time_Since now (lastCutTime p)
          \<or> MaxBlockBytes (Cfg p) \<le> DataLength hb \<Longrightarrow>
      Flush_err e (BlockID (BlockMeta hb)) = None \<Longrightarrow>
      map_of (walBlocks (snd (cutBlocks e now immediate p)))
        = (map_of (walBlocks p))(BlockID (BlockMeta hb) \<mapsto> hb) \<and>
      completeBlocks (snd (cutBlocks e now immediate p)) = completeBlocks p \<and>
      liveTraces (snd (cutBlocks e now immediate p)) = liveTraces p"
  proof -
    fix hb
    assume h: "headBlock p = Some hb" "DataLength hb \<noteq> 0"
      "immediate \<or> MaxBlockDuration (Cfg p) \<le> time_Since now (lastCutTime p)
          \<or> MaxBlockBytes (Cfg p) \<le> DataLength hb"
      "Flush_err e (BlockID (BlockMeta hb)) = None"
    have m: "map_of (AList.update (BlockID (BlockMeta hb)) hb (walBlocks p))
               = (map_of (walBlocks p))(BlockID (BlockMeta hb) \<mapsto> hb)"
      by (rule ext) (simp add: update_conv)
    show "map_of (walBlocks (snd (cutBlocks e now immediate p)))
        = (map_of (walBlocks p))(BlockID (BlockMeta hb) \<mapsto> hb) \<and>
      completeBlocks (snd (cutBlocks e now immediate p)) = completeBlocks p \<and>
      liveTraces (snd (cutBlocks e now immediate p)) = liveTraces p"
    proof (cases "NewBlock_err e")
      case None
      show ?thesis unfolding cut [OF h None] using m by simp
    next
      case (Some err)
      show ?thesis unfolding resetfail [OF h Some] using m by simp
    qed
  qed
  show ?thesis
    apply (intro conjI impI allI)
    subgoal by (rule noop1)
    subgoal by (rule noop2)
    subgoal by (rule noop3) auto
    subgoal by (rule flushfail) auto
    subgoal by (rule resetfail) auto
    subgoal by (rule cut) auto
    subgoal for hb using moved [of hb] by blast
    subgoal for hb using moved [of hb] by blast
    subgoal for hb using moved [of hb] by blast
    done
qed

theorem C1_cutBlocks_witness:
  "cutBlocks ex_collab 0 True ex_proc =
     (None,
      ex_proc\<lparr>calls := [Call_Flush 1, Call_NewBlock 2],
         walBlocks := [(1, ex_block 1 5000000000)],
         headBlock := Some \<lparr>BlockMeta = \<lparr>BlockID = 2, TenantID = ''t'',
                                          EndTime = time_zero, Size = 0\<rparr>,
                            DataLength = 0, appended = []\<rparr>,
         lastCutTime := 0\<rparr>) \<and>
   cutBlocks ex_collab 1 False ex_proc = (None, ex_proc) \<and>
   cutBlocks ex_flush_fails 0 True ex_proc =
     (Some (ErrWrap ''failed to flush head block'' ex_disk_full),
      ex_proc\<lparr>calls := [Call_Flush 1]\<rparr>) \<and>
   cutBlocks ex_newblock_fails 0 True ex_proc =
     (Some (ErrWrap ''failed to resetHeadBlock'' ex_disk_full),
      ex_proc\<lparr>calls := [Call_Flush 1, Call_NewBlock 2],
         walBlocks := [(1, ex_block 1 5000000000)]\<rparr>)"
proof -
  have hb: "headBlock ex_proc = Some (ex_block 1 5000000000)"
    and st: "calls ex_proc = []" "walBlocks ex_proc = []" "tenant ex_proc = ''t''"
    by (simp_all add: ex_proc_def)
  have dl: "DataLength (ex_block 1 5000000000) \<noteq> 0"
    and bid: "BlockID (BlockMeta (ex_block 1 5000000000)) = 1"
    by (simp_all add: ex_block_def)
  have ok: "Flush_err ex_collab 1 = None \<and> NewBlock_err ex_collab = None"
    and new: "uuid_New ex_collab = 2"
    by (simp_all add: ex_collab_def)
  have small: "\<not> False \<and> time_Since 1 (lastCutTime ex_proc) < MaxBlockDuration (Cfg ex_proc)
      \<and> DataLength (ex_block 1 5000000000) < MaxBlockBytes (Cfg ex_proc)"
    by (simp add: ex_proc_def ex_cfg_def ex_block_def time_Since_def sat64_def)
  have bad: "Flush_err ex_flush_fails 1 = Some ex_disk_full"
    by (simp add: ex_flush_fails_def)
  have nbf: "Flush_err ex_newblock_fails 1 = None \<and>
      NewBlock_err ex_newblock_fails = Some ex_disk_full"
    and new2: "uuid_New ex_newblock_fails = 2"
    by (simp_all add: ex_newblock_fails_def ex_collab_def)
  from C1_cutBlocks [of ex_proc ex_collab 0 True] hb dl bid ok new
  have a: "cutBlocks ex_collab 0 True ex_proc =
     (None,
      ex_proc\<lparr>calls := [Call_Flush 1, Call_NewBlock 2],
         walBlocks := [(1, ex_block 1 5000000000)],
         headBlock := Some \<lparr>BlockMeta = \<lparr>BlockID = 2, TenantID = ''t'',
                                          EndTime = time_zero, Size = 0\<rparr>,
                            DataLength = 0, appended = []\<rparr>,
         lastCutTime := 0\<rparr>)"
    by (simp add: st)
  from C1_cutBlocks [of ex_proc ex_collab 1 False] hb small
  have b: "cutBlocks ex_collab 1 False ex_proc = (None, ex_proc)"
    by blast
  from C1_cutBlocks [of ex_proc ex_flush_fails 0 True] hb dl bid bad
  have c: "cutBlocks ex_flush_fails 0 True ex_proc =
     (Some (ErrWrap ''failed to flush head block'' ex_disk_full),
      ex_proc\<lparr>calls := [Call_Flush 1]\<rparr>)"
    by (simp add: st)
  from C1_cutBlocks [of ex_proc ex_newblock_fails 0 True] hb dl bid nbf new2
  have d: "cutBlocks ex_newblock_fails 0 True ex_proc =
     (Some (ErrWrap ''failed to resetHeadBlock'' ex_disk_full),
      ex_proc\<lparr>calls := [Call_Flush 1, Call_NewBlock 2],
         walBlocks := [(1, ex_block 1 5000000000)]\<rparr>)"
    by (simp add: st)
  from a b c d show ?thesis by (intro conjI)
qed

text \<open>The claim as stated fails when the flush fails: with a non-empty head block and
  \<open>immediate\<close>, the head block is neither moved nor replaced. It fails also when the
  allocation of the new block fails: the old block stays the head block.\<close>

theorem C1_counterexample:
  "headBlock ex_proc = Some (ex_block 1 5000000000) \<and>
   DataLength (ex_block 1 5000000000) = 3 \<and>
   fst (cutBlocks ex_flush_fails 0 True ex_proc)
     = Some (ErrWrap ''failed to flush head block'' ex_disk_full) \<and>
   walBlocks (snd (cutBlocks ex_flush_fails 0 True ex_proc)) = [] \<and>
   headBlock (snd (cutBlocks ex_flush_fails 0 True ex_proc)) = Some (ex_block 1 5000000000) \<and>
   fst (cutBlocks ex_newblock_fails 0 True ex_proc)
     = Some (ErrWrap ''failed to resetHeadBlock'' ex_disk_full) \<and>
   headBlock (snd (cutBlocks ex_newblock_fails 0 True ex_proc))
     = Some (ex_block 1 5000000000)"
  by (simp add: cutBlocks_def resetHeadBlock_def wal_NewBlock_def ex_proc_def ex_block_def
      ex_flush_fails_def ex_newblock_fails_def ex_collab_def)

section \<open>Results: completing a block\<close>

lemma completeBlock_success:
  assumes "walBlocks p = (i, b) # rest" and "completeBlock e p = (None, p')"
  shows "\<exists>newMeta newBlock.
           Iterator_err e (BlockID (BlockMeta b)) = None \<and>
           CreateBlock e (BlockMeta b) (appended b) = Inr newMeta \<and>
           OpenBlock e newMeta = Inr newBlock \<and>
           Clear_err e (BlockID (BlockMeta b)) = None \<and>
           p' = p\<lparr>completeBlocks :=
                      AList.update (BlockID newMeta) newBlock (completeBlocks p),
                   calls := calls p @
                     [Call_Iterator (BlockID (BlockMeta b)),
                      Call_CreateBlock (BlockID (BlockMeta b)),
                      Call_OpenBlock (BlockID newMeta),
                      Call_Clear (BlockID (BlockMeta b))],
                   walBlocks := AList.delete i (walBlocks p)\<rparr>"
  using assms
  by (auto simp: completeBlock_def Let_def split: option.splits sum.splits)

lemma delete_first_distinct:
  "distinct (map fst ((i, b) # rest)) \<Longrightarrow> AList.delete i ((i, b) # rest) = rest"
  by (simp add: delete_id)

text \<open>Claim C2. When the write-ahead set is empty, \<open>completeBlock\<close> does nothing and
  succeeds. Every other successful call compacts exactly the first block in iteration
  order: the calls it makes are one \<open>Iterator\<close>, one \<open>CreateBlock\<close>, one \<open>OpenBlock\<close> and one
  \<open>Clear\<close>, all of which succeeded; the opened block is registered in the complete set
  under the identifier of the new metadata; the source is removed from the write-ahead
  set, and all other write-ahead blocks (the keys of a map are distinct) are still there;
  nothing else changes.\<close>

theorem C2_completeBlock:
  "(walBlocks p = [] \<longrightarrow> completeBlock e p = (None, p)) \<and>
   (\<forall>i b rest p'. walBlocks p = (i, b) # rest \<and> completeBlock e p = (None, p') \<longrightarrow>
      (\<exists>newMeta newBlock.
         CreateBlock e (BlockMeta b) (appended b) = Inr newMeta \<and>
         OpenBlock e newMeta = Inr newBlock \<and>
         Clear_err e (BlockID (BlockMeta b)) = None \<and>
         calls p' = calls p @
           [Call_Iterator (BlockID (BlockMeta b)),
            Call_CreateBlock (BlockID (BlockMeta b)),
            Call_OpenBlock (BlockID newMeta),
            Call_Clear (BlockID (BlockMeta b))] \<and>
         completeBlocks p' = AList.update (BlockID newMeta) newBlock (completeBlocks p) \<and>
         map_of (completeBlocks p') (BlockID newMeta) = Some newBlock \<and>
         walBlocks p' = AList.delete i (walBlocks p) \<and>
         map_of (walBlocks p') i = None \<and>
         (distinct (map fst (walBlocks p)) \<longrightarrow> walBlocks p' = rest) \<and>
         headBlock p' = headBlock p \<and> lastCutTime p' = lastCutTime p \<and>
         liveTraces p' = liveTraces p))"
proof (intro conjI allI impI)
  assume "walBlocks p = []"
  then show "completeBlock e p = (None, p)"
    by (simp add: completeBlock_def)
next
  fix i b rest p'
  assume a: "walBlocks p = (i, b) # rest \<and> completeBlock e p = (None, p')"
  from completeBlock_success [of p i b rest e p'] a obtain newMeta newBlock where
    ok: "CreateBlock e (BlockMeta b) (appended b) = Inr newMeta"
        "OpenBlock e newMeta = Inr newBlock"
        "Clear_err e (BlockID (BlockMeta b)) = None"
    and p': "p' = p\<lparr>completeBlocks :=
                      AList.update (BlockID newMeta) newBlock (completeBlocks p),
                   calls := calls p @
                     [Call_Iterator (BlockID (BlockMeta b)),
                      Call_CreateBlock (BlockID (BlockMeta b)),
                      Call_OpenBlock (BlockID newMeta),
                      Call_Clear (BlockID (BlockMeta b))],
                   walBlocks := AList.delete i (walBlocks p)\<rparr>"
    by blast
  have d: "distinct (map fst (walBlocks p)) \<longrightarrow> AList.delete i (walBlocks p) = rest"
    using a delete_first_distinct [of i b rest] by simp
  have m: "map_of (AList.delete i (walBlocks p)) i = None"
    by (simp add: delete_conv)
  have u: "map_of (AList.update (BlockID newMeta) newBlock (completeBlocks p)) (BlockID newMeta)
             = Some newBlock"
    by (simp add: update_conv)
  show "\<exists>newMeta newBlock.
         CreateBlock e (BlockMeta b) (appended b) = Inr newMeta \<and>
         OpenBlock e newMeta = Inr newBlock \<and>
         Clear_err e (BlockID (BlockMeta b)) = None \<and>
         calls p' = calls p @
           [Call_Iterator (BlockID (BlockMeta b)),
            Call_CreateBlock (BlockID (BlockMeta b)),
            Call_OpenBlock (BlockID newMeta),
            Call_Clear (BlockID (BlockMeta b))] \<and>
         completeBlocks p' = AList.update (BlockID newMeta) newBlock (completeBlocks p) \<and>
         map_of (completeBlocks p') (BlockID newMeta) = Some newBlock \<and>
         walBlocks p' = AList.delete i (walBlocks p) \<and>
         map_of (walBlocks p') i = None \<and>
         (distinct (map fst (walBlocks p)) \<longrightarrow> walBlocks p' = rest) \<and>
         headBlock p' = headBlock p \<and> lastCutTime p' = lastCutTime p \<and>
         liveTraces p' = liveTraces p"
    apply (rule exI [of _ newMeta], rule exI [of _ newBlock])
    using ok d m u by (simp add: p')
qed

theorem C2_completeBlock_witness:
  "walBlocks ex_proc_wal = (1, ex_block 1 5000000000) # [(3, ex_block 3 9000000000000)] \<and>
   fst (completeBlock ex_collab ex_proc_wal) = None \<and>
   walBlocks (snd (completeBlock ex_collab ex_proc_wal)) = [(3, ex_block 3 9000000000000)] \<and>
   length (calls (snd (completeBlock ex_collab ex_proc_wal))) = 4"
proof -
  have w: "walBlocks ex_proc_wal = (1, ex_block 1 5000000000) # [(3, ex_block 3 9000000000000)]"
    by (simp add: ex_proc_wal_def)
  have r: "completeBlock ex_collab ex_proc_wal = (None, snd (completeBlock ex_collab ex_proc_wal))"
    by (simp add: completeBlock_def ex_proc_wal_def ex_collab_def Let_def)
  have dist: "distinct (map fst (walBlocks ex_proc_wal))"
    by (simp add: ex_proc_wal_def)
  have c0: "calls ex_proc_wal = []"
    by (simp add: ex_proc_wal_def)
  from C2_completeBlock [of ex_proc_wal ex_collab] w r dist
  have "walBlocks (snd (completeBlock ex_collab ex_proc_wal)) = [(3, ex_block 3 9000000000000)]
     \<and> length (calls (snd (completeBlock ex_collab ex_proc_wal))) = length (calls ex_proc_wal) + 4"
    by fastforce
  with w r c0 show ?thesis by (metis add_0 fst_conv list.size(3))
qed

section \<open>Results: deleting old blocks\<close>

lemma delete_as_filter: "AList.delete k xs = filter (\<lambda>kb. fst kb \<noteq> k) xs"
  by (induction xs) auto

lemma deleteOld_wal_frame:
  "deleteOld_wal e before xs p = (r, p') \<Longrightarrow>
   p' = p\<lparr>calls := calls p', walBlocks := walBlocks p'\<rparr>"
proof (induction xs arbitrary: p)
  case Nil
  then show ?case by simp
next
  case (Cons x xs)
  obtain i b where x: "x = (i, b)" by (cases x)
  show ?case
  proof (cases "EndTime (BlockMeta b) < before")
    case False
    with Cons x show ?thesis by simp
  next
    case True
    show ?thesis
    proof (cases "Clear_err e (BlockID (BlockMeta b))")
      case (Some err)
      with Cons.prems x True show ?thesis by (auto simp: Let_def)
    next
      case None
      let ?q = "p\<lparr>calls := calls p @ [Call_Clear (BlockID (BlockMeta b))],
                  walBlocks := AList.delete i (walBlocks p)\<rparr>"
      from Cons.prems x True None have "deleteOld_wal e before xs ?q = (r, p')"
        by (simp add: Let_def)
      from Cons.IH [OF this] show ?thesis by simp
    qed
  qed
qed

lemma deleteOld_wal_result:
  "deleteOld_wal e before xs p = (r, p') \<Longrightarrow>
   \<exists>ys. prefix ys (filter (\<lambda>kb. EndTime (BlockMeta (snd kb)) < before) xs) \<and>
        (r = None \<longrightarrow> ys = filter (\<lambda>kb. EndTime (BlockMeta (snd kb)) < before) xs) \<and>
        walBlocks p' = filter (\<lambda>kb. fst kb \<notin> fst ` set ys) (walBlocks p) \<and>
        (r = None \<longrightarrow> calls p' = calls p @ map (\<lambda>kb. Call_Clear (BlockID (BlockMeta (snd kb)))) ys)"
proof (induction xs arbitrary: p)
  case Nil
  then show ?case by auto
next
  case (Cons x xs)
  obtain i b where x: "x = (i, b)" by (cases x)
  show ?case
  proof (cases "EndTime (BlockMeta b) < before")
    case False
    with Cons.prems x have "deleteOld_wal e before xs p = (r, p')" by simp
    from Cons.IH [OF this] False x show ?thesis by simp
  next
    case True
    show ?thesis
    proof (cases "Clear_err e (BlockID (BlockMeta b))")
      case (Some err)
      with Cons.prems x True have "r = Some err" "walBlocks p' = walBlocks p"
        by (auto simp: Let_def)
      then show ?thesis by (intro exI [of _ "[]"]) simp
    next
      case None
      let ?q = "p\<lparr>calls := calls p @ [Call_Clear (BlockID (BlockMeta b))],
                  walBlocks := AList.delete i (walBlocks p)\<rparr>"
      from Cons.prems x True None have "deleteOld_wal e before xs ?q = (r, p')"
        by (simp add: Let_def)
      from Cons.IH [OF this] obtain ys where
        ys: "prefix ys (filter (\<lambda>kb. EndTime (BlockMeta (snd kb)) < before) xs)"
            "r = None \<longrightarrow> ys = filter (\<lambda>kb. EndTime (BlockMeta (snd kb)) < before) xs"
            "walBlocks p' = filter (\<lambda>kb. fst kb \<notin> fst ` set ys) (walBlocks ?q)"
            "r = None \<longrightarrow> calls p' = calls ?q @ map (\<lambda>kb. Call_Clear (BlockID (BlockMeta (snd kb)))) ys"
        by blast
      have w: "walBlocks p' = filter (\<lambda>kb. fst kb \<notin> fst ` set ((i, b) # ys)) (walBlocks p)"
        using ys(3) by (auto simp: delete_as_filter intro: filter_cong)
      show ?thesis
        apply (rule exI [of _ "(i, b) # ys"])
        using ys(1,2,4) w x True by simp
    qed
  qed
qed

lemma deleteOld_complete_frame:
  "deleteOld_complete e before xs p = (r, p') \<Longrightarrow>
   p' = p\<lparr>calls := calls p', completeBlocks := completeBlocks p'\<rparr>"
proof (induction xs arbitrary: p)
  case Nil
  then show ?case by simp
next
  case (Cons x xs)
  obtain i b where x: "x = (i, b)" by (cases x)
  show ?case
  proof (cases "EndTime (BackendMeta b) < before")
    case False
    with Cons x show ?thesis by simp
  next
    case True
    show ?thesis
    proof (cases "ClearBlock_err e i")
      case (Some err)
      with Cons.prems x True show ?thesis by (auto simp: Let_def)
    next
      case None
      let ?q = "p\<lparr>calls := calls p @ [Call_ClearBlock i],
                  completeBlocks := AList.delete i (completeBlocks p)\<rparr>"
      from Cons.prems x True None have "deleteOld_complete e before xs ?q = (r, p')"
        by (simp add: Let_def)
      from Cons.IH [OF this] show ?thesis by simp
    qed
  qed
qed

lemma deleteOld_complete_result:
  "deleteOld_complete e before xs p = (r, p') \<Longrightarrow>
   \<exists>ys. prefix ys (filter (\<lambda>kb. EndTime (BackendMeta (snd kb)) < before) xs) \<and>
        (r = None \<longrightarrow> ys = filter (\<lambda>kb. EndTime (BackendMeta (snd kb)) < before) xs) \<and>
        completeBlocks p' = filter (\<lambda>kb. fst kb \<notin> fst ` set ys) (completeBlocks p) \<and>
        (r = None \<longrightarrow> calls p' = calls p @ map (\<lambda>kb. Call_ClearBlock (fst kb)) ys)"
proof (induction xs arbitrary: p)
  case Nil
  then show ?case by auto
next
  case (Cons x xs)
  obtain i b where x: "x = (i, b)" by (cases x)
  show ?case
  proof (cases "EndTime (BackendMeta b) < before")
    case False
    with Cons.prems x have "deleteOld_complete e before xs p = (r, p')" by simp
    from Cons.IH [OF this] False x show ?thesis by simp
  next
    case True
    show ?thesis
    proof (cases "ClearBlock_err e i")
      case (Some err)
      with Cons.prems x True have "r = Some err" "completeBlocks p' = completeBlocks p"
        by (auto simp: Let_def)
      then show ?thesis by (intro exI [of _ "[]"]) simp
    next
      case None
      let ?q = "p\<lparr>calls := calls p @ [Call_ClearBlock i],
                  completeBlocks := AList.delete i (completeBlocks p)\<rparr>"
      from Cons.prems x True None have "deleteOld_complete e before xs ?q = (r, p')"
        by (simp add: Let_def)
      from Cons.IH [OF this] obtain ys where
        ys: "prefix ys (filter (\<lambda>kb. EndTime (BackendMeta (snd kb)) < before) xs)"
            "r = None \<longrightarrow> ys = filter (\<lambda>kb. EndTime (BackendMeta (snd kb)) < before) xs"
            "completeBlocks p' = filter (\<lambda>kb. fst kb \<notin> fst ` set ys) (completeBlocks ?q)"
            "r = None \<longrightarrow> calls p' = calls ?q @ map (\<lambda>kb. Call_ClearBlock (fst kb)) ys"
        by blast
      have w: "completeBlocks p' =
                 filter (\<lambda>kb. fst kb \<notin> fst ` set ((i, b) # ys)) (completeBlocks p)"
        using ys(3) by (auto simp: delete_as_filter intro: filter_cong)
      show ?thesis
        apply (rule exI [of _ "(i, b) # ys"])
        using ys(1,2,4) w x True by simp
    qed
  qed
qed

text \<open>The negation of a duration other than the least one is the negation on integers, so
  that the cutoff is \<open>now - CompleteBlockTimeout\<close>.\<close>

lemma neg_duration_in_range:
  assumes "- (2 ^ 63) < d" and "d < 2 ^ 63"
  shows "neg_duration d = - d"
proof -
  have "0 \<le> - d + 2 ^ 63" "- d + 2 ^ 63 < (2 ^ 64 :: int)"
    using assms by simp_all
  then have "(- d + 2 ^ 63) mod 2 ^ 64 = - d + 2 ^ 63"
    by (rule mod_pos_pos_trivial)
  then show ?thesis by (simp add: neg_duration_def wrap64_def)
qed

lemma delete_cutoff_in_range:
  assumes "- (2 ^ 63) < CompleteBlockTimeout (Cfg p)" and "CompleteBlockTimeout (Cfg p) < 2 ^ 63"
  shows "delete_cutoff p now = now - CompleteBlockTimeout (Cfg p)"
  using neg_duration_in_range [OF assms] by (simp add: delete_cutoff_def time_Add_def)

lemma first_failure_simps:
  "first_failure clr [] = None"
  "clr x = None \<Longrightarrow> first_failure clr (x # xs) = first_failure clr xs"
  "clr x = Some err \<Longrightarrow> first_failure clr (x # xs) = Some err"
  by (simp_all add: first_failure_def)

lemma cleared_simps:
  "cleared clr [] = []"
  "clr x = None \<Longrightarrow> cleared clr (x # xs) = x # cleared clr xs"
  "clr x = Some err \<Longrightarrow> cleared clr (x # xs) = []"
  by (simp_all add: cleared_def)

lemma attempted_simps:
  "attempted clr [] = []"
  "clr x = None \<Longrightarrow> attempted clr (x # xs) = x # attempted clr xs"
  "clr x = Some err \<Longrightarrow> attempted clr (x # xs) = [x]"
  by (simp_all add: attempted_def cleared_def)

lemma first_failure_None_iff:
  "first_failure clr xs = None \<longleftrightarrow> (\<forall>x \<in> set xs. clr x = None)"
proof (induction xs)
  case Nil
  show ?case by (simp add: first_failure_simps)
next
  case (Cons x xs)
  then show ?case by (cases "clr x") (simp_all add: first_failure_simps)
qed

lemma all_cleared:
  assumes "first_failure clr xs = None"
  shows "cleared clr xs = xs \<and> attempted clr xs = xs"
proof -
  from assms have a: "\<forall>x \<in> set xs. clr x = None" by (simp add: first_failure_None_iff)
  then have t: "takeWhile (\<lambda>x. clr x = None) xs = xs"
    and d: "dropWhile (\<lambda>x. clr x = None) xs = []"
    by simp_all
  show ?thesis unfolding cleared_def attempted_def t d by simp
qed

lemma set_cleared: "set (cleared clr (filter P xs)) \<subseteq> set (filter P xs)"
  unfolding cleared_def by (auto dest: set_takeWhileD)

text \<open>Each loop of \<open>deleteOldBlocks\<close>, for every outcome: the error returned is that of the
  first clear that fails, the clears called are those of the expired entries up to and
  including the failing one, and the keys deleted are those of the entries cleared.\<close>

lemma deleteOld_wal_exact:
  "deleteOld_wal e before xs p =
     (first_failure (wal_clear e) (filter (\<lambda>kb. EndTime (BlockMeta (snd kb)) < before) xs),
      p\<lparr>calls := calls p @ map (\<lambda>kb. Call_Clear (BlockID (BlockMeta (snd kb))))
                   (attempted (wal_clear e)
                      (filter (\<lambda>kb. EndTime (BlockMeta (snd kb)) < before) xs)),
        walBlocks := filter (\<lambda>kb. fst kb \<notin> fst ` set (cleared (wal_clear e)
                      (filter (\<lambda>kb. EndTime (BlockMeta (snd kb)) < before) xs)))
                   (walBlocks p)\<rparr>)"
proof (induction xs arbitrary: p)
  case Nil
  show ?case by (simp add: first_failure_simps cleared_simps attempted_simps)
next
  case (Cons x xs)
  obtain i b where x: "x = (i, b)" by (cases x)
  show ?case
  proof (cases "EndTime (BlockMeta b) < before")
    case False
    with Cons.IH [of p] x show ?thesis by simp
  next
    case True
    show ?thesis
    proof (cases "Clear_err e (BlockID (BlockMeta b))")
      case (Some err)
      then have c: "wal_clear e (i, b) = Some err" by (simp add: wal_clear_def)
      from Some x True c show ?thesis
        by (simp add: Let_def first_failure_simps cleared_simps attempted_simps)
    next
      case None
      then have c: "wal_clear e (i, b) = None" by (simp add: wal_clear_def)
      let ?q = "p\<lparr>calls := calls p @ [Call_Clear (BlockID (BlockMeta b))],
                  walBlocks := AList.delete i (walBlocks p)\<rparr>"
      have f: "filter (\<lambda>kb. fst kb \<notin> fst ` set ys) (AList.delete i (walBlocks p))
                 = filter (\<lambda>kb. fst kb \<notin> fst ` set ((i, b) # ys)) (walBlocks p)" for ys
        by (auto simp: delete_as_filter intro: filter_cong)
      from None x True have "deleteOld_wal e before (x # xs) p = deleteOld_wal e before xs ?q"
        by (simp add: Let_def)
      then show ?thesis
        unfolding Cons.IH [of ?q] using x True c
        by (simp add: first_failure_simps cleared_simps attempted_simps f)
    qed
  qed
qed

lemma deleteOld_complete_exact:
  "deleteOld_complete e before xs p =
     (first_failure (complete_clear e) (filter (\<lambda>kb. EndTime (BackendMeta (snd kb)) < before) xs),
      p\<lparr>calls := calls p @ map (\<lambda>kb. Call_ClearBlock (fst kb))
                   (attempted (complete_clear e)
                      (filter (\<lambda>kb. EndTime (BackendMeta (snd kb)) < before) xs)),
        completeBlocks := filter (\<lambda>kb. fst kb \<notin> fst ` set (cleared (complete_clear e)
                      (filter (\<lambda>kb. EndTime (BackendMeta (snd kb)) < before) xs)))
                   (completeBlocks p)\<rparr>)"
proof (induction xs arbitrary: p)
  case Nil
  show ?case by (simp add: first_failure_simps cleared_simps attempted_simps)
next
  case (Cons x xs)
  obtain i b where x: "x = (i, b)" by (cases x)
  show ?case
  proof (cases "EndTime (BackendMeta b) < before")
    case False
    with Cons.IH [of p] x show ?thesis by simp
  next
    case True
    show ?thesis
    proof (cases "ClearBlock_err e i")
      case (Some err)
      then have c: "complete_clear e (i, b) = Some err" by (simp add: complete_clear_def)
      from Some x True c show ?thesis
        by (simp add: Let_def first_failure_simps cleared_simps attempted_simps)
    next
      case None
      then have c: "complete_clear e (i, b) = None" by (simp add: complete_clear_def)
      let ?q = "p\<lparr>calls := calls p @ [Call_ClearBlock i],
                  completeBlocks := AList.delete i (completeBlocks p)\<rparr>"
      have f: "filter (\<lambda>kb. fst kb \<notin> fst ` set ys) (AList.delete i (completeBlocks p))
                 = filter (\<lambda>kb. fst kb \<notin> fst ` set ((i, b) # ys)) (completeBlocks p)" for ys
        by (auto simp: delete_as_filter intro: filter_cong)
      from None x True
      have "deleteOld_complete e before (x # xs) p = deleteOld_complete e before xs ?q"
        by (simp add: Let_def)
      then show ?thesis
        unfolding Cons.IH [of ?q] using x True c
        by (simp add: first_failure_simps cleared_simps attempted_simps f)
    qed
  qed
qed

text \<open>In a map, removing the keys of some of its entries removes those entries.\<close>

lemma filter_keys_entries:
  assumes "distinct (map fst xs)" and "set ys \<subseteq> set xs"
  shows "filter (\<lambda>kb. fst kb \<notin> fst ` set ys) xs = filter (\<lambda>kb. kb \<notin> set ys) xs"
proof (rule filter_cong [OF refl])
  fix kb assume kb: "kb \<in> set xs"
  show "(fst kb \<notin> fst ` set ys) = (kb \<notin> set ys)"
  proof
    assume "fst kb \<notin> fst ` set ys"
    then show "kb \<notin> set ys" by force
  next
    assume n: "kb \<notin> set ys"
    show "fst kb \<notin> fst ` set ys"
    proof
      assume "fst kb \<in> fst ` set ys"
      then obtain kb' where kb': "kb' \<in> set ys" "fst kb' = fst kb" by auto
      with assms(2) have "kb' \<in> set xs" by auto
      with assms(1) kb kb'(2) have "kb' = kb" by (metis eq_key_imp_eq_value prod.collapse)
      with kb'(1) n show False by simp
    qed
  qed
qed

text \<open>The whole of \<open>deleteOldBlocks\<close>, for every outcome.\<close>

lemma deleteOldBlocks_exact:
  "deleteOldBlocks e now p =
     (case first_failure (wal_clear e)
             (filter (\<lambda>kb. EndTime (BlockMeta (snd kb)) < delete_cutoff p now) (walBlocks p)) of
        Some err \<Rightarrow>
          (Some err,
           p\<lparr>calls := calls p @ map (\<lambda>kb. Call_Clear (BlockID (BlockMeta (snd kb))))
                   (attempted (wal_clear e)
                      (filter (\<lambda>kb. EndTime (BlockMeta (snd kb)) < delete_cutoff p now) (walBlocks p))),
             walBlocks := filter (\<lambda>kb. fst kb \<notin> fst ` set (cleared (wal_clear e)
                      (filter (\<lambda>kb. EndTime (BlockMeta (snd kb)) < delete_cutoff p now) (walBlocks p))))
                   (walBlocks p)\<rparr>)
      | None \<Rightarrow>
          (first_failure (complete_clear e)
             (filter (\<lambda>kb. EndTime (BackendMeta (snd kb)) < delete_cutoff p now) (completeBlocks p)),
           p\<lparr>calls := calls p
                @ map (\<lambda>kb. Call_Clear (BlockID (BlockMeta (snd kb))))
                   (filter (\<lambda>kb. EndTime (BlockMeta (snd kb)) < delete_cutoff p now) (walBlocks p))
                @ map (\<lambda>kb. Call_ClearBlock (fst kb))
                   (attempted (complete_clear e)
                      (filter (\<lambda>kb. EndTime (BackendMeta (snd kb)) < delete_cutoff p now)
                         (completeBlocks p))),
             walBlocks := filter (\<lambda>kb. fst kb \<notin> fst ` set
                      (filter (\<lambda>kb. EndTime (BlockMeta (snd kb)) < delete_cutoff p now) (walBlocks p)))
                   (walBlocks p),
             completeBlocks := filter (\<lambda>kb. fst kb \<notin> fst ` set (cleared (complete_clear e)
                      (filter (\<lambda>kb. EndTime (BackendMeta (snd kb)) < delete_cutoff p now)
                         (completeBlocks p))))
                   (completeBlocks p)\<rparr>))"
proof (cases "first_failure (wal_clear e)
             (filter (\<lambda>kb. EndTime (BlockMeta (snd kb)) < delete_cutoff p now) (walBlocks p))")
  case (Some err)
  then show ?thesis
    by (simp add: deleteOldBlocks_def delete_cutoff_def [symmetric] deleteOld_wal_exact Let_def)
next
  case None
  from all_cleared [OF None] None show ?thesis
    by (simp add: deleteOldBlocks_def delete_cutoff_def [symmetric] deleteOld_wal_exact
        deleteOld_complete_exact Let_def)
qed

text \<open>Claim C4, as amended. Let \<open>CompleteBlockTimeout\<close> be a duration other than the least
  one, and let the keys of both sets be distinct, as the keys of a map are. A block is
  expired when its end time is strictly before \<open>now - CompleteBlockTimeout\<close>.
  \<open>deleteOldBlocks\<close> visits the expired write-ahead blocks, then the expired complete
  blocks, in iteration order, calls the storage clear of each and removes it, and returns
  at the first clear that fails, with that error. So the blocks removed are the expired
  blocks visited before the first failure; the failing block and the expired blocks not
  yet visited stay; the clears called are those up to and including the failing one; and
  when the failure is in the write-ahead set the complete set is as before. The call
  succeeds exactly when every storage clear of an expired block succeeds, and then it has
  cleared and removed exactly the expired blocks, from the write-ahead set and from the
  complete set, each by its own end time. In every case each block that is not expired
  stays in its set, and nothing but the two sets (and the record of the calls) changes.\<close>

theorem C4_deleteOldBlocks:
  assumes "- (2 ^ 63) < CompleteBlockTimeout (Cfg p)"
    and "CompleteBlockTimeout (Cfg p) < 2 ^ 63"
    and "distinct (map fst (walBlocks p))" and "distinct (map fst (completeBlocks p))"
    and "deleteOldBlocks e now p = (r, p')"
  shows "r = (case first_failure (wal_clear e) (filter (wal_expired p now) (walBlocks p)) of
                Some err \<Rightarrow> Some err
              | None \<Rightarrow> first_failure (complete_clear e)
                          (filter (complete_expired p now) (completeBlocks p))) \<and>
         walBlocks p' =
           filter (\<lambda>kb. kb \<notin> set (cleared (wal_clear e)
                                     (filter (wal_expired p now) (walBlocks p))))
             (walBlocks p) \<and>
         completeBlocks p' =
           (if first_failure (wal_clear e) (filter (wal_expired p now) (walBlocks p)) = None
            then filter (\<lambda>kb. kb \<notin> set (cleared (complete_clear e)
                                     (filter (complete_expired p now) (completeBlocks p))))
                   (completeBlocks p)
            else completeBlocks p) \<and>
         calls p' = calls p
           @ map (\<lambda>kb. Call_Clear (BlockID (BlockMeta (snd kb))))
               (attempted (wal_clear e) (filter (wal_expired p now) (walBlocks p)))
           @ (if first_failure (wal_clear e) (filter (wal_expired p now) (walBlocks p)) = None
              then map (\<lambda>kb. Call_ClearBlock (fst kb))
                     (attempted (complete_clear e)
                        (filter (complete_expired p now) (completeBlocks p)))
              else []) \<and>
         p' = p\<lparr>calls := calls p', walBlocks := walBlocks p',
                completeBlocks := completeBlocks p'\<rparr> \<and>
         (r = None \<longleftrightarrow>
            (\<forall>kb \<in> set (walBlocks p). wal_expired p now kb \<longrightarrow>
               Clear_err e (BlockID (BlockMeta (snd kb))) = None) \<and>
            (\<forall>kb \<in> set (completeBlocks p). complete_expired p now kb \<longrightarrow>
               ClearBlock_err e (fst kb) = None)) \<and>
         (r = None \<longrightarrow>
            walBlocks p' = filter (\<lambda>kb. \<not> wal_expired p now kb) (walBlocks p) \<and>
            completeBlocks p' = filter (\<lambda>kb. \<not> complete_expired p now kb) (completeBlocks p) \<and>
            calls p' = calls p
              @ map (\<lambda>kb. Call_Clear (BlockID (BlockMeta (snd kb))))
                  (filter (wal_expired p now) (walBlocks p))
              @ map (\<lambda>kb. Call_ClearBlock (fst kb))
                  (filter (complete_expired p now) (completeBlocks p))) \<and>
         filter (\<lambda>kb. \<not> wal_expired p now kb) (walBlocks p')
           = filter (\<lambda>kb. \<not> wal_expired p now kb) (walBlocks p) \<and>
         filter (\<lambda>kb. \<not> complete_expired p now kb) (completeBlocks p')
           = filter (\<lambda>kb. \<not> complete_expired p now kb) (completeBlocks p)"
proof -
  let ?OW = "filter (wal_expired p now) (walBlocks p)"
  let ?OC = "filter (complete_expired p now) (completeBlocks p)"
  let ?CW = "cleared (wal_clear e) ?OW"
  let ?CC = "cleared (complete_clear e) ?OC"
  have we: "(\<lambda>kb. EndTime (BlockMeta (snd kb)) < delete_cutoff p now) = wal_expired p now"
    and ce: "(\<lambda>kb. EndTime (BackendMeta (snd kb)) < delete_cutoff p now) = complete_expired p now"
    by (auto simp: wal_expired_def complete_expired_def expired_def
        delete_cutoff_in_range [OF assms(1,2)])
  have sw: "set ?CW \<subseteq> set (walBlocks p)" and sc: "set ?CC \<subseteq> set (completeBlocks p)"
    using set_cleared [of "wal_clear e" "wal_expired p now" "walBlocks p"]
      set_cleared [of "complete_clear e" "complete_expired p now" "completeBlocks p"]
    by auto
  have kw: "filter (\<lambda>kb. fst kb \<notin> fst ` set ?CW) (walBlocks p)
              = filter (\<lambda>kb. kb \<notin> set ?CW) (walBlocks p)"
    by (rule filter_keys_entries [OF assms(3) sw])
  have kc: "filter (\<lambda>kb. fst kb \<notin> fst ` set ?CC) (completeBlocks p)
              = filter (\<lambda>kb. kb \<notin> set ?CC) (completeBlocks p)"
    by (rule filter_keys_entries [OF assms(4) sc])
  note ex = deleteOldBlocks_exact [of e now p, unfolded we ce]
  have r: "r = (case first_failure (wal_clear e) ?OW of
                  Some err \<Rightarrow> Some err
                | None \<Rightarrow> first_failure (complete_clear e) ?OC)"
    using assms(5) unfolding ex by (auto split: option.splits)
  have w: "walBlocks p' = filter (\<lambda>kb. kb \<notin> set ?CW) (walBlocks p)"
  proof (cases "first_failure (wal_clear e) ?OW")
    case (Some err)
    with assms(5) show ?thesis unfolding ex by (auto simp: kw)
  next
    case None
    from all_cleared [OF None] have "?CW = ?OW" by simp
    with None assms(5) kw show ?thesis unfolding ex by auto
  qed
  have c: "completeBlocks p' =
           (if first_failure (wal_clear e) ?OW = None
            then filter (\<lambda>kb. kb \<notin> set ?CC) (completeBlocks p)
            else completeBlocks p)"
    using assms(5) unfolding ex by (auto simp: kc split: option.splits)
  have cl: "calls p' = calls p
           @ map (\<lambda>kb. Call_Clear (BlockID (BlockMeta (snd kb)))) (attempted (wal_clear e) ?OW)
           @ (if first_failure (wal_clear e) ?OW = None
              then map (\<lambda>kb. Call_ClearBlock (fst kb)) (attempted (complete_clear e) ?OC)
              else [])"
  proof (cases "first_failure (wal_clear e) ?OW")
    case (Some err)
    with assms(5) show ?thesis unfolding ex by auto
  next
    case None
    from all_cleared [OF None] have "attempted (wal_clear e) ?OW = ?OW" by simp
    with None assms(5) show ?thesis unfolding ex by auto
  qed
  have fr: "p' = p\<lparr>calls := calls p', walBlocks := walBlocks p',
                completeBlocks := completeBlocks p'\<rparr>"
    using assms(5) unfolding ex by (auto split: option.splits)
  have ok: "r = None \<longleftrightarrow>
            (\<forall>kb \<in> set (walBlocks p). wal_expired p now kb \<longrightarrow>
               Clear_err e (BlockID (BlockMeta (snd kb))) = None) \<and>
            (\<forall>kb \<in> set (completeBlocks p). complete_expired p now kb \<longrightarrow>
               ClearBlock_err e (fst kb) = None)"
    unfolding r
    by (cases "first_failure (wal_clear e) ?OW")
       (use first_failure_None_iff [of "wal_clear e" ?OW]
          first_failure_None_iff [of "complete_clear e" ?OC]
        in \<open>auto simp: wal_clear_def complete_clear_def\<close>)
  have succ: "r = None \<longrightarrow>
            walBlocks p' = filter (\<lambda>kb. \<not> wal_expired p now kb) (walBlocks p) \<and>
            completeBlocks p' = filter (\<lambda>kb. \<not> complete_expired p now kb) (completeBlocks p) \<and>
            calls p' = calls p
              @ map (\<lambda>kb. Call_Clear (BlockID (BlockMeta (snd kb)))) ?OW
              @ map (\<lambda>kb. Call_ClearBlock (fst kb)) ?OC"
  proof
    assume "r = None"
    with r have n1: "first_failure (wal_clear e) ?OW = None"
      and n2: "first_failure (complete_clear e) ?OC = None"
      by (auto split: option.splits)
    from all_cleared [OF n1] all_cleared [OF n2]
    have e1: "?CW = ?OW" "attempted (wal_clear e) ?OW = ?OW"
      and e2: "?CC = ?OC" "attempted (complete_clear e) ?OC = ?OC"
      by simp_all
    have "walBlocks p' = filter (\<lambda>kb. \<not> wal_expired p now kb) (walBlocks p)"
      unfolding w e1 by (rule filter_cong [OF refl]) simp
    moreover have "completeBlocks p'
        = filter (\<lambda>kb. \<not> complete_expired p now kb) (completeBlocks p)"
      unfolding c e2 using n1 by (auto intro: filter_cong)
    moreover have "calls p' = calls p
              @ map (\<lambda>kb. Call_Clear (BlockID (BlockMeta (snd kb)))) ?OW
              @ map (\<lambda>kb. Call_ClearBlock (fst kb)) ?OC"
      unfolding cl e1 e2 using n1 by simp
    ultimately show "walBlocks p' = filter (\<lambda>kb. \<not> wal_expired p now kb) (walBlocks p) \<and>
            completeBlocks p' = filter (\<lambda>kb. \<not> complete_expired p now kb) (completeBlocks p) \<and>
            calls p' = calls p
              @ map (\<lambda>kb. Call_Clear (BlockID (BlockMeta (snd kb)))) ?OW
              @ map (\<lambda>kb. Call_ClearBlock (fst kb)) ?OC"
      by (intro conjI)
  qed
  have k1: "filter (\<lambda>kb. \<not> wal_expired p now kb) (walBlocks p')
           = filter (\<lambda>kb. \<not> wal_expired p now kb) (walBlocks p)"
    unfolding w using set_cleared [of "wal_clear e" "wal_expired p now" "walBlocks p"]
    by (auto intro: filter_cong)
  have k2: "filter (\<lambda>kb. \<not> complete_expired p now kb) (completeBlocks p')
           = filter (\<lambda>kb. \<not> complete_expired p now kb) (completeBlocks p)"
    unfolding c
    using set_cleared [of "complete_clear e" "complete_expired p now" "completeBlocks p"]
    by (auto intro: filter_cong)
  show ?thesis by (intro conjI r w c cl fr ok succ k1 k2)
qed

theorem C4_deleteOldBlocks_witness:
  "- (2 ^ 63) < CompleteBlockTimeout (Cfg ex_proc_old3) \<and>
   CompleteBlockTimeout (Cfg ex_proc_old3) < 2 ^ 63 \<and>
   distinct (map fst (walBlocks ex_proc_old3)) \<and>
   distinct (map fst (completeBlocks ex_proc_old3)) \<and>
   fst (deleteOldBlocks ex_collab 10000000000000 ex_proc_old3) = None \<and>
   walBlocks (snd (deleteOldBlocks ex_collab 10000000000000 ex_proc_old3))
     = [(6, ex_block 6 9000000000000)] \<and>
   completeBlocks (snd (deleteOldBlocks ex_collab 10000000000000 ex_proc_old3)) = [] \<and>
   calls (snd (deleteOldBlocks ex_collab 10000000000000 ex_proc_old3))
     = [Call_Clear 1, Call_Clear 3, Call_Clear 4, Call_ClearBlock 5] \<and>
   fst (deleteOldBlocks ex_clear3_fails 10000000000000 ex_proc_old3) = Some ex_disk_full \<and>
   walBlocks (snd (deleteOldBlocks ex_clear3_fails 10000000000000 ex_proc_old3))
     = [(3, ex_block 3 6000000000), (4, ex_block 4 7000000000),
        (6, ex_block 6 9000000000000)] \<and>
   completeBlocks (snd (deleteOldBlocks ex_clear3_fails 10000000000000 ex_proc_old3))
     = [(5, BackendBlock (BlockMeta (ex_block 5 5000000000)))] \<and>
   calls (snd (deleteOldBlocks ex_clear3_fails 10000000000000 ex_proc_old3))
     = [Call_Clear 1, Call_Clear 3]"
proof -
  let ?X = "deleteOldBlocks ex_collab 10000000000000 ex_proc_old3"
  let ?Y = "deleteOldBlocks ex_clear3_fails 10000000000000 ex_proc_old3"
  have r1: "- (2 ^ 63) < CompleteBlockTimeout (Cfg ex_proc_old3)"
    and r2: "CompleteBlockTimeout (Cfg ex_proc_old3) < 2 ^ 63"
    by (simp_all add: ex_proc_old3_def ex_cfg_def)
  have d1: "distinct (map fst (walBlocks ex_proc_old3))"
    and d2: "distinct (map fst (completeBlocks ex_proc_old3))"
    by (simp_all add: ex_proc_old3_def)
  have x: "?X = (fst ?X, snd ?X)" and y: "?Y = (fst ?Y, snd ?Y)" by simp_all
  have wb: "walBlocks ex_proc_old3 = [(1, ex_block 1 5000000000), (3, ex_block 3 6000000000),
                  (4, ex_block 4 7000000000), (6, ex_block 6 9000000000000)]"
    and cb: "completeBlocks ex_proc_old3 = [(5, BackendBlock (BlockMeta (ex_block 5 5000000000)))]"
    and c0: "calls ex_proc_old3 = []"
    by (simp_all add: ex_proc_old3_def)
  have wc: "filter (wal_expired ex_proc_old3 10000000000000) (walBlocks ex_proc_old3)
             = [(1, ex_block 1 5000000000), (3, ex_block 3 6000000000),
                (4, ex_block 4 7000000000)]"
    by (simp add: ex_proc_old3_def wal_expired_def expired_def ex_block_def ex_cfg_def)
  have cc: "filter (complete_expired ex_proc_old3 10000000000000) (completeBlocks ex_proc_old3)
             = [(5, BackendBlock (BlockMeta (ex_block 5 5000000000)))]"
    by (simp add: ex_proc_old3_def complete_expired_def expired_def ex_block_def ex_cfg_def)
  have ids: "BlockID (BlockMeta (ex_block 1 5000000000)) = 1"
    "BlockID (BlockMeta (ex_block 3 6000000000)) = 3"
    "BlockID (BlockMeta (ex_block 4 7000000000)) = 4"
    by (simp_all add: ex_block_def)
  have ne: "ex_block 1 5000000000 \<noteq> ex_block 3 6000000000"
    "ex_block 1 5000000000 \<noteq> ex_block 4 7000000000"
    "ex_block 1 5000000000 \<noteq> ex_block 6 9000000000000"
    by (simp_all add: ex_block_def)
  have okw: "wal_clear ex_collab kb = None" "complete_clear ex_collab kc = None" for kb kc
    by (simp_all add: wal_clear_def complete_clear_def ex_collab_def)
  have f1: "wal_clear ex_clear3_fails (1, ex_block 1 5000000000) = None"
    and f3: "wal_clear ex_clear3_fails (3, ex_block 3 6000000000) = Some ex_disk_full"
    by (simp_all add: wal_clear_def ex_clear3_fails_def ex_block_def)
  have fa: "first_failure (wal_clear ex_collab) xs = None"
    "cleared (wal_clear ex_collab) xs = xs" "attempted (wal_clear ex_collab) xs = xs" for xs
    using all_cleared [of "wal_clear ex_collab" xs]
    by (simp_all add: first_failure_None_iff okw)
  have fb: "first_failure (complete_clear ex_collab) ys = None"
    "cleared (complete_clear ex_collab) ys = ys" "attempted (complete_clear ex_collab) ys = ys" for ys
    using all_cleared [of "complete_clear ex_collab" ys]
    by (simp_all add: first_failure_None_iff okw)
  have g: "first_failure (wal_clear ex_clear3_fails)
             [(1, ex_block 1 5000000000), (3, ex_block 3 6000000000),
              (4, ex_block 4 7000000000)] = Some ex_disk_full"
    "cleared (wal_clear ex_clear3_fails)
             [(1, ex_block 1 5000000000), (3, ex_block 3 6000000000),
              (4, ex_block 4 7000000000)] = [(1, ex_block 1 5000000000)]"
    "attempted (wal_clear ex_clear3_fails)
             [(1, ex_block 1 5000000000), (3, ex_block 3 6000000000),
              (4, ex_block 4 7000000000)]
       = [(1, ex_block 1 5000000000), (3, ex_block 3 6000000000)]"
    using f1 f3 by (simp_all add: first_failure_simps cleared_simps attempted_simps)
  from C4_deleteOldBlocks [OF r1 r2 d1 d2 x]
  have a: "fst ?X = None \<and> walBlocks (snd ?X) = [(6, ex_block 6 9000000000000)] \<and>
        completeBlocks (snd ?X) = [] \<and>
        calls (snd ?X) = [Call_Clear 1, Call_Clear 3, Call_Clear 4, Call_ClearBlock 5]"
    unfolding wc cc fa fb unfolding wb cb c0 by (simp add: ids)
  from C4_deleteOldBlocks [OF r1 r2 d1 d2 y]
  have b: "fst ?Y = Some ex_disk_full \<and>
        walBlocks (snd ?Y) = [(3, ex_block 3 6000000000), (4, ex_block 4 7000000000),
            (6, ex_block 6 9000000000000)] \<and>
        completeBlocks (snd ?Y) = [(5, BackendBlock (BlockMeta (ex_block 5 5000000000)))] \<and>
        calls (snd ?Y) = [Call_Clear 1, Call_Clear 3]"
    unfolding wc cc g unfolding wb cb c0 by (simp add: ids ne)
  from r1 r2 d1 d2 a b show ?thesis by (intro conjI) simp_all
qed

text \<open>The claim as stated fails when a storage clear fails: the expired write-ahead block
  and the expired complete block both stay. It fails also when \<open>CompleteBlockTimeout\<close> is
  the least duration, whose negation is itself: every storage clear succeeds, the two
  blocks are older than \<open>now - CompleteBlockTimeout\<close>, and nothing is removed.\<close>

theorem C4_counterexample:
  "wal_expired ex_proc_old 10000000000000 (1, ex_block 1 5000000000) \<and>
   complete_expired ex_proc_old 10000000000000
     (5, BackendBlock (BlockMeta (ex_block 5 5000000000))) \<and>
   fst (deleteOldBlocks ex_clear_fails 10000000000000 ex_proc_old) = Some ex_disk_full \<and>
   walBlocks (snd (deleteOldBlocks ex_clear_fails 10000000000000 ex_proc_old))
     = [(1, ex_block 1 5000000000), (3, ex_block 3 9000000000000)] \<and>
   completeBlocks (snd (deleteOldBlocks ex_clear_fails 10000000000000 ex_proc_old))
     = [(5, BackendBlock (BlockMeta (ex_block 5 5000000000)))] \<and>
   wal_expired ex_proc_min 10000000000000 (1, ex_block 1 5000000000) \<and>
   complete_expired ex_proc_min 10000000000000
     (5, BackendBlock (BlockMeta (ex_block 5 5000000000))) \<and>
   deleteOldBlocks ex_collab 10000000000000 ex_proc_min = (None, ex_proc_min)"
  by (simp add: deleteOldBlocks_def ex_proc_old_def ex_clear_fails_def ex_collab_def
      wal_expired_def complete_expired_def expired_def ex_block_def ex_cfg_def
      ex_proc_min_def time_Add_def neg_duration_def wrap64_def)

section \<open>Results: recovery\<close>

lemma reload_wal_frame:
  "reload_wal blks p = p\<lparr>walBlocks := walBlocks (reload_wal blks p)\<rparr>"
proof -
  have "\<And>q. fold (\<lambda>blk q. if TenantID (BlockMeta blk) = tenant q
                   then q\<lparr>walBlocks := AList.update (BlockID (BlockMeta blk)) blk (walBlocks q)\<rparr>
                   else q) blks q
          = q\<lparr>walBlocks := walBlocks (fold (\<lambda>blk q. if TenantID (BlockMeta blk) = tenant q
                   then q\<lparr>walBlocks := AList.update (BlockID (BlockMeta blk)) blk (walBlocks q)\<rparr>
                   else q) blks q)\<rparr>"
  proof (induction blks)
    case Nil
    show ?case by simp
  next
    case (Cons blk blks)
    show ?case
      by (subst (1 2) fold_simps) (use Cons [of "if TenantID (BlockMeta blk) = tenant q
                   then q\<lparr>walBlocks := AList.update (BlockID (BlockMeta blk)) blk (walBlocks q)\<rparr>
                   else q"] in \<open>auto split: if_splits\<close>)
  qed
  then show ?thesis by (simp add: reload_wal_def)
qed

lemma keys_update: "fst ` set (AList.update k v al) = insert k (fst ` set al)"
  by (induction al) auto

lemma reload_complete_tenant:
  "reload_complete e ids p ob = (r, p', ob') \<Longrightarrow> tenant p' = tenant p"
  by (induction ids arbitrary: p ob)
     (auto simp: Let_def split: sum.splits if_splits option.splits)

lemma reload_complete_obs:
  "reload_complete e ids p ob = (r, p', ob') \<Longrightarrow> ob' = ob\<lparr>logs := logs ob'\<rparr>"
proof (induction ids arbitrary: p ob)
  case Nil
  then show ?case by simp
next
  case (Cons i ids)
  show ?case
  proof (cases "ReadBlockMeta e i (tenant p)")
    case (Inl err)
    show ?thesis
    proof (cases "err = ErrDoesNotExist")
      case False
      with Cons.prems Inl show ?thesis by simp
    next
      case True
      show ?thesis
      proof (cases "ClearBlock_err e i")
        case None
        with Cons.prems Inl True
        have "reload_complete e ids (p\<lparr>calls := calls p @ [Call_ClearBlock i]\<rparr>) ob = (r, p', ob')"
          by (simp add: Let_def)
        from Cons.IH [OF this] show ?thesis .
      next
        case (Some err')
        with Cons.prems Inl True
        have "reload_complete e ids (p\<lparr>calls := calls p @ [Call_ClearBlock i]\<rparr>)
                (ob\<lparr>logs := logs ob @
          [(''local blocks processor failed to clear partially written block during replay'', err')]\<rparr>)
              = (r, p', ob')"
          by (simp add: Let_def)
        from Cons.IH [OF this] show ?thesis by simp
      qed
    qed
  next
    case (Inr meta)
    show ?thesis
    proof (cases "OpenBlock e meta")
      case (Inl err)
      with Cons.prems Inr show ?thesis by (simp add: Let_def)
    next
      case (Inr blk)
      with Cons.prems \<open>ReadBlockMeta e i (tenant p) = Inr meta\<close>
      have "reload_complete e ids
              (p\<lparr>calls := calls p @ [Call_OpenBlock (BlockID meta)],
                 completeBlocks := AList.update i blk (completeBlocks p)\<rparr>) ob = (r, p', ob')"
        by (simp add: Let_def)
      from Cons.IH [OF this] show ?thesis .
    qed
  qed
qed

lemma reload_complete_ok_iff:
  "fst (reload_complete e ids p ob) = None \<longleftrightarrow> list_all (block_recovers e (tenant p)) ids"
  by (induction ids arbitrary: p ob)
     (auto simp: Let_def block_recovers_def split: sum.splits if_splits option.splits)

lemma reload_complete_success:
  "reload_complete e ids p ob = (None, p', ob') \<Longrightarrow>
     logs ob' = logs ob @ clear_failure_logs e (partial_blocks e (tenant p) ids) \<and>
     Call_ClearBlock ` set (partial_blocks e (tenant p) ids) \<subseteq> set (calls p') \<and>
     set (calls p) \<subseteq> set (calls p') \<and>
     fst ` set (completeBlocks p') \<subseteq>
       fst ` set (completeBlocks p) \<union> {i \<in> set ids. \<exists>meta. ReadBlockMeta e i (tenant p) = Inr meta} \<and>
     walBlocks p' = walBlocks p \<and> headBlock p' = headBlock p"
proof (induction ids arbitrary: p ob)
  case Nil
  then show ?case by (simp add: partial_blocks_def clear_failure_logs_def)
next
  case (Cons i ids)
  show ?case
  proof (cases "ReadBlockMeta e i (tenant p)")
    case (Inl err)
    with Cons.prems have err: "err = ErrDoesNotExist" by (auto split: if_splits)
    let ?p1 = "p\<lparr>calls := calls p @ [Call_ClearBlock i]\<rparr>"
    show ?thesis
    proof (cases "ClearBlock_err e i")
      case None
      with Cons.prems Inl err have "reload_complete e ids ?p1 ob = (None, p', ob')"
        by (simp add: Let_def)
      from Cons.IH [OF this] Inl err None show ?thesis
        by (auto simp: partial_blocks_def clear_failure_logs_def)
    next
      case (Some err')
      let ?ob1 = "ob\<lparr>logs := logs ob @
          [(''local blocks processor failed to clear partially written block during replay'', err')]\<rparr>"
      from Cons.prems Inl err Some have "reload_complete e ids ?p1 ?ob1 = (None, p', ob')"
        by (simp add: Let_def)
      from Cons.IH [OF this] Inl err Some show ?thesis
        by (auto simp: partial_blocks_def clear_failure_logs_def)
    qed
  next
    case (Inr meta)
    with Cons.prems obtain blk where blk: "OpenBlock e meta = Inr blk"
      by (auto simp: Let_def split: sum.splits)
    let ?p1 = "p\<lparr>calls := calls p @ [Call_OpenBlock (BlockID meta)],
                 completeBlocks := AList.update i blk (completeBlocks p)\<rparr>"
    from Cons.prems Inr blk have "reload_complete e ids ?p1 ob = (None, p', ob')"
      by (simp add: Let_def)
    from Cons.IH [OF this] have ih:
      "logs ob' = logs ob @ clear_failure_logs e (partial_blocks e (tenant p) ids)"
      "Call_ClearBlock ` set (partial_blocks e (tenant p) ids) \<subseteq> set (calls p')"
      "set (calls p) \<subseteq> set (calls p')"
      "fst ` set (completeBlocks p') \<subseteq>
         insert i (fst ` set (completeBlocks p)) \<union>
           {i \<in> set ids. \<exists>meta. ReadBlockMeta e i (tenant p) = Inr meta}"
      "walBlocks p' = walBlocks p" "headBlock p' = headBlock p"
      by (simp_all add: keys_update)
    have pb: "partial_blocks e (tenant p) (i # ids) = partial_blocks e (tenant p) ids"
      using Inr by (simp add: partial_blocks_def)
    have "fst ` set (completeBlocks p') \<subseteq>
       fst ` set (completeBlocks p) \<union>
         {j \<in> set (i # ids). \<exists>meta. ReadBlockMeta e j (tenant p) = Inr meta}"
      using ih(4) Inr by auto
    with ih pb show ?thesis by simp
  qed
qed


lemma reload_wal_fields:
  "tenant (reload_wal blks p) = tenant p" "completeBlocks (reload_wal blks p) = completeBlocks p"
  "calls (reload_wal blks p) = calls p" "headBlock (reload_wal blks p) = headBlock p"
  by (subst reload_wal_frame, simp)+

lemma reloadBlocks_ok_iff:
  "fst (reloadBlocks e p ob) = None \<longleftrightarrow> recovery_ok e (tenant p)"
  using reload_complete_ok_iff [of e _ "reload_wal _ p" ob]
  by (auto simp: reloadBlocks_def recovery_ok_def Let_def reload_wal_fields split: sum.splits)

text \<open>Claim C5, as amended. Construction with a WAL succeeds exactly when the WAL rescan,
  the tenant listing and, unless no tenant exists yet, the block listing succeed and every
  listed block either has no metadata (not found) or has metadata and opens; every other
  failure makes \<open>New\<close> return the wrapped error and no processor. After a successful
  construction that listed blocks, each block whose metadata was not found has had
  \<open>ClearBlock\<close> called on it and is not registered as complete. A failure of that
  remediation deletion is not fatal: it does not enter the condition for success, and it
  leaves exactly one log record.\<close>

theorem C5_recovery:
  assumes "New e cfg t False ob = (res, ob')"
  shows "((\<exists>p. res = Inr p) \<longleftrightarrow> recovery_ok e t) \<and>
         (\<not> recovery_ok e t \<longrightarrow> (\<exists>err. res = Inl (ErrWrap ''replaying blocks'' err))) \<and>
         (\<forall>p ids. res = Inr p \<and> Tenants e \<noteq> Inr [] \<and> Blocks e t = Inr ids \<longrightarrow>
            (\<forall>i \<in> set (partial_blocks e t ids).
                Call_ClearBlock i \<in> set (calls p) \<and> map_of (completeBlocks p) i = None) \<and>
            logs ob' = logs ob @ clear_failure_logs e (partial_blocks e t ids))"
proof -
  let ?p0 = "\<lparr>tenant = t, Cfg = cfg, headBlock = None, walBlocks = [],
                  completeBlocks = [], lastCutTime = time_zero, liveTraces = [], calls = []\<rparr>"
  obtain r p1 ob1 where rb: "reloadBlocks e ?p0 ob = (r, p1, ob1)"
    by (cases "reloadBlocks e ?p0 ob") auto
  have ok: "r = None \<longleftrightarrow> recovery_ok e t"
    using reloadBlocks_ok_iff [of e ?p0 ob] rb by simp
  have res: "res = (case r of Some err \<Rightarrow> Inl (ErrWrap ''replaying blocks'' err) | None \<Rightarrow> Inr p1)"
    and ob': "ob' = ob1"
    using assms rb by (auto simp: New_def split: option.splits)
  have a: "(\<exists>p. res = Inr p) \<longleftrightarrow> recovery_ok e t"
    using res ok by (cases r) auto
  have b: "\<not> recovery_ok e t \<longrightarrow> (\<exists>err. res = Inl (ErrWrap ''replaying blocks'' err))"
    using res ok by (cases r) auto
  have c: "(\<forall>i \<in> set (partial_blocks e t ids).
                Call_ClearBlock i \<in> set (calls p) \<and> map_of (completeBlocks p) i = None) \<and>
            logs ob' = logs ob @ clear_failure_logs e (partial_blocks e t ids)"
    if h: "res = Inr p" "Tenants e \<noteq> Inr []" "Blocks e t = Inr ids" for p ids
  proof -
    from h(1) res have r: "r = None" and p: "p = p1" by (cases r; simp)+
    from rb r obtain blks where blks: "RescanBlocks e = Inr blks"
      by (auto simp: reloadBlocks_def split: sum.splits)
    from rb r blks obtain ts where ts: "Tenants e = Inr ts"
      by (auto simp: reloadBlocks_def Let_def split: sum.splits)
    with h(2) have ne: "ts \<noteq> []" by simp
    from rb r blks ts ne h(3)
    have rc: "reload_complete e ids (reload_wal blks ?p0) ob = (None, p1, ob1)"
      by (simp add: reloadBlocks_def Let_def reload_wal_fields)
    from reload_complete_success [OF rc]
    have l: "logs ob1 = logs ob @ clear_failure_logs e (partial_blocks e t ids)"
      and cl: "Call_ClearBlock ` set (partial_blocks e t ids) \<subseteq> set (calls p1)"
      and reg: "fst ` set (completeBlocks p1) \<subseteq>
                  {i \<in> set ids. \<exists>meta. ReadBlockMeta e i t = Inr meta}"
      by (simp_all add: reload_wal_fields)
    have "map_of (completeBlocks p1) i = None" if "i \<in> set (partial_blocks e t ids)" for i
    proof -
      from that have "ReadBlockMeta e i t = Inl ErrDoesNotExist"
        by (simp add: partial_blocks_def)
      with reg have "i \<notin> fst ` set (completeBlocks p1)" by auto
      then show ?thesis by (simp add: map_of_eq_None_iff)
    qed
    with l cl p ob' show ?thesis by auto
  qed
  show ?thesis
  proof (intro conjI allI impI)
    show "(\<exists>p. res = Inr p) \<longleftrightarrow> recovery_ok e t" by (rule a)
    show "\<not> recovery_ok e t \<Longrightarrow> \<exists>err. res = Inl (ErrWrap ''replaying blocks'' err)"
      using b by simp
    show "\<forall>i \<in> set (partial_blocks e t ids).
                Call_ClearBlock i \<in> set (calls p) \<and> map_of (completeBlocks p) i = None"
      if "res = Inr p \<and> Tenants e \<noteq> Inr [] \<and> Blocks e t = Inr ids" for p ids
      using c [of p ids] that by blast
    show "logs ob' = logs ob @ clear_failure_logs e (partial_blocks e t ids)"
      if "res = Inr p \<and> Tenants e \<noteq> Inr [] \<and> Blocks e t = Inr ids" for p ids
      using c [of p ids] that by blast
  qed
qed

theorem C5_recovery_witness:
  "recovery_ok ex_partial ''t'' \<and>
   Tenants ex_partial \<noteq> Inr [] \<and> Blocks ex_partial ''t'' = Inr [9] \<and>
   partial_blocks ex_partial ''t'' [9] = [9] \<and>
   (\<exists>p. fst (New ex_partial ex_cfg ''t'' False ex_obs) = Inr p \<and>
        Call_ClearBlock 9 \<in> set (calls p) \<and> map_of (completeBlocks p) 9 = None) \<and>
   logs (snd (New ex_partial ex_cfg ''t'' False ex_obs))
     = [(''local blocks processor failed to clear partially written block during replay'',
         ex_disk_full)]"
proof -
  let ?X = "New ex_partial ex_cfg ''t'' False ex_obs"
  have x: "?X = (fst ?X, snd ?X)" by simp
  have ok: "recovery_ok ex_partial ''t''"
    by (simp add: recovery_ok_def block_recovers_def ex_partial_def ex_collab_def)
  have t: "Tenants ex_partial \<noteq> Inr []" and b: "Blocks ex_partial ''t'' = Inr [9]"
    and pb: "partial_blocks ex_partial ''t'' [9] = [9]"
    and cl: "clear_failure_logs ex_partial [9]
        = [(''local blocks processor failed to clear partially written block during replay'',
         ex_disk_full)]"
    and l0: "logs ex_obs = []"
    by (simp_all add: ex_partial_def ex_collab_def partial_blocks_def clear_failure_logs_def
        ex_obs_def)
  from C5_recovery [OF x] ok obtain p where p: "fst ?X = Inr p" by blast
  from C5_recovery [OF x] p t b
  have "(\<forall>i \<in> set (partial_blocks ex_partial ''t'' [9]).
                Call_ClearBlock i \<in> set (calls p) \<and> map_of (completeBlocks p) i = None) \<and>
        logs (snd ?X) = logs ex_obs @ clear_failure_logs ex_partial (partial_blocks ex_partial ''t'' [9])"
    by blast
  with p ok t b pb cl l0 show ?thesis by simp
qed

text \<open>The claim as stated fails where the remediation deletion fails: the backend lists
  block 9 without metadata, deleting it fails, and construction still returns a
  processor, with one log record.\<close>

theorem C5_counterexample:
  "ReadBlockMeta ex_partial 9 ''t'' = Inl ErrDoesNotExist \<and>
   ClearBlock_err ex_partial 9 = Some ex_disk_full \<and>
   New ex_partial ex_cfg ''t'' False ex_obs =
     (Inr \<lparr>tenant = ''t'', Cfg = ex_cfg, headBlock = None, walBlocks = [],
           completeBlocks = [], lastCutTime = time_zero, liveTraces = [],
           calls = [Call_ClearBlock 9]\<rparr>,
      ex_obs\<lparr>logs :=
        [(''local blocks processor failed to clear partially written block during replay'',
          ex_disk_full)]\<rparr>)"
  by (simp add: New_def reloadBlocks_def reload_wal_def ex_partial_def ex_collab_def ex_obs_def)

section \<open>Results: ingestion\<close>

lemma length_update: "length al \<le> length (AList.update k v al)"
  by (induction al) auto

lemma liveTraces_Push_length:
  "length lt \<le> length (snd (liveTraces_Push k now batch maxLive lt))"
  by (simp add: liveTraces_Push_def length_update split: option.splits)

lemma push_batch_length:
  "length (liveTraces (fst s)) \<le> length (liveTraces (fst (push_batch h key now batch s)))"
proof (cases s)
  case (Pair p ob)
  show ?thesis
  proof (cases "filterBatch h batch")
    case None
    with Pair show ?thesis by (simp add: push_batch_def)
  next
    case (Some b)
    with Pair liveTraces_Push_length [of "liveTraces p" "key b" now b "MaxLiveTraces (Cfg p)"]
    show ?thesis by (auto simp: push_batch_def split: prod.splits)
  qed
qed

lemma fold_push_batch_length:
  "length (liveTraces (fst s)) \<le> length (liveTraces (fst (fold (push_batch h key now) batches s)))"
proof (induction batches arbitrary: s)
  case Nil
  show ?case by simp
next
  case (Cons b batches)
  from push_batch_length [of s h key now b] Cons [of "push_batch h key now b s"]
  show ?case by simp
qed

text \<open>Claim C3. A batch that passes the filter and whose trace identifier is not in the
  buffer, pushed while the buffer holds \<open>MaxLiveTraces\<close> (or more) identifiers, leaves the
  processor, and so the buffer and its size, unchanged and adds exactly 1 to the
  dropped-trace counter; \<open>PushSpans\<close> returns no error (it returns the state only) and adds
  0 to the total-trace counter. A batch whose identifier is present is appended to that
  entry, whose timestamp is refreshed, and nothing is dropped. For every request, the
  total-trace counter grows by the buffer size after minus the size before, and the size
  after is at least the size before.\<close>

theorem C3_PushSpans:
  "(\<forall>b. filterBatch h batch = Some b \<and> map_of (liveTraces p) (key b) = None \<and>
        MaxLiveTraces (Cfg p) \<le> length (liveTraces p) \<longrightarrow>
        push_batch h key now batch (p, ob)
          = (p, ob\<lparr>metricDroppedTraces := metricDroppedTraces ob + 1\<rparr>) \<and>
        PushSpans h key now [batch] (p, ob)
          = (p, ob\<lparr>metricDroppedTraces := metricDroppedTraces ob + 1,
                    metricTotalTraces := metricTotalTraces ob + 0\<rparr>)) \<and>
   (\<forall>b tr. filterBatch h batch = Some b \<and> map_of (liveTraces p) (key b) = Some tr \<longrightarrow>
        push_batch h key now batch (p, ob)
          = (p\<lparr>liveTraces :=
                 AList.update (key b) (tr\<lparr>Batches := Batches tr @ [b], timestamp := now\<rparr>)
                   (liveTraces p)\<rparr>, ob) \<and>
        length (liveTraces (fst (push_batch h key now batch (p, ob)))) = length (liveTraces p)) \<and>
   metricTotalTraces (snd (PushSpans h key now batches (p, ob)))
     = metricTotalTraces ob
       + (int (length (liveTraces (fst (PushSpans h key now batches (p, ob)))))
          - int (length (liveTraces p))) \<and>
   metricTotalTraces ob \<le> metricTotalTraces (snd (PushSpans h key now batches (p, ob))) \<and>
   length (liveTraces p) \<le> length (liveTraces (fst (PushSpans h key now batches (p, ob))))"
proof -
  have full: "push_batch h key now batch (p, ob)
          = (p, ob\<lparr>metricDroppedTraces := metricDroppedTraces ob + 1\<rparr>)"
    if "filterBatch h batch = Some b" "map_of (liveTraces p) (key b) = None"
       "MaxLiveTraces (Cfg p) \<le> length (liveTraces p)" for b
    using that by (simp add: push_batch_def liveTraces_Push_def liveTraces_Len_def)
  have full2: "PushSpans h key now [batch] (p, ob)
          = (p, ob\<lparr>metricDroppedTraces := metricDroppedTraces ob + 1,
                    metricTotalTraces := metricTotalTraces ob + 0\<rparr>)"
    if "filterBatch h batch = Some b" "map_of (liveTraces p) (key b) = None"
       "MaxLiveTraces (Cfg p) \<le> length (liveTraces p)" for b
    using full [OF that] by (simp add: PushSpans_def liveTraces_Len_def)
  have present: "push_batch h key now batch (p, ob)
          = (p\<lparr>liveTraces :=
                 AList.update (key b) (tr\<lparr>Batches := Batches tr @ [b], timestamp := now\<rparr>)
                   (liveTraces p)\<rparr>, ob)"
    if "filterBatch h batch = Some b" "map_of (liveTraces p) (key b) = Some tr" for b tr
    using that by (simp add: push_batch_def liveTraces_Push_def)
  have same: "length (AList.update k v al) = length al" if "map_of al k = Some w" for k v w
    and al :: "(bytes \<times> live_trace) list"
    using that by (induction al) (auto split: if_splits)
  have total: "metricTotalTraces (snd (PushSpans h key now batches (p, ob)))
     = metricTotalTraces ob
       + (int (length (liveTraces (fst (PushSpans h key now batches (p, ob)))))
          - int (length (liveTraces p)))"
  proof -
    have "metricTotalTraces (snd (fold (push_batch h key now) bs s)) = metricTotalTraces (snd s)"
      for bs s
    proof (induction bs arbitrary: s)
      case Nil
      show ?case by simp
    next
      case (Cons b bs)
      have "metricTotalTraces (snd (push_batch h key now b s)) = metricTotalTraces (snd s)"
        by (cases s) (simp add: push_batch_def split: option.splits prod.splits)
      with Cons [of "push_batch h key now b s"] show ?case by simp
    qed
    from this [of batches "(p, ob)"] show ?thesis
      by (simp add: PushSpans_def Let_def liveTraces_Len_def)
  qed
  have mono: "length (liveTraces p) \<le> length (liveTraces (fst (PushSpans h key now batches (p, ob))))"
    using fold_push_batch_length [of "(p, ob)" h key now batches]
    by (simp add: PushSpans_def Let_def)
  show ?thesis
  proof (intro conjI allI impI)
    fix b
    assume a: "filterBatch h batch = Some b \<and> map_of (liveTraces p) (key b) = None \<and>
        MaxLiveTraces (Cfg p) \<le> length (liveTraces p)"
    then show "push_batch h key now batch (p, ob)
          = (p, ob\<lparr>metricDroppedTraces := metricDroppedTraces ob + 1\<rparr>)"
      using full [of b] by blast
    from a show "PushSpans h key now [batch] (p, ob)
          = (p, ob\<lparr>metricDroppedTraces := metricDroppedTraces ob + 1,
                    metricTotalTraces := metricTotalTraces ob + 0\<rparr>)"
      using full2 [of b] by blast
  next
    fix b tr
    assume a: "filterBatch h batch = Some b \<and> map_of (liveTraces p) (key b) = Some tr"
    then show "push_batch h key now batch (p, ob)
          = (p\<lparr>liveTraces :=
                 AList.update (key b) (tr\<lparr>Batches := Batches tr @ [b], timestamp := now\<rparr>)
                   (liveTraces p)\<rparr>, ob)"
      using present [of b tr] by blast
    with a show "length (liveTraces (fst (push_batch h key now batch (p, ob))))
        = length (liveTraces p)"
      using same [of "liveTraces p" "key b" tr] by simp
  next
    show "metricTotalTraces (snd (PushSpans h key now batches (p, ob)))
     = metricTotalTraces ob
       + (int (length (liveTraces (fst (PushSpans h key now batches (p, ob)))))
          - int (length (liveTraces p)))"
      by (rule total)
    show "metricTotalTraces ob \<le> metricTotalTraces (snd (PushSpans h key now batches (p, ob)))"
      using total mono by simp
    show "length (liveTraces p) \<le> length (liveTraces (fst (PushSpans h key now batches (p, ob))))"
      by (rule mono)
  qed
qed

theorem C3_PushSpans_witness:
  "filterBatch ex_server_store (ex_span_batch 3) = Some (ex_span_batch 3) \<and>
   map_of (liveTraces ex_proc_full) (ex_key (ex_span_batch 3)) = None \<and>
   MaxLiveTraces (Cfg ex_proc_full) \<le> length (liveTraces ex_proc_full) \<and>
   PushSpans ex_server_store ex_key 3000 [ex_span_batch 3] (ex_proc_full, ex_obs)
     = (ex_proc_full, ex_obs\<lparr>metricDroppedTraces := 1, metricTotalTraces := 0\<rparr>) \<and>
   map_of (liveTraces ex_proc_full) (ex_key (ex_span_batch 1)) = Some (ex_trace 1 2000) \<and>
   length (liveTraces (fst (push_batch ex_server_store ex_key 3000 (ex_span_batch 1)
      (ex_proc_full, ex_obs)))) = 2"
proof -
  have f: "filterBatch ex_server_store (ex_span_batch a) = Some (ex_span_batch a)" for a
    by (simp add: filterBatch_def keepSS_loop_def keepSpans_loop_def ex_server_store_def
        ex_span_batch_def)
  have k3: "map_of (liveTraces ex_proc_full) (ex_key (ex_span_batch 3)) = None"
    and k1: "map_of (liveTraces ex_proc_full) (ex_key (ex_span_batch 1)) = Some (ex_trace 1 2000)"
    and m: "MaxLiveTraces (Cfg ex_proc_full) \<le> length (liveTraces ex_proc_full)"
    and l: "length (liveTraces ex_proc_full) = 2"
    by (simp_all add: ex_proc_full_def ex_key_def ex_span_batch_def ex_server_store_def
        ex_cfg_def)
  have o: "ex_obs\<lparr>metricDroppedTraces := metricDroppedTraces ex_obs + 1,
                    metricTotalTraces := metricTotalTraces ex_obs + 0\<rparr>
           = ex_obs\<lparr>metricDroppedTraces := 1, metricTotalTraces := 0\<rparr>"
    by (simp add: ex_obs_def)
  from C3_PushSpans [of ex_server_store "ex_span_batch 3" ex_proc_full ex_key 3000 ex_obs]
    f [of 3] k3 m
  have a: "PushSpans ex_server_store ex_key 3000 [ex_span_batch 3] (ex_proc_full, ex_obs)
     = (ex_proc_full, ex_obs\<lparr>metricDroppedTraces := 1, metricTotalTraces := 0\<rparr>)"
    unfolding o [symmetric] by blast
  from C3_PushSpans [of ex_server_store "ex_span_batch 1" ex_proc_full ex_key 3000 ex_obs]
    f [of 1] k1
  have b: "length (liveTraces (fst (push_batch ex_server_store ex_key 3000 (ex_span_batch 1)
      (ex_proc_full, ex_obs)))) = length (liveTraces ex_proc_full)"
    by blast
  from a b f [of 3] k3 k1 m l show ?thesis by simp
qed

section \<open>Results: sorting by trace identifier\<close>

lemma bytes_Compare_range: "bytes_Compare a b = - 1 \<or> bytes_Compare a b = 0 \<or> bytes_Compare a b = 1"
  by (induction a b rule: bytes_Compare.induct) auto

lemma bytes_Compare_flip: "bytes_Compare b a = - bytes_Compare a b"
  by (induction a b rule: bytes_Compare.induct) auto

lemma bytes_Compare_eq: "bytes_Compare a b = 0 \<longleftrightarrow> a = b"
  by (induction a b rule: bytes_Compare.induct) auto

lemma bytes_Compare_lexord:
  "bytes_Compare a b = - 1 \<longleftrightarrow> (a, b) \<in> lexord {(x, y). x < y}"
  by (induction a b rule: bytes_Compare.induct) auto

lemma bytes_le_trans: "bytes_le a b \<Longrightarrow> bytes_le b c \<Longrightarrow> bytes_le a c"
proof (induction a arbitrary: b c)
  case Nil
  then show ?case by (cases c) (simp_all add: bytes_le_def)
next
  case (Cons x xs)
  from Cons.prems(1) obtain y ys where b: "b = y # ys"
    by (cases b) (simp_all add: bytes_le_def)
  from Cons.prems(2) b obtain z zs where c: "c = z # zs"
    by (cases c) (simp_all add: bytes_le_def)
  from Cons.prems b c have xy: "x \<le> y" and yz: "y \<le> z"
    by (auto simp: bytes_le_def split: if_splits)
  show ?case
  proof (cases "x < z")
    case True
    then show ?thesis by (simp add: c bytes_le_def)
  next
    case False
    with xy yz have e: "x = y" "y = z" by auto
    with Cons.prems b c have "bytes_le xs ys" "bytes_le ys zs"
      by (simp_all add: bytes_le_def)
    from Cons.IH [OF this] e show ?thesis by (simp add: c bytes_le_def)
  qed
qed

lemma not_less_id: "\<not> less_id u t \<longleftrightarrow> bytes_le (tid t) (tid u)"
  using bytes_Compare_range [of "tid t" "tid u"] bytes_Compare_flip [of "tid t" "tid u"]
  by (auto simp: less_id_def bytes_le_def)

lemma less_id_le: "less_id t u \<Longrightarrow> bytes_le (tid t) (tid u)"
  by (simp add: less_id_def bytes_le_def)

lemma set_insert_Slice: "set (insert_Slice lessf x xs) = insert x (set xs)"
  by (induction xs) auto

lemma mset_insert_Slice: "mset (insert_Slice lessf x xs) = add_mset x (mset xs)"
  by (induction xs) auto

lemma mset_sort_Slice: "mset (sort_Slice lessf xs) = mset xs"
  by (induction xs) (simp_all add: sort_Slice_def mset_insert_Slice)

lemma sorted_insert_Slice:
  "sorted_wrt (\<lambda>t u. bytes_le (tid t) (tid u)) xs \<Longrightarrow>
   sorted_wrt (\<lambda>t u. bytes_le (tid t) (tid u)) (insert_Slice less_id x xs)"
proof (induction xs)
  case Nil
  show ?case by simp
next
  case (Cons y ys)
  show ?case
  proof (cases "less_id y x")
    case True
    with Cons show ?thesis
      by (auto simp: set_insert_Slice less_id_le)
  next
    case False
    then have "bytes_le (tid x) (tid y)" by (simp add: not_less_id)
    with Cons.prems False show ?thesis
      by (auto intro: bytes_le_trans)
  qed
qed

lemma sorted_sort_Slice:
  "sorted_wrt (\<lambda>t u. bytes_le (tid t) (tid u)) (sort_Slice less_id xs)"
  by (induction xs) (simp_all add: sort_Slice_def sorted_insert_Slice)

lemma sorted_mset_unique:
  assumes "\<And>a b. a \<in> set xs \<Longrightarrow> b \<in> set xs \<Longrightarrow> R a b \<Longrightarrow> R b a \<Longrightarrow> a = b"
    and "sorted_wrt R xs" and "sorted_wrt R ys" and "mset xs = mset ys"
  shows "xs = ys"
  using assms
proof (induction xs arbitrary: ys)
  case Nil
  then show ?case by simp
next
  case (Cons x xs)
  from Cons.prems(4) obtain y ys' where ys: "ys = y # ys'"
    by (cases ys) auto
  have "x = y"
  proof (rule ccontr)
    assume ne: "x \<noteq> y"
    from Cons.prems(4) ys have "x \<in> set (y # ys')" "y \<in> set (x # xs)"
      by (metis list.set_intros(1) set_mset_mset)+
    with ne have "x \<in> set ys'" "y \<in> set xs" by auto
    with Cons.prems(2,3) ys have "R y x" "R x y" by auto
    with Cons.prems(1) [of x y] \<open>y \<in> set xs\<close> ne show False by auto
  qed
  with Cons.prems ys have "xs = ys'"
    by (intro Cons.IH) auto
  with \<open>x = y\<close> ys show ?case by simp
qed

text \<open>Any sorted permutation of entries with pairwise distinct identifiers is the list
  \<open>sort_Slice\<close> returns, whatever the algorithm that produced it.\<close>

lemma sort_Slice_unique:
  assumes "inj_on tid (set xs)" and "mset ys = mset xs"
    and "sorted_wrt (\<lambda>t u. bytes_le (tid t) (tid u)) ys"
  shows "ys = sort_Slice less_id xs"
proof (rule sorted_mset_unique [where R = "\<lambda>t u. bytes_le (tid t) (tid u)"])
  fix a b assume "a \<in> set ys" "b \<in> set ys" "bytes_le (tid a) (tid b)" "bytes_le (tid b) (tid a)"
  moreover from assms(2) have "set ys = set xs" by (metis set_mset_mset)
  moreover have "bytes_Compare (tid a) (tid b) = 0"
    using calculation(3,4) bytes_Compare_flip [of "tid a" "tid b"] by (simp add: bytes_le_def)
  ultimately show "a = b" using assms(1) by (auto simp: bytes_Compare_eq dest: inj_onD)
qed (simp_all add: assms sorted_sort_Slice mset_sort_Slice)

section \<open>Results: cutting idle traces\<close>

lemma writeHeadBlock_head:
  assumes "headBlock p = Some hb"
  shows "writeHeadBlock e now i b p =
     (case Append_err e (BlockID (BlockMeta hb)) i of
        Some err \<Rightarrow> (Some err, p\<lparr>calls := calls p @ [Call_Append (BlockID (BlockMeta hb)) i]\<rparr>)
      | None \<Rightarrow>
          (None, p\<lparr>calls := calls p @ [Call_Append (BlockID (BlockMeta hb)) i],
                   headBlock := Some (wal_Append hb i b (unix_u32 now) (unix_u32 now))\<rparr>))"
  using assms by (simp add: writeHeadBlock_def Let_def split: option.splits)

lemma writeHeadBlock_nohead:
  assumes "headBlock p = None"
  shows "writeHeadBlock e now i b p =
     (case NewBlock_err e of
        Some err \<Rightarrow> (Some err, p\<lparr>calls := calls p @ [Call_NewBlock (uuid_New e)]\<rparr>)
      | None \<Rightarrow>
          writeHeadBlock e now i b
            (p\<lparr>calls := calls p @ [Call_NewBlock (uuid_New e)],
               headBlock := Some (head_or_new e p), lastCutTime := now\<rparr>))"
  using assms
  by (simp add: writeHeadBlock_def Let_def resetHeadBlock_def wal_NewBlock_def head_or_new_def
      split: option.splits)

lemma appended_ids_simps:
  "appended_ids [] = []"
  "appended_ids (cs @ ds) = appended_ids cs @ appended_ids ds"
  "appended_ids [Call_Append j k] = [k]"
  "appended_ids [Call_NewBlock j] = []"
  "appended_ids [Call_Flush j] = []"
  by (simp_all add: appended_ids_def)

lemma writeHeadBlock_calls:
  assumes "writeHeadBlock e now i b p = (r, p')"
  shows "\<exists>cs. calls p' = calls p @ cs \<and> (appended_ids cs = [] \<or> appended_ids cs = [i]) \<and>
              (r = None \<longrightarrow> appended_ids cs = [i])"
proof (cases "headBlock p")
  case (Some hb)
  with assms show ?thesis
    by (auto simp: writeHeadBlock_head appended_ids_simps split: option.splits)
next
  case None
  show ?thesis
  proof (cases "NewBlock_err e")
    case (Some err)
    with assms None have "r = Some err" "calls p' = calls p @ [Call_NewBlock (uuid_New e)]"
      by (auto simp: writeHeadBlock_nohead)
    then show ?thesis by (auto simp: appended_ids_simps)
  next
    case nb: None
    let ?q = "p\<lparr>calls := calls p @ [Call_NewBlock (uuid_New e)],
               headBlock := Some (head_or_new e p), lastCutTime := now\<rparr>"
    from assms None nb have w: "writeHeadBlock e now i b ?q = (r, p')"
      by (simp add: writeHeadBlock_nohead)
    have "headBlock ?q = Some (head_or_new e p)" by simp
    from w [unfolded writeHeadBlock_head [OF this]]
    have "calls p' = calls p @ [Call_NewBlock (uuid_New e),
              Call_Append (BlockID (BlockMeta (head_or_new e p))) i]"
      by (auto split: option.splits)
    then show ?thesis
      by (intro exI [of _ "[Call_NewBlock (uuid_New e),
              Call_Append (BlockID (BlockMeta (head_or_new e p))) i]"])
         (simp add: appended_ids_def)
  qed
qed

lemma cut_loop_calls:
  "cut_loop e now ts p = (r, p') \<Longrightarrow>
   \<exists>cs. calls p' = calls p @ cs \<and> prefix (appended_ids cs) (map tid ts) \<and>
        (r = None \<longrightarrow> appended_ids cs = map tid ts)"
proof (induction ts arbitrary: p)
  case Nil
  then show ?case by (auto simp: appended_ids_simps)
next
  case (Cons t ts)
  show ?case
  proof (cases "PrepareForWrite e (Batches t)")
    case (Inl err)
    with Cons.prems show ?thesis by (auto simp: appended_ids_simps)
  next
    case (Inr buf)
    show ?thesis
    proof (cases "ToObject e [buf]")
      case (Inl err)
      with Cons.prems \<open>PrepareForWrite e (Batches t) = Inr buf\<close> show ?thesis
        by (auto simp: appended_ids_simps)
    next
      case out: (Inr out)
      obtain r1 p1 where w: "writeHeadBlock e now (tid t) out p = (r1, p1)"
        by (cases "writeHeadBlock e now (tid t) out p")
      from writeHeadBlock_calls [OF w] obtain cs where
        cs: "calls p1 = calls p @ cs" "appended_ids cs = [] \<or> appended_ids cs = [tid t]"
            "r1 = None \<longrightarrow> appended_ids cs = [tid t]"
        by blast
      show ?thesis
      proof (cases r1)
        case (Some err)
        with Cons.prems Inr out w have "p' = p1" "r = Some err" by auto
        with cs show ?thesis by (intro exI [of _ cs]) auto
      next
        case None
        with Cons.prems Inr out w have "cut_loop e now ts p1 = (r, p')" by simp
        from Cons.IH [OF this] obtain ds where
          ds: "calls p' = calls p1 @ ds" "prefix (appended_ids ds) (map tid ts)"
              "r = None \<longrightarrow> appended_ids ds = map tid ts"
          by blast
        from cs None have "appended_ids cs = [tid t]" by simp
        with cs(1) ds show ?thesis
          by (intro exI [of _ "cs @ ds"]) (simp add: appended_ids_simps)
      qed
    qed
  qed
qed

lemma wal_Append_fields:
  "BlockID (BlockMeta (wal_Append hb i b s en)) = BlockID (BlockMeta hb)"
  "map fst (appended (wal_Append hb i b s en)) = map fst (appended hb) @ [i]"
  by (simp_all add: wal_Append_def)

lemma cut_loop_success_head:
  "headBlock p = Some hb \<Longrightarrow> cut_loop e now ts p = (None, p') \<Longrightarrow>
   \<exists>hb'. p' = p\<lparr>calls := calls p @ map (\<lambda>t. Call_Append (BlockID (BlockMeta hb)) (tid t)) ts,
                headBlock := Some hb'\<rparr> \<and>
         BlockID (BlockMeta hb') = BlockID (BlockMeta hb) \<and>
         map fst (appended hb') = map fst (appended hb) @ map tid ts"
proof (induction ts arbitrary: p hb)
  case Nil
  then have "p' = p\<lparr>calls := calls p @ [], headBlock := Some hb\<rparr>" by simp
  then show ?case by (intro exI [of _ hb]) simp
next
  case (Cons t ts)
  from Cons.prems(2) obtain buf where buf: "PrepareForWrite e (Batches t) = Inr buf"
    by (auto split: sum.splits)
  from Cons.prems(2) buf obtain out where out: "ToObject e [buf] = Inr out"
    by (auto split: sum.splits)
  let ?hb1 = "wal_Append hb (tid t) out (unix_u32 now) (unix_u32 now)"
  let ?p1 = "p\<lparr>calls := calls p @ [Call_Append (BlockID (BlockMeta hb)) (tid t)],
               headBlock := Some ?hb1\<rparr>"
  from Cons.prems buf out have ok: "Append_err e (BlockID (BlockMeta hb)) (tid t) = None"
    by (auto simp: writeHeadBlock_head split: option.splits)
  with Cons.prems buf out have rest: "cut_loop e now ts ?p1 = (None, p')"
    by (simp add: writeHeadBlock_head)
  have h1: "headBlock ?p1 = Some ?hb1" by simp
  from Cons.IH [OF h1 rest] obtain hb' where
    hb': "p' = ?p1\<lparr>calls := calls ?p1 @ map (\<lambda>t. Call_Append (BlockID (BlockMeta ?hb1)) (tid t)) ts,
                headBlock := Some hb'\<rparr>"
         "BlockID (BlockMeta hb') = BlockID (BlockMeta ?hb1)"
         "map fst (appended hb') = map fst (appended ?hb1) @ map tid ts"
    by blast
  show ?case
    by (rule exI [of _ hb']) (use hb' in \<open>simp add: wal_Append_fields\<close>)
qed

lemma cut_loop_success:
  assumes "cut_loop e now ts p = (None, p')" and "ts \<noteq> []"
  shows "\<exists>hb'. headBlock p' = Some hb' \<and>
           calls p' = calls p
             @ (if headBlock p = None then [Call_NewBlock (uuid_New e)] else [])
             @ map (\<lambda>t. Call_Append (BlockID (BlockMeta (head_or_new e p))) (tid t)) ts \<and>
           BlockID (BlockMeta hb') = BlockID (BlockMeta (head_or_new e p)) \<and>
           map fst (appended hb') = map fst (appended (head_or_new e p)) @ map tid ts \<and>
           walBlocks p' = walBlocks p \<and> completeBlocks p' = completeBlocks p \<and>
           liveTraces p' = liveTraces p"
proof (cases "headBlock p")
  case (Some hb)
  from cut_loop_success_head [OF Some assms(1)] Some show ?thesis
    by (auto simp: head_or_new_def)
next
  case None
  from assms(2) obtain t ts' where ts: "ts = t # ts'" by (cases ts) auto
  from assms(1) ts obtain buf where buf: "PrepareForWrite e (Batches t) = Inr buf"
    by (auto split: sum.splits)
  from assms(1) ts buf obtain out where out: "ToObject e [buf] = Inr out"
    by (auto split: sum.splits)
  let ?q = "p\<lparr>calls := calls p @ [Call_NewBlock (uuid_New e)],
               headBlock := Some (head_or_new e p), lastCutTime := now\<rparr>"
  have nb: "NewBlock_err e = None"
    using assms(1) ts buf out None
    by (auto simp: writeHeadBlock_nohead split: option.splits)
  have w: "writeHeadBlock e now (tid t) out p = writeHeadBlock e now (tid t) out ?q"
    using None nb by (simp add: writeHeadBlock_nohead)
  have "cut_loop e now ts ?q = cut_loop e now ts p"
    using ts buf out w by simp
  with assms(1) have c: "cut_loop e now ts ?q = (None, p')" by simp
  have h: "headBlock ?q = Some (head_or_new e p)" by simp
  from cut_loop_success_head [OF h c] None show ?thesis
    by auto
qed

lemma cutIdleTraces_unfold:
  "cutIdleTraces e now immediate (p, ob) =
     (if traces_to_cut now immediate p = []
      then (None, p\<lparr>liveTraces := snd (liveTraces_CutIdle (idle_since now immediate p) (liveTraces p))\<rparr>,
            ob\<lparr>metricLiveTraces := length (liveTraces p)\<rparr>)
      else
        (case cut_loop e now (sort_Slice less_id (traces_to_cut now immediate p))
                (p\<lparr>liveTraces := snd (liveTraces_CutIdle (idle_since now immediate p) (liveTraces p))\<rparr>) of
           (Some err, p2) \<Rightarrow> (Some err, p2, ob\<lparr>metricLiveTraces := length (liveTraces p)\<rparr>)
         | (None, p2) \<Rightarrow>
             (case headBlock p2 of
                None \<Rightarrow> (Some ErrPanic, p2, ob\<lparr>metricLiveTraces := length (liveTraces p)\<rparr>)
              | Some hb \<Rightarrow>
                  (Flush_err e (BlockID (BlockMeta hb)),
                   p2\<lparr>calls := calls p2 @ [Call_Flush (BlockID (BlockMeta hb))]\<rparr>,
                   ob\<lparr>metricLiveTraces := length (liveTraces p)\<rparr>))))"
  by (simp add: cutIdleTraces_def traces_to_cut_def idle_since_def Let_def)

lemma sorted_wrt_prefix: "prefix xs ys \<Longrightarrow> sorted_wrt R ys \<Longrightarrow> sorted_wrt R xs"
  by (auto simp: prefix_def sorted_wrt_append)

lemma CutIdle_none:
  "fst (liveTraces_CutIdle cutoff lt) = [] \<Longrightarrow> snd (liveTraces_CutIdle cutoff lt) = lt"
  by (induction lt) (auto simp: liveTraces_CutIdle_def split: if_splits)

text \<open>Claim C8. In every idle cut the selected entries are sorted before the loop that
  writes them: the list the loop runs over is a permutation of the selected entries in
  non-decreasing order of trace identifier under \<open>bytes_Compare\<close>. The identifiers of the
  \<open>Append\<close> calls the cut makes on the head block are, in call order, a prefix of the
  sorted identifiers (all of them when the cut succeeds), so they are non-decreasing.\<close>

theorem C8_sorted_idle_cut:
  assumes "cutIdleTraces e now immediate (p, ob) = (r, p', ob')"
  shows "mset (sort_Slice less_id (traces_to_cut now immediate p))
           = mset (traces_to_cut now immediate p) \<and>
         sorted_wrt (\<lambda>t u. bytes_Compare (tid t) (tid u) \<le> 0)
           (sort_Slice less_id (traces_to_cut now immediate p)) \<and>
         (\<exists>cs. calls p' = calls p @ cs \<and>
               prefix (appended_ids cs)
                 (map tid (sort_Slice less_id (traces_to_cut now immediate p))) \<and>
               sorted_wrt (\<lambda>a b. bytes_Compare a b \<le> 0) (appended_ids cs) \<and>
               (r = None \<longrightarrow>
                  appended_ids cs = map tid (sort_Slice less_id (traces_to_cut now immediate p))))"
proof -
  let ?cut = "traces_to_cut now immediate p"
  let ?sorted = "sort_Slice less_id ?cut"
  let ?p1 = "p\<lparr>liveTraces := snd (liveTraces_CutIdle (idle_since now immediate p) (liveTraces p))\<rparr>"
  have s: "sorted_wrt (\<lambda>t u. bytes_Compare (tid t) (tid u) \<le> 0) ?sorted"
    using sorted_sort_Slice [of ?cut] by (simp add: bytes_le_def)
  then have sm: "sorted_wrt (\<lambda>a b. bytes_Compare a b \<le> 0) (map tid ?sorted)"
    by (simp add: sorted_wrt_map)
  have "\<exists>cs. calls p' = calls p @ cs \<and> prefix (appended_ids cs) (map tid ?sorted) \<and>
               (r = None \<longrightarrow> appended_ids cs = map tid ?sorted)"
  proof (cases "?cut = []")
    case True
    with assms have "calls p' = calls p" by (auto simp: cutIdleTraces_unfold)
    with True show ?thesis
      by (intro exI [of _ "[]"]) (simp add: appended_ids_simps sort_Slice_def)
  next
    case False
    obtain r2 p2 where l: "cut_loop e now ?sorted ?p1 = (r2, p2)"
      by (cases "cut_loop e now ?sorted ?p1")
    from cut_loop_calls [OF l] obtain cs where
      cs: "calls p2 = calls p @ cs" "prefix (appended_ids cs) (map tid ?sorted)"
          "r2 = None \<longrightarrow> appended_ids cs = map tid ?sorted"
      by auto
    show ?thesis
    proof (cases r2)
      case (Some err)
      with assms False l have "p' = p2" "r = Some err" by (auto simp: cutIdleTraces_unfold)
      with cs show ?thesis by (intro exI [of _ cs]) simp
    next
      case None
      show ?thesis
      proof (cases "headBlock p2")
        case hn: None
        with assms False l None have "p' = p2" by (auto simp: cutIdleTraces_unfold)
        with cs None show ?thesis by (intro exI [of _ cs]) simp
      next
        case (Some hb)
        with assms False l None
        have "calls p' = calls p2 @ [Call_Flush (BlockID (BlockMeta hb))]"
          by (auto simp: cutIdleTraces_unfold)
        with cs None show ?thesis
          by (intro exI [of _ "cs @ [Call_Flush (BlockID (BlockMeta hb))]"])
             (simp add: appended_ids_simps)
      qed
    qed
  qed
  then obtain cs where cs: "calls p' = calls p @ cs" "prefix (appended_ids cs) (map tid ?sorted)"
    "r = None \<longrightarrow> appended_ids cs = map tid ?sorted"
    by blast
  from sorted_wrt_prefix [OF cs(2) sm]
  have "sorted_wrt (\<lambda>a b. bytes_Compare a b \<le> 0) (appended_ids cs)" .
  with cs s mset_sort_Slice [of less_id ?cut] show ?thesis by blast
qed

lemma append_all_simps:
  "append_all now hb [] = hb"
  "append_all now hb ((k, b) # recs)
     = append_all now (wal_Append hb k b (unix_u32 now) (unix_u32 now)) recs"
  by (simp_all add: append_all_def)

lemma append_all_fields:
  "BlockID (BlockMeta (append_all now hb recs)) = BlockID (BlockMeta hb) \<and>
   appended (append_all now hb recs) = appended hb @ recs"
proof (induction recs arbitrary: hb)
  case Nil
  show ?case by (simp add: append_all_simps)
next
  case (Cons rc recs)
  obtain k b where rc: "rc = (k, b)" by (cases rc)
  from Cons [of "wal_Append hb k b (unix_u32 now) (unix_u32 now)"] show ?case
    unfolding rc append_all_simps by (simp add: wal_Append_def)
qed

text \<open>A successful run of the loop, exactly: every trace has an object, and the head block
  afterwards is the head block before with the pairs of trace identifier and object
  appended in the order of the loop.\<close>

lemma cut_loop_exact_head:
  "headBlock p = Some hb \<Longrightarrow> cut_loop e now ts p = (None, p') \<Longrightarrow>
   \<exists>objs. map (trace_object e) ts = map Inr objs \<and>
          p' = p\<lparr>calls := calls p @ map (\<lambda>t. Call_Append (BlockID (BlockMeta hb)) (tid t)) ts,
                 headBlock := Some (append_all now hb (zip (map tid ts) objs))\<rparr>"
proof (induction ts arbitrary: p hb)
  case Nil
  then have "p' = p\<lparr>calls := calls p @ [], headBlock := Some hb\<rparr>" by simp
  then show ?case by (intro exI [of _ "[]"]) (simp add: append_all_simps)
next
  case (Cons t ts)
  from Cons.prems(2) obtain buf where buf: "PrepareForWrite e (Batches t) = Inr buf"
    by (auto split: sum.splits)
  from Cons.prems(2) buf obtain out where out: "ToObject e [buf] = Inr out"
    by (auto split: sum.splits)
  have to: "trace_object e t = Inr out"
    using buf out by (simp add: trace_object_def)
  let ?hb1 = "wal_Append hb (tid t) out (unix_u32 now) (unix_u32 now)"
  let ?p1 = "p\<lparr>calls := calls p @ [Call_Append (BlockID (BlockMeta hb)) (tid t)],
               headBlock := Some ?hb1\<rparr>"
  from Cons.prems buf out have ok: "Append_err e (BlockID (BlockMeta hb)) (tid t) = None"
    by (auto simp: writeHeadBlock_head split: option.splits)
  with Cons.prems buf out have rest: "cut_loop e now ts ?p1 = (None, p')"
    by (simp add: writeHeadBlock_head)
  have h1: "headBlock ?p1 = Some ?hb1" by simp
  from Cons.IH [OF h1 rest] obtain objs where
    objs: "map (trace_object e) ts = map Inr objs"
      "p' = ?p1\<lparr>calls := calls ?p1
                   @ map (\<lambda>t. Call_Append (BlockID (BlockMeta ?hb1)) (tid t)) ts,
                headBlock := Some (append_all now ?hb1 (zip (map tid ts) objs))\<rparr>"
    by blast
  show ?case
    by (rule exI [of _ "out # objs"])
       (use objs to in \<open>simp add: wal_Append_fields append_all_simps\<close>)
qed

lemma cut_loop_exact:
  assumes "cut_loop e now ts p = (None, p')" and "ts \<noteq> []"
  shows "\<exists>objs. map (trace_object e) ts = map Inr objs \<and>
           p' = p\<lparr>calls := calls p
                    @ (if headBlock p = None then [Call_NewBlock (uuid_New e)] else [])
                    @ map (\<lambda>t. Call_Append (BlockID (BlockMeta (head_or_new e p))) (tid t)) ts,
                  headBlock := Some (append_all now (head_or_new e p) (zip (map tid ts) objs)),
                  lastCutTime := (if headBlock p = None then now else lastCutTime p)\<rparr>"
proof (cases "headBlock p")
  case (Some hb)
  from cut_loop_exact_head [OF Some assms(1)] obtain objs where
    objs: "map (trace_object e) ts = map Inr objs"
      "p' = p\<lparr>calls := calls p @ map (\<lambda>t. Call_Append (BlockID (BlockMeta hb)) (tid t)) ts,
                 headBlock := Some (append_all now hb (zip (map tid ts) objs))\<rparr>"
    by blast
  show ?thesis
    by (rule exI [of _ objs]) (use objs Some in \<open>simp add: head_or_new_def\<close>)
next
  case None
  from assms(2) obtain t ts' where ts: "ts = t # ts'" by (cases ts) auto
  from assms(1) ts obtain buf where buf: "PrepareForWrite e (Batches t) = Inr buf"
    by (auto split: sum.splits)
  from assms(1) ts buf obtain out where out: "ToObject e [buf] = Inr out"
    by (auto split: sum.splits)
  let ?q = "p\<lparr>calls := calls p @ [Call_NewBlock (uuid_New e)],
               headBlock := Some (head_or_new e p), lastCutTime := now\<rparr>"
  have nb: "NewBlock_err e = None"
    using assms(1) ts buf out None
    by (auto simp: writeHeadBlock_nohead split: option.splits)
  have w: "writeHeadBlock e now (tid t) out p = writeHeadBlock e now (tid t) out ?q"
    using None nb by (simp add: writeHeadBlock_nohead)
  have "cut_loop e now ts ?q = cut_loop e now ts p"
    using ts buf out w by simp
  with assms(1) have c: "cut_loop e now ts ?q = (None, p')" by simp
  have h: "headBlock ?q = Some (head_or_new e p)" by simp
  from cut_loop_exact_head [OF h c] obtain objs where
    objs: "map (trace_object e) ts = map Inr objs"
      "p' = ?q\<lparr>calls := calls ?q
                 @ map (\<lambda>t. Call_Append (BlockID (BlockMeta (head_or_new e p))) (tid t)) ts,
                 headBlock := Some (append_all now (head_or_new e p) (zip (map tid ts) objs))\<rparr>"
    by blast
  show ?thesis
    by (rule exI [of _ objs]) (use objs None in simp)
qed

text \<open>Claim C10. When an idle cut selects no trace it returns at once with success and the
  processor, head block included, is unchanged (only the live-traces gauge is set). When
  it selects at least one trace and returns successfully, every cut trace has an object
  (the output of the segment decoder on its batches), and the head block afterwards is
  the head block before (the block allocated by the cut if there was none) with, for
  every cut trace in sorted order, the pair of its identifier and its object appended.
  The calls made are the allocation of that block if there was none, one \<open>Append\<close> on it
  for every cut trace in sorted order and then a \<open>Flush\<close> of it as the last call, which
  succeeded. The cut traces are out of the buffer, and nothing else changes but the cut
  clock, which is set when the block is allocated.\<close>

theorem C10_idle_cut_flushes:
  assumes "cutIdleTraces e now immediate (p, ob) = (r, p', ob')"
  shows "(traces_to_cut now immediate p = [] \<longrightarrow>
            r = None \<and> p' = p \<and> ob' = ob\<lparr>metricLiveTraces := length (liveTraces p)\<rparr>) \<and>
         (traces_to_cut now immediate p \<noteq> [] \<and> r = None \<longrightarrow>
            (\<exists>hb objs.
               map (trace_object e) (sort_Slice less_id (traces_to_cut now immediate p))
                 = map Inr objs \<and>
               hb = append_all now (head_or_new e p)
                      (zip (map tid (sort_Slice less_id (traces_to_cut now immediate p))) objs) \<and>
               appended hb
                 = appended (head_or_new e p)
                   @ zip (map tid (sort_Slice less_id (traces_to_cut now immediate p))) objs \<and>
               headBlock p' = Some hb \<and>
               BlockID (BlockMeta hb) = BlockID (BlockMeta (head_or_new e p)) \<and>
               Flush_err e (BlockID (BlockMeta hb)) = None \<and>
               calls p' = calls p
                 @ (if headBlock p = None then [Call_NewBlock (uuid_New e)] else [])
                 @ map (\<lambda>t. Call_Append (BlockID (BlockMeta hb)) (tid t))
                     (sort_Slice less_id (traces_to_cut now immediate p))
                 @ [Call_Flush (BlockID (BlockMeta hb))] \<and>
               map fst (appended hb)
                 = map fst (appended (head_or_new e p))
                   @ map tid (sort_Slice less_id (traces_to_cut now immediate p)) \<and>
               liveTraces p'
                 = snd (liveTraces_CutIdle (idle_since now immediate p) (liveTraces p)) \<and>
               p' = p\<lparr>liveTraces := liveTraces p', calls := calls p', headBlock := Some hb,
                      lastCutTime := (if headBlock p = None then now else lastCutTime p)\<rparr> \<and>
               ob' = ob\<lparr>metricLiveTraces := length (liveTraces p)\<rparr>))"
proof (rule conjI; rule impI)
  assume e: "traces_to_cut now immediate p = []"
  then have "snd (liveTraces_CutIdle (idle_since now immediate p) (liveTraces p)) = liveTraces p"
    by (simp add: traces_to_cut_def CutIdle_none)
  with assms e show "r = None \<and> p' = p \<and> ob' = ob\<lparr>metricLiveTraces := length (liveTraces p)\<rparr>"
    by (auto simp: cutIdleTraces_unfold)
next
  let ?cut = "traces_to_cut now immediate p"
  let ?sorted = "sort_Slice less_id ?cut"
  let ?rest = "snd (liveTraces_CutIdle (idle_since now immediate p) (liveTraces p))"
  let ?p1 = "p\<lparr>liveTraces := ?rest\<rparr>"
  let ?id = "BlockID (BlockMeta (head_or_new e p))"
  assume a: "?cut \<noteq> [] \<and> r = None"
  obtain r2 p2 where l: "cut_loop e now ?sorted ?p1 = (r2, p2)"
    by (cases "cut_loop e now ?sorted ?p1")
  from a assms l have r2: "r2 = None"
    by (cases r2) (auto simp: cutIdleTraces_unfold)
  have ne: "?sorted \<noteq> []"
    using a mset_sort_Slice [of less_id ?cut] by (metis mset_zero_iff)
  have hn: "head_or_new e ?p1 = head_or_new e p"
    by (cases "headBlock p") (simp_all add: head_or_new_def)
  from cut_loop_exact [OF l [unfolded r2] ne] obtain objs where
    objs: "map (trace_object e) ?sorted = map Inr objs"
    and p2: "p2 = ?p1\<lparr>calls := calls p
                    @ (if headBlock p = None then [Call_NewBlock (uuid_New e)] else [])
                    @ map (\<lambda>t. Call_Append ?id (tid t)) ?sorted,
                  headBlock := Some (append_all now (head_or_new e p)
                                      (zip (map tid ?sorted) objs)),
                  lastCutTime := (if headBlock p = None then now else lastCutTime p)\<rparr>"
    unfolding hn by auto
  define hb where "hb = append_all now (head_or_new e p) (zip (map tid ?sorted) objs)"
  have len: "length objs = length ?sorted"
    using arg_cong [OF objs, of length] by simp
  have bid: "BlockID (BlockMeta hb) = ?id"
    and app: "appended hb = appended (head_or_new e p) @ zip (map tid ?sorted) objs"
    unfolding hb_def using append_all_fields by blast+
  have ids: "map fst (appended hb) = map fst (appended (head_or_new e p)) @ map tid ?sorted"
    unfolding app using len by simp
  have h2: "headBlock p2 = Some hb" by (simp add: p2 hb_def)
  from a assms l r2 h2
  have p': "p' = p2\<lparr>calls := calls p2 @ [Call_Flush (BlockID (BlockMeta hb))]\<rparr>"
    and f: "Flush_err e (BlockID (BlockMeta hb)) = None"
    and o: "ob' = ob\<lparr>metricLiveTraces := length (liveTraces p)\<rparr>"
    by (auto simp: cutIdleTraces_unfold)
  have c1: "headBlock p' = Some hb" by (simp add: p' h2)
  have c2: "calls p' = calls p
                 @ (if headBlock p = None then [Call_NewBlock (uuid_New e)] else [])
                 @ map (\<lambda>t. Call_Append (BlockID (BlockMeta hb)) (tid t)) ?sorted
                 @ [Call_Flush (BlockID (BlockMeta hb))]"
    by (simp add: p' p2 bid)
  have c3: "liveTraces p' = ?rest" by (simp add: p' p2)
  have c4: "p' = p\<lparr>liveTraces := liveTraces p', calls := calls p', headBlock := Some hb,
                      lastCutTime := (if headBlock p = None then now else lastCutTime p)\<rparr>"
    unfolding c2 c3 by (simp add: p' p2 hb_def bid [unfolded hb_def])
  show "\<exists>hb objs.
               map (trace_object e) ?sorted = map Inr objs \<and>
               hb = append_all now (head_or_new e p) (zip (map tid ?sorted) objs) \<and>
               appended hb = appended (head_or_new e p) @ zip (map tid ?sorted) objs \<and>
               headBlock p' = Some hb \<and>
               BlockID (BlockMeta hb) = BlockID (BlockMeta (head_or_new e p)) \<and>
               Flush_err e (BlockID (BlockMeta hb)) = None \<and>
               calls p' = calls p
                 @ (if headBlock p = None then [Call_NewBlock (uuid_New e)] else [])
                 @ map (\<lambda>t. Call_Append (BlockID (BlockMeta hb)) (tid t)) ?sorted
                 @ [Call_Flush (BlockID (BlockMeta hb))] \<and>
               map fst (appended hb)
                 = map fst (appended (head_or_new e p)) @ map tid ?sorted \<and>
               liveTraces p' = ?rest \<and>
               p' = p\<lparr>liveTraces := liveTraces p', calls := calls p', headBlock := Some hb,
                      lastCutTime := (if headBlock p = None then now else lastCutTime p)\<rparr> \<and>
               ob' = ob\<lparr>metricLiveTraces := length (liveTraces p)\<rparr>"
    by (intro exI [of _ hb] exI [of _ objs] conjI objs hb_def app c1 bid f c2 ids c3 c4 o)
qed


lemma ex_cut_result:
  "cutIdleTraces ex_collab 5000 True (ex_proc_full, ex_obs) =
     (None,
      ex_proc_full\<lparr>liveTraces := [],
         headBlock := Some \<lparr>BlockMeta = \<lparr>BlockID = 2, TenantID = ''t'', EndTime = 0, Size = 0\<rparr>,
                            DataLength = 2, appended = [([1], [0]), ([2], [0])]\<rparr>,
         lastCutTime := 5000,
         calls := [Call_NewBlock 2, Call_Append 2 [1], Call_Append 2 [2], Call_Flush 2]\<rparr>,
      ex_obs\<lparr>metricLiveTraces := 2\<rparr>)"
  by (simp add: cutIdleTraces_def liveTraces_CutIdle_def is_idle_def sort_Slice_def less_id_def
      writeHeadBlock_def resetHeadBlock_def wal_NewBlock_def wal_Append_def unix_u32_def
      ex_proc_full_def ex_collab_def ex_trace_def ex_cfg_def ex_obs_def time_zero_def Let_def)

lemma ex_cut_traces:
  "traces_to_cut 5000 True ex_proc_full = [ex_trace 2 1000, ex_trace 1 2000]"
  "sort_Slice less_id [ex_trace 2 1000, ex_trace 1 2000] = [ex_trace 1 2000, ex_trace 2 1000]"
  by (simp_all add: traces_to_cut_def idle_since_def liveTraces_CutIdle_def is_idle_def
      ex_proc_full_def sort_Slice_def less_id_def ex_trace_def)

theorem C8_sorted_idle_cut_witness:
  "fst (cutIdleTraces ex_collab 5000 True (ex_proc_full, ex_obs)) = None \<and>
   map tid (traces_to_cut 5000 True ex_proc_full) = [[2], [1]] \<and>
   appended_ids (calls (fst (snd (cutIdleTraces ex_collab 5000 True (ex_proc_full, ex_obs)))))
     = [[1], [2]]"
proof -
  let ?X = "cutIdleTraces ex_collab 5000 True (ex_proc_full, ex_obs)"
  have x: "?X = (fst ?X, fst (snd ?X), snd (snd ?X))" by simp
  have r: "fst ?X = None" by (simp add: ex_cut_result)
  have c0: "calls ex_proc_full = []" by (simp add: ex_proc_full_def)
  from C8_sorted_idle_cut [OF x] r obtain cs where
    "calls (fst (snd ?X)) = calls ex_proc_full @ cs"
    "appended_ids cs = map tid (sort_Slice less_id (traces_to_cut 5000 True ex_proc_full))"
    by blast
  then have "appended_ids (calls (fst (snd ?X)))
      = map tid (sort_Slice less_id (traces_to_cut 5000 True ex_proc_full))"
    by (simp add: c0)
  then have "appended_ids (calls (fst (snd ?X))) = [[1], [2]]"
    unfolding ex_cut_traces by (simp add: ex_trace_def)
  moreover have "map tid (traces_to_cut 5000 True ex_proc_full) = [[2], [1]]"
    unfolding ex_cut_traces by (simp add: ex_trace_def)
  ultimately show ?thesis using r by blast
qed

lemma ex_codec_cut_result:
  "cutIdleTraces ex_codec 5000 True (ex_proc_full, ex_obs) =
     (None,
      ex_proc_full\<lparr>liveTraces := [],
         headBlock := Some \<lparr>BlockMeta = \<lparr>BlockID = 2, TenantID = ''t'', EndTime = 0, Size = 0\<rparr>,
                            DataLength = 2, appended = [([1], [1]), ([2], [2])]\<rparr>,
         lastCutTime := 5000,
         calls := [Call_NewBlock 2, Call_Append 2 [1], Call_Append 2 [2], Call_Flush 2]\<rparr>,
      ex_obs\<lparr>metricLiveTraces := 2\<rparr>)"
  by (simp add: cutIdleTraces_def liveTraces_CutIdle_def is_idle_def sort_Slice_def less_id_def
      writeHeadBlock_def resetHeadBlock_def wal_NewBlock_def wal_Append_def unix_u32_def
      ex_proc_full_def ex_codec_def ex_collab_def ex_trace_def ex_span_batch_def ex_cfg_def
      ex_obs_def time_zero_def Let_def)

theorem C10_idle_cut_flushes_witness:
  "traces_to_cut 5000 True ex_proc_full \<noteq> [] \<and>
   fst (cutIdleTraces ex_codec 5000 True (ex_proc_full, ex_obs)) = None \<and>
   map (trace_object ex_codec) [ex_trace 1 2000, ex_trace 2 1000] = [Inr [1], Inr [2]] \<and>
   map_option appended
     (headBlock (fst (snd (cutIdleTraces ex_codec 5000 True (ex_proc_full, ex_obs)))))
     = Some [([1], [1]), ([2], [2])] \<and>
   calls (fst (snd (cutIdleTraces ex_codec 5000 True (ex_proc_full, ex_obs))))
     = [Call_NewBlock 2, Call_Append 2 [1], Call_Append 2 [2], Call_Flush 2] \<and>
   liveTraces (fst (snd (cutIdleTraces ex_codec 5000 True (ex_proc_full, ex_obs)))) = [] \<and>
   traces_to_cut 5000 True ex_proc = [] \<and>
   fst (snd (cutIdleTraces ex_codec 5000 True (ex_proc, ex_obs))) = ex_proc"
proof -
  let ?X = "cutIdleTraces ex_codec 5000 True (ex_proc_full, ex_obs)"
  let ?Y = "cutIdleTraces ex_codec 5000 True (ex_proc, ex_obs)"
  let ?sorted = "sort_Slice less_id (traces_to_cut 5000 True ex_proc_full)"
  have x: "?X = (fst ?X, fst (snd ?X), snd (snd ?X))" by simp
  have y: "?Y = (fst ?Y, fst (snd ?Y), snd (snd ?Y))" by simp
  have r: "fst ?X = None" by (simp add: ex_codec_cut_result)
  have ne: "traces_to_cut 5000 True ex_proc_full \<noteq> []" by (simp add: ex_cut_traces)
  have em: "traces_to_cut 5000 True ex_proc = []"
    by (simp add: traces_to_cut_def liveTraces_CutIdle_def ex_proc_def)
  have srt: "?sorted = [ex_trace 1 2000, ex_trace 2 1000]"
    unfolding ex_cut_traces by simp
  have tids: "map tid [ex_trace 1 2000, ex_trace 2 1000] = [[1], [2]]"
    by (simp add: ex_trace_def)
  have tob: "map (trace_object ex_codec) [ex_trace 1 2000, ex_trace 2 1000] = [Inr [1], Inr [2]]"
    by (simp add: trace_object_def ex_codec_def ex_collab_def ex_trace_def ex_span_batch_def)
  have c0: "calls ex_proc_full = []" "headBlock ex_proc_full = None"
    and u: "uuid_New ex_codec = 2"
    and h: "BlockID (BlockMeta (head_or_new ex_codec ex_proc_full)) = 2"
      "appended (head_or_new ex_codec ex_proc_full) = []"
    and rest: "snd (liveTraces_CutIdle (idle_since 5000 True ex_proc_full)
        (liveTraces ex_proc_full)) = []"
    by (simp_all add: ex_proc_full_def ex_codec_def ex_collab_def head_or_new_def
        liveTraces_CutIdle_def idle_since_def is_idle_def)
  from C10_idle_cut_flushes [OF x, THEN conjunct2, THEN mp, OF conjI [OF ne r]]
  obtain hb objs where
    o1: "map (trace_object ex_codec) ?sorted = map Inr objs"
    and o2: "appended hb = appended (head_or_new ex_codec ex_proc_full)
                @ zip (map tid ?sorted) objs"
    and o3: "headBlock (fst (snd ?X)) = Some hb"
    and o4: "BlockID (BlockMeta hb) = BlockID (BlockMeta (head_or_new ex_codec ex_proc_full))"
    and o5: "calls (fst (snd ?X)) = calls ex_proc_full
                 @ (if headBlock ex_proc_full = None then [Call_NewBlock (uuid_New ex_codec)]
                    else [])
                 @ map (\<lambda>t. Call_Append (BlockID (BlockMeta hb)) (tid t)) ?sorted
                 @ [Call_Flush (BlockID (BlockMeta hb))]"
    and o6: "liveTraces (fst (snd ?X))
         = snd (liveTraces_CutIdle (idle_since 5000 True ex_proc_full) (liveTraces ex_proc_full))"
    by (elim exE conjE)
  from o1 [unfolded srt tob] have ob: "objs = [[1], [2]]" by auto
  from o2 have "appended hb = [([1], [1]), ([2], [2])]"
    unfolding srt tids ob h by simp
  with o3 have a: "map_option appended (headBlock (fst (snd ?X))) = Some [([1], [1]), ([2], [2])]"
    by simp
  from o5 have b: "calls (fst (snd ?X))
     = [Call_NewBlock 2, Call_Append 2 [1], Call_Append 2 [2], Call_Flush 2]"
    unfolding srt o4 h c0 u by (simp add: tids [simplified])
  from o6 rest have c: "liveTraces (fst (snd ?X)) = []" by simp
  from C10_idle_cut_flushes [OF y, THEN conjunct1, THEN mp, OF em]
  have d: "fst (snd ?Y) = ex_proc" by (elim conjE)
  show ?thesis by (intro conjI ne r tob a b c em d)
qed

section \<open>Results: the block lifecycle\<close>

lemma list_all_update:
  "list_all P al \<Longrightarrow> P (k, v) \<Longrightarrow> list_all P (AList.update k v al)"
  by (induction al) auto

lemma keys_delete: "fst ` set (AList.delete k al) = fst ` set al - {k}"
  by (induction al) auto

text \<open>What an operation does to the three collections, in five shapes.\<close>

lemma lifecycle_same:
  assumes "lifecycle_inv p" and "block_ids p \<subseteq> used"
    and "head_ids p' = head_ids p" and "walBlocks p' = walBlocks p"
    and "completeBlocks p' = completeBlocks p"
  shows "lifecycle_step used u p p'"
  using assms
  by (auto simp: lifecycle_step_def lifecycle_inv_def block_ids_def stage_of_def wal_ids_def
      complete_ids_def forward_def)

lemma lifecycle_new_head:
  assumes "lifecycle_inv p" and "block_ids p \<subseteq> used" and "u \<notin> used"
    and "head_ids p = {}" and "head_ids p' = {u}"
    and "walBlocks p' = walBlocks p" and "completeBlocks p' = completeBlocks p"
  shows "lifecycle_step used u p p'"
  using assms
  by (auto simp: lifecycle_step_def lifecycle_inv_def block_ids_def stage_of_def wal_ids_def
      complete_ids_def forward_def split: if_splits)

lemma lifecycle_cut:
  assumes "lifecycle_inv p" and "block_ids p \<subseteq> used" and "u \<notin> used"
    and "head_ids p = {BlockID (BlockMeta hb)}" and "head_ids p' = {u}"
    and "walBlocks p' = AList.update (BlockID (BlockMeta hb)) hb (walBlocks p)"
    and "completeBlocks p' = completeBlocks p"
  shows "lifecycle_step used u p p'"
proof -
  let ?h = "BlockID (BlockMeta hb)"
  note h = assms(4,5)
  have w: "wal_ids p' = insert ?h (wal_ids p)"
    using assms(6) by (simp add: wal_ids_def keys_update)
  have c: "complete_ids p' = complete_ids p"
    using assms(7) by (simp add: complete_ids_def)
  have hu: "?h \<noteq> u" "u \<notin> wal_ids p" "u \<notin> complete_ids p"
    using assms(2,3) h by (auto simp: block_ids_def)
  have hn: "?h \<notin> wal_ids p" "?h \<notin> complete_ids p" "wal_ids p \<inter> complete_ids p = {}"
    using assms(1) h by (auto simp: lifecycle_inv_def)
  have la: "list_all (\<lambda>kb. BlockID (BlockMeta (snd kb)) = fst kb)
              (AList.update ?h hb (walBlocks p))"
    using assms(1) by (intro list_all_update) (simp_all add: lifecycle_inv_def)
  have "lifecycle_inv p'"
    using assms(1) h w c hu hn
    by (auto simp: lifecycle_inv_def assms(6,7) distinct_update la)
  moreover have "block_ids p' \<subseteq> insert u used"
    using assms(2) h w c by (auto simp: block_ids_def)
  moreover have "stage_of p i \<noteq> Absent \<longrightarrow> forward (stage_of p i) (stage_of p' i)" for i
    using h w c hu hn by (auto simp: stage_of_def forward_def split: if_splits)
  moreover have "stage_of p i = Absent \<and> stage_of p' i \<noteq> Absent \<longrightarrow> i = u \<and> stage_of p' i = Head"
    for i
    using h w c hu hn by (auto simp: stage_of_def split: if_splits)
  ultimately show ?thesis by (simp add: lifecycle_step_def)
qed

lemma lifecycle_complete:
  assumes "lifecycle_inv p" and "block_ids p \<subseteq> used"
    and "head_ids p' = head_ids p" and "i \<in> wal_ids p"
    and "walBlocks p' = AList.delete i (walBlocks p)"
    and "completeBlocks p' = AList.update i nb (completeBlocks p)"
  shows "lifecycle_step used u p p'"
proof -
  have w: "wal_ids p' = wal_ids p - {i}"
    using assms(5) by (simp add: wal_ids_def keys_delete)
  have c: "complete_ids p' = insert i (complete_ids p)"
    using assms(6) by (simp add: complete_ids_def keys_update)
  have n: "i \<notin> head_ids p" "i \<notin> complete_ids p" "wal_ids p \<inter> complete_ids p = {}"
    "head_ids p \<inter> wal_ids p = {}" "head_ids p \<inter> complete_ids p = {}"
    using assms(1,4) by (auto simp: lifecycle_inv_def)
  have la: "list_all (\<lambda>kb. BlockID (BlockMeta (snd kb)) = fst kb) (AList.delete i (walBlocks p))"
    using assms(1) by (auto simp: lifecycle_inv_def delete_as_filter list_all_iff)
  have "lifecycle_inv p'"
    using assms(1,3) w c n
    by (auto simp: lifecycle_inv_def assms(5,6) distinct_update distinct_delete la)
  moreover have "block_ids p' \<subseteq> insert u used"
    using assms(2,3,4) w c by (auto simp: block_ids_def)
  moreover have "stage_of p j \<noteq> Absent \<longrightarrow> forward (stage_of p j) (stage_of p' j)" for j
    using assms(3,4) w c n by (auto simp: stage_of_def forward_def split: if_splits)
  moreover have "stage_of p j = Absent \<and> stage_of p' j \<noteq> Absent \<longrightarrow> j = u \<and> stage_of p' j = Head"
    for j
    using assms(3,4) w c n by (auto simp: stage_of_def split: if_splits)
  ultimately show ?thesis by (simp add: lifecycle_step_def)
qed

lemma lifecycle_delete:
  assumes "lifecycle_inv p" and "block_ids p \<subseteq> used"
    and "head_ids p' = head_ids p"
    and "walBlocks p' = filter Q (walBlocks p)"
    and "completeBlocks p' = filter Q' (completeBlocks p)"
  shows "lifecycle_step used u p p'"
proof -
  have w: "wal_ids p' \<subseteq> wal_ids p" and c: "complete_ids p' \<subseteq> complete_ids p"
    using assms(4,5) by (auto simp: wal_ids_def complete_ids_def)
  have "lifecycle_inv p'"
    using assms(1,3) w c
    by (auto simp: lifecycle_inv_def assms(4,5) distinct_map_filter list_all_iff)
  moreover have "block_ids p' \<subseteq> insert u used"
    using assms(2,3) w c by (auto simp: block_ids_def)
  moreover have "stage_of p j \<noteq> Absent \<longrightarrow> forward (stage_of p j) (stage_of p' j)" for j
    using assms(1,3) w c
    by (auto simp: stage_of_def forward_def lifecycle_inv_def split: if_splits)
  moreover have "stage_of p j = Absent \<and> stage_of p' j \<noteq> Absent \<longrightarrow> j = u \<and> stage_of p' j = Head"
    for j
    using assms(3) w c by (auto simp: stage_of_def split: if_splits)
  ultimately show ?thesis by (simp add: lifecycle_step_def)
qed

lemma head_ids_simps:
  "headBlock p = None \<Longrightarrow> head_ids p = {}"
  "headBlock p = Some hb \<Longrightarrow> head_ids p = {BlockID (BlockMeta hb)}"
  by (simp_all add: head_ids_def)

lemma writeHeadBlock_step:
  assumes "lifecycle_inv p" and "block_ids p \<subseteq> used" and "uuid_New e \<notin> used"
    and "writeHeadBlock e now i b p = (r, p')"
  shows "lifecycle_step used (uuid_New e) p p'"
proof (cases "headBlock p")
  case (Some hb)
  from assms(4) Some have
    "head_ids p' = head_ids p \<and> walBlocks p' = walBlocks p \<and> completeBlocks p' = completeBlocks p"
    by (auto simp: writeHeadBlock_head head_ids_def wal_Append_fields split: option.splits)
  with assms(1,2) show ?thesis by (intro lifecycle_same) simp_all
next
  case None
  show ?thesis
  proof (cases "NewBlock_err e")
    case (Some err)
    from assms(4) None Some have
      "head_ids p' = head_ids p \<and> walBlocks p' = walBlocks p \<and> completeBlocks p' = completeBlocks p"
      by (auto simp: writeHeadBlock_nohead head_ids_def)
    with assms(1,2) show ?thesis by (intro lifecycle_same) simp_all
  next
    case nb: None
    let ?q = "p\<lparr>calls := calls p @ [Call_NewBlock (uuid_New e)],
               headBlock := Some (head_or_new e p), lastCutTime := now\<rparr>"
    from assms(4) None nb have w: "writeHeadBlock e now i b ?q = (r, p')"
      by (simp add: writeHeadBlock_nohead)
    have hq: "headBlock ?q = Some (head_or_new e p)" by simp
    have u: "BlockID (BlockMeta (head_or_new e p)) = uuid_New e"
      using None by (simp add: head_or_new_def)
    from w [unfolded writeHeadBlock_head [OF hq]] u have
      "head_ids p' = {uuid_New e} \<and> walBlocks p' = walBlocks p \<and>
       completeBlocks p' = completeBlocks p"
      by (auto simp: head_ids_def wal_Append_fields split: option.splits)
    with assms(1,2,3) None show ?thesis
      by (intro lifecycle_new_head) (simp_all add: head_ids_simps)
  qed
qed

lemma cutBlocks_cases:
  assumes "cutBlocks e now immediate p = (r, p')" and "NewBlock_err e = None"
  shows "(walBlocks p' = walBlocks p \<and> completeBlocks p' = completeBlocks p \<and>
          headBlock p' = headBlock p) \<or>
         (\<exists>hb nb. headBlock p = Some hb \<and> headBlock p' = Some nb \<and>
            BlockID (BlockMeta nb) = uuid_New e \<and>
            walBlocks p' = AList.update (BlockID (BlockMeta hb)) hb (walBlocks p) \<and>
            completeBlocks p' = completeBlocks p)"
proof (cases "headBlock p")
  case None
  with assms show ?thesis by (simp add: cutBlocks_def)
next
  case (Some hb)
  show ?thesis
  proof (cases "DataLength hb = 0 \<or> (\<not> immediate \<and> time_Since now (lastCutTime p) < MaxBlockDuration (Cfg p)
                  \<and> DataLength hb < MaxBlockBytes (Cfg p))")
    case True
    with Some have "cutBlocks e now immediate p = (None, p)"
      by (auto simp: cutBlocks_def)
    with assms(1) show ?thesis by simp
  next
    case False
    then have f: "DataLength hb \<noteq> 0" "immediate \<or> MaxBlockDuration (Cfg p) \<le> time_Since now (lastCutTime p)
          \<or> MaxBlockBytes (Cfg p) \<le> DataLength hb"
      by auto
    show ?thesis
    proof (cases "Flush_err e (BlockID (BlockMeta hb))")
      case (Some err)
      with \<open>headBlock p = Some hb\<close> f
      have "cutBlocks e now immediate p =
              (Some (ErrWrap ''failed to flush head block'' err),
               p\<lparr>calls := calls p @ [Call_Flush (BlockID (BlockMeta hb))]\<rparr>)"
        by (auto simp add: cutBlocks_def Let_def)
      with assms(1) show ?thesis by auto
    next
      case None
      with \<open>headBlock p = Some hb\<close> f assms(2)
      have "cutBlocks e now immediate p =
        (None, p\<lparr>calls := calls p @ [Call_Flush (BlockID (BlockMeta hb)),
                                    Call_NewBlock (uuid_New e)],
                 walBlocks := AList.update (BlockID (BlockMeta hb)) hb (walBlocks p),
                 headBlock := Some \<lparr>BlockMeta = \<lparr>BlockID = uuid_New e, TenantID = tenant p,
                                   EndTime = time_zero, Size = 0\<rparr>,
                                 DataLength = 0, appended = []\<rparr>,
                 lastCutTime := now\<rparr>)"
        by (auto simp add: cutBlocks_def Let_def resetHeadBlock_ok)
      with assms(1) \<open>headBlock p = Some hb\<close> show ?thesis by auto
    qed
  qed
qed

lemma cutBlocks_step:
  assumes "lifecycle_inv p" and "block_ids p \<subseteq> used" and "uuid_New e \<notin> used"
    and "NewBlock_err e = None" and "cutBlocks e now immediate p = (r, p')"
  shows "lifecycle_step used (uuid_New e) p p'"
  using cutBlocks_cases [OF assms(5,4)]
proof
  assume "walBlocks p' = walBlocks p \<and> completeBlocks p' = completeBlocks p \<and>
          headBlock p' = headBlock p"
  with assms(1,2) show ?thesis by (intro lifecycle_same) (simp_all add: head_ids_def)
next
  assume "\<exists>hb nb. headBlock p = Some hb \<and> headBlock p' = Some nb \<and>
            BlockID (BlockMeta nb) = uuid_New e \<and>
            walBlocks p' = AList.update (BlockID (BlockMeta hb)) hb (walBlocks p) \<and>
            completeBlocks p' = completeBlocks p"
  then obtain hb nb where "headBlock p = Some hb" "headBlock p' = Some nb"
    "BlockID (BlockMeta nb) = uuid_New e"
    "walBlocks p' = AList.update (BlockID (BlockMeta hb)) hb (walBlocks p)"
    "completeBlocks p' = completeBlocks p"
    by blast
  with assms(1,2,3) show ?thesis
    by (intro lifecycle_cut [where hb = hb]) (simp_all add: head_ids_simps)
qed

lemma completeBlock_cases:
  assumes "completeBlock e p = (r, p')" and "\<not> half_done e Op_completeBlock p"
  shows "(walBlocks p' = walBlocks p \<and> completeBlocks p' = completeBlocks p \<and>
          headBlock p' = headBlock p) \<or>
         (\<exists>i b rest newMeta nb. walBlocks p = (i, b) # rest \<and>
            CreateBlock e (BlockMeta b) (appended b) = Inr newMeta \<and>
            headBlock p' = headBlock p \<and>
            walBlocks p' = AList.delete i (walBlocks p) \<and>
            completeBlocks p' = AList.update (BlockID newMeta) nb (completeBlocks p))"
proof (cases "walBlocks p")
  case Nil
  with assms show ?thesis by (simp add: completeBlock_def)
next
  case (Cons kb rest)
  obtain i b where kb: "kb = (i, b)" by (cases kb)
  from assms(2) Cons kb have cl: "Clear_err e (BlockID (BlockMeta b)) = None" by simp
  show ?thesis
  proof (cases "Iterator_err e (BlockID (BlockMeta b))")
    case (Some err)
    with assms(1) Cons kb show ?thesis by (auto simp add: completeBlock_def Let_def)
  next
    case None
    show ?thesis
    proof (cases "CreateBlock e (BlockMeta b) (appended b)")
      case (Inl err)
      with assms(1) Cons kb None show ?thesis by (auto simp add: completeBlock_def Let_def)
    next
      case (Inr newMeta)
      show ?thesis
      proof (cases "OpenBlock e newMeta")
        case (Inl err)
        with assms(1) Cons kb None Inr show ?thesis by (auto simp add: completeBlock_def Let_def)
      next
        case nb: (Inr nb)
        with assms(1) Cons kb None Inr cl have
          "headBlock p' = headBlock p \<and>
            walBlocks p' = AList.delete i (walBlocks p) \<and>
            completeBlocks p' = AList.update (BlockID newMeta) nb (completeBlocks p)"
          by (auto simp: completeBlock_def Let_def)
        with Cons kb Inr show ?thesis by blast
      qed
    qed
  qed
qed

lemma completeBlock_step:
  assumes "lifecycle_inv p" and "block_ids p \<subseteq> used"
    and "\<forall>meta objs newMeta. CreateBlock e meta objs = Inr newMeta \<longrightarrow>
           BlockID newMeta = BlockID meta"
    and "\<not> half_done e Op_completeBlock p" and "completeBlock e p = (r, p')"
  shows "lifecycle_step used u p p'"
  using completeBlock_cases [OF assms(5,4)]
proof
  assume "walBlocks p' = walBlocks p \<and> completeBlocks p' = completeBlocks p \<and>
          headBlock p' = headBlock p"
  with assms(1,2) show ?thesis by (intro lifecycle_same) (simp_all add: head_ids_def)
next
  assume "\<exists>i b rest newMeta nb. walBlocks p = (i, b) # rest \<and>
            CreateBlock e (BlockMeta b) (appended b) = Inr newMeta \<and>
            headBlock p' = headBlock p \<and>
            walBlocks p' = AList.delete i (walBlocks p) \<and>
            completeBlocks p' = AList.update (BlockID newMeta) nb (completeBlocks p)"
  then obtain i b rest newMeta nb where s: "walBlocks p = (i, b) # rest"
    "CreateBlock e (BlockMeta b) (appended b) = Inr newMeta"
    "headBlock p' = headBlock p" "walBlocks p' = AList.delete i (walBlocks p)"
    "completeBlocks p' = AList.update (BlockID newMeta) nb (completeBlocks p)"
    by blast
  from assms(1) s(1) have "BlockID (BlockMeta b) = i" by (simp add: lifecycle_inv_def)
  with assms(3) s(2) have "BlockID newMeta = i" by blast
  with assms(1,2) s show ?thesis
    by (intro lifecycle_complete [where i = i and nb = nb]) (simp_all add: head_ids_def wal_ids_def)
qed

lemma deleteOld_wal_filter:
  assumes "deleteOld_wal e before xs p = (r, p')"
  shows "\<exists>Q. walBlocks p' = filter Q (walBlocks p)"
  using deleteOld_wal_result [OF assms] by (elim exE conjE) (rule exI, assumption)

lemma deleteOld_complete_filter:
  assumes "deleteOld_complete e before xs p = (r, p')"
  shows "\<exists>Q. completeBlocks p' = filter Q (completeBlocks p)"
  using deleteOld_complete_result [OF assms] by (elim exE conjE) (rule exI, assumption)

lemma deleteOldBlocks_step:
  assumes "lifecycle_inv p" and "block_ids p \<subseteq> used" and "deleteOldBlocks e now p = (r, p')"
  shows "lifecycle_step used u p p'"
proof -
  define before where "before = time_Add now (neg_duration (CompleteBlockTimeout (Cfg p)))"
  obtain r1 p1 where l1: "deleteOld_wal e before (walBlocks p) p = (r1, p1)"
    by (cases "deleteOld_wal e before (walBlocks p) p")
  from deleteOld_wal_frame [OF l1]
  have f1: "completeBlocks p1 = completeBlocks p" "headBlock p1 = headBlock p"
    by (metis processor.select_convs processor.surjective processor.update_convs)+
  from deleteOld_wal_filter [OF l1] obtain Q1 where
    w1: "walBlocks p1 = filter Q1 (walBlocks p)" ..
  have "\<exists>Q Q'. headBlock p' = headBlock p \<and> walBlocks p' = filter Q (walBlocks p) \<and>
          completeBlocks p' = filter Q' (completeBlocks p)"
  proof (cases r1)
    case (Some err)
    with l1 assms(3) have "p' = p1"
      by (simp add: deleteOldBlocks_def before_def [symmetric])
    with f1 w1 have "headBlock p' = headBlock p \<and>
        walBlocks p' = filter Q1 (walBlocks p) \<and>
        completeBlocks p' = filter (\<lambda>kb. True) (completeBlocks p)"
      by simp
    then show ?thesis by blast
  next
    case None
    with l1 assms(3) have l2: "deleteOld_complete e before (completeBlocks p) p1 = (r, p')"
      by (simp add: deleteOldBlocks_def before_def [symmetric] f1)
    from deleteOld_complete_frame [OF l2]
    have f2: "walBlocks p' = walBlocks p1" "headBlock p' = headBlock p1"
      by (metis processor.select_convs processor.surjective processor.update_convs)+
    from deleteOld_complete_filter [OF l2] obtain Q2 where
      "completeBlocks p' = filter Q2 (completeBlocks p1)" ..
    with f1 f2 w1 have "headBlock p' = headBlock p \<and>
        walBlocks p' = filter Q1 (walBlocks p) \<and>
        completeBlocks p' = filter Q2 (completeBlocks p)"
      by simp
    then show ?thesis by blast
  qed
  then obtain Q Q' where "headBlock p' = headBlock p" "walBlocks p' = filter Q (walBlocks p)"
    "completeBlocks p' = filter Q' (completeBlocks p)"
    by blast
  with assms(1,2) show ?thesis
    by (intro lifecycle_delete [where Q = Q and Q' = Q']) (simp_all add: head_ids_def)
qed

lemma run_step:
  assumes "lifecycle_inv p" and "block_ids p \<subseteq> used" and "uuid_New e \<notin> used"
    and "\<forall>meta objs newMeta. CreateBlock e meta objs = Inr newMeta \<longrightarrow>
           BlockID newMeta = BlockID meta"
    and "\<not> half_done e op p" and "run e now op p = (r, p')"
  shows "lifecycle_step used (uuid_New e) p p'"
proof (cases op)
  case (Op_writeHeadBlock i b)
  with assms show ?thesis by (auto intro: writeHeadBlock_step)
next
  case (Op_cutBlocks immediate)
  with assms show ?thesis by (auto intro: cutBlocks_step)
next
  case Op_completeBlock
  with assms(5,6) have "\<not> half_done e Op_completeBlock p" "completeBlock e p = (r, p')"
    by simp_all
  from completeBlock_step [OF assms(1,2,4) this] show ?thesis .
next
  case Op_deleteOldBlocks
  with assms show ?thesis by (auto intro: deleteOldBlocks_step)
qed

lemma reload_wal_Cons:
  "reload_wal (blk # blks) p =
     reload_wal blks
       (if TenantID (BlockMeta blk) = tenant p
        then p\<lparr>walBlocks := AList.update (BlockID (BlockMeta blk)) blk (walBlocks p)\<rparr>
        else p)"
  by (simp add: reload_wal_def)

lemma reload_wal_keys:
  "distinct (map fst (walBlocks p)) \<Longrightarrow>
   list_all (\<lambda>kb. BlockID (BlockMeta (snd kb)) = fst kb) (walBlocks p) \<Longrightarrow>
   distinct (map fst (walBlocks (reload_wal blks p))) \<and>
   list_all (\<lambda>kb. BlockID (BlockMeta (snd kb)) = fst kb) (walBlocks (reload_wal blks p)) \<and>
   wal_ids (reload_wal blks p) =
     wal_ids p \<union> {BlockID (BlockMeta b) |b. b \<in> set blks \<and> TenantID (BlockMeta b) = tenant p}"
proof (induction blks arbitrary: p)
  case Nil
  then show ?case by (simp add: reload_wal_def)
next
  case (Cons blk blks)
  show ?case
  proof (cases "TenantID (BlockMeta blk) = tenant p")
    case False
    with Cons.IH [OF Cons.prems] show ?thesis
      by (auto simp: reload_wal_Cons)
  next
    case True
    let ?q = "p\<lparr>walBlocks := AList.update (BlockID (BlockMeta blk)) blk (walBlocks p)\<rparr>"
    have d: "distinct (map fst (walBlocks ?q))"
      using Cons.prems(1) by (simp add: distinct_update)
    have l: "list_all (\<lambda>kb. BlockID (BlockMeta (snd kb)) = fst kb) (walBlocks ?q)"
      using Cons.prems(2) by (simp add: list_all_update)
    have w: "wal_ids ?q = insert (BlockID (BlockMeta blk)) (wal_ids p)"
      by (simp add: wal_ids_def keys_update)
    from Cons.IH [OF d l] True w show ?thesis
      by (auto simp: reload_wal_Cons)
  qed
qed

lemma reload_complete_distinct:
  "reload_complete e ids p ob = (r, p', ob') \<Longrightarrow> distinct (map fst (completeBlocks p)) \<Longrightarrow>
   distinct (map fst (completeBlocks p'))"
proof (induction ids arbitrary: p ob)
  case Nil
  then show ?case by simp
next
  case (Cons i ids)
  show ?case
  proof (cases "ReadBlockMeta e i (tenant p)")
    case (Inl err)
    show ?thesis
    proof (cases "err = ErrDoesNotExist")
      case False
      with Cons.prems Inl show ?thesis by auto
    next
      case True
      show ?thesis
      proof (cases "ClearBlock_err e i")
        case None
        with Cons.prems(1) Inl True
        have "reload_complete e ids (p\<lparr>calls := calls p @ [Call_ClearBlock i]\<rparr>) ob = (r, p', ob')"
          by (simp add: Let_def)
        from Cons.IH [OF this] Cons.prems(2) show ?thesis by simp
      next
        case (Some err')
        with Cons.prems(1) Inl True
        have "reload_complete e ids (p\<lparr>calls := calls p @ [Call_ClearBlock i]\<rparr>)
                (ob\<lparr>logs := logs ob @
          [(''local blocks processor failed to clear partially written block during replay'', err')]\<rparr>)
              = (r, p', ob')"
          by (simp add: Let_def)
        from Cons.IH [OF this] Cons.prems(2) show ?thesis by simp
      qed
    qed
  next
    case (Inr meta)
    show ?thesis
    proof (cases "OpenBlock e meta")
      case (Inl err)
      with Cons.prems Inr show ?thesis by (auto simp: Let_def)
    next
      case (Inr blk)
      with Cons.prems(1) \<open>ReadBlockMeta e i (tenant p) = Inr meta\<close>
      have "reload_complete e ids
              (p\<lparr>calls := calls p @ [Call_OpenBlock (BlockID meta)],
                 completeBlocks := AList.update i blk (completeBlocks p)\<rparr>) ob = (r, p', ob')"
        by (simp add: Let_def)
      from Cons.IH [OF this] Cons.prems(2) show ?thesis by (simp add: distinct_update)
    qed
  qed
qed

lemma recovery_lifecycle:
  assumes "New e cfg t False ob = (Inr p0, ob0)"
  shows "headBlock p0 = None \<and>
         distinct (map fst (walBlocks p0)) \<and> distinct (map fst (completeBlocks p0)) \<and>
         list_all (\<lambda>kb. BlockID (BlockMeta (snd kb)) = fst kb) (walBlocks p0) \<and>
         (\<forall>blks. RescanBlocks e = Inr blks \<longrightarrow>
            wal_ids p0 = {BlockID (BlockMeta b) |b. b \<in> set blks \<and> TenantID (BlockMeta b) = t}) \<and>
         complete_ids p0 \<subseteq> {i. \<exists>meta. ReadBlockMeta e i t = Inr meta} \<and>
         (lifecycle_inv p0 \<longleftrightarrow> wal_ids p0 \<inter> complete_ids p0 = {})"
proof -
  let ?p = "\<lparr>tenant = t, Cfg = cfg, headBlock = None, walBlocks = [],
                  completeBlocks = [], lastCutTime = time_zero, liveTraces = [], calls = []\<rparr>"
  from assms have rb: "\<exists>ob1. reloadBlocks e ?p ob = (None, p0, ob1)"
    by (auto simp: New_def split: option.splits prod.splits)
  then obtain ob1 where rb: "reloadBlocks e ?p ob = (None, p0, ob1)" ..
  then obtain blks where blks: "RescanBlocks e = Inr blks"
    by (auto simp: reloadBlocks_def split: sum.splits)
  let ?q = "reload_wal blks ?p"
  have q: "distinct (map fst (walBlocks ?q))"
    "list_all (\<lambda>kb. BlockID (BlockMeta (snd kb)) = fst kb) (walBlocks ?q)"
    "wal_ids ?q = {BlockID (BlockMeta b) |b. b \<in> set blks \<and> TenantID (BlockMeta b) = t}"
    using reload_wal_keys [of ?p blks] by (simp_all add: wal_ids_def)
  have qf: "headBlock ?q = None" "completeBlocks ?q = []" "tenant ?q = t"
    by (simp_all add: reload_wal_fields)
  from rb blks obtain ts where ts: "Tenants e = Inr ts"
    by (auto simp: reloadBlocks_def Let_def split: sum.splits)
  have main: "headBlock p0 = None \<and> walBlocks p0 = walBlocks ?q \<and>
      distinct (map fst (completeBlocks p0)) \<and>
      complete_ids p0 \<subseteq> {i. \<exists>meta. ReadBlockMeta e i t = Inr meta}"
  proof (cases "ts = []")
    case True
    with rb blks ts have "p0 = ?q" by (simp add: reloadBlocks_def Let_def)
    with qf show ?thesis by (simp add: complete_ids_def)
  next
    case False
    with rb blks ts obtain ids where ids: "Blocks e t = Inr ids"
      by (auto simp: reloadBlocks_def Let_def qf split: sum.splits)
    with rb blks ts False have rc: "reload_complete e ids ?q ob = (None, p0, ob1)"
      by (simp add: reloadBlocks_def Let_def qf)
    from reload_complete_success [OF rc] reload_complete_distinct [OF rc] qf
    show ?thesis by (auto simp: complete_ids_def)
  qed
  with q blks show ?thesis
    by (auto simp: lifecycle_inv_def head_ids_def wal_ids_def)
qed

text \<open>Claim C6, as amended. Take a state in which the keys of each set are distinct, every
  write-ahead block is stored under its own identifier and head block, write-ahead set
  and complete set share no identifier; let \<open>used\<close> hold every identifier in use so far,
  let \<^verbatim>\<open>uuid.New()\<close> return an identifier outside \<open>used\<close>, and let the compaction keep the
  block identifier. Then every operation (\<open>writeHeadBlock\<close>, \<open>cutBlocks\<close>, \<open>completeBlock\<close>,
  \<open>deleteOldBlocks\<close>), successful or failed, other than a \<open>cutBlocks\<close> whose allocation of
  the new head block fails and a \<open>completeBlock\<close> whose clearing of the source storage
  fails, leaves such a state; every identifier present before stays in its stage, moves
  head to write-ahead or write-ahead to complete, or is deleted; and the only identifier
  that can enter is the freshly generated one, as head block, so no identifier outside
  \<open>used\<close> and the fresh one is in use afterwards. A successful recovery starts without head
  block, with the rescanned blocks of the tenant in the write-ahead set under their own
  identifiers and with only blocks whose metadata was read in the complete set; the two
  sets are disjoint after recovery exactly when no identifier was recovered into both.\<close>

theorem C6_lifecycle:
  "(lifecycle_inv p \<and> block_ids p \<subseteq> used \<and> uuid_New e \<notin> used \<and>
    (\<forall>meta objs newMeta. CreateBlock e meta objs = Inr newMeta \<longrightarrow>
       BlockID newMeta = BlockID meta) \<and>
    \<not> half_done e op p \<and> run e now op p = (r, p') \<longrightarrow>
      lifecycle_inv p' \<and>
      block_ids p' \<subseteq> insert (uuid_New e) used \<and>
      (\<forall>i. stage_of p i \<noteq> Absent \<longrightarrow> forward (stage_of p i) (stage_of p' i)) \<and>
      (\<forall>i. stage_of p i = Absent \<and> stage_of p' i \<noteq> Absent \<longrightarrow>
           i = uuid_New e \<and> stage_of p' i = Head)) \<and>
   (New e0 cfg t False ob = (Inr p0, ob0) \<longrightarrow>
      headBlock p0 = None \<and>
      distinct (map fst (walBlocks p0)) \<and> distinct (map fst (completeBlocks p0)) \<and>
      list_all (\<lambda>kb. BlockID (BlockMeta (snd kb)) = fst kb) (walBlocks p0) \<and>
      (\<forall>blks. RescanBlocks e0 = Inr blks \<longrightarrow>
         wal_ids p0 = {BlockID (BlockMeta b) |b. b \<in> set blks \<and> TenantID (BlockMeta b) = t}) \<and>
      complete_ids p0 \<subseteq> {i. \<exists>meta. ReadBlockMeta e0 i t = Inr meta} \<and>
      (lifecycle_inv p0 \<longleftrightarrow> wal_ids p0 \<inter> complete_ids p0 = {}))"
proof (rule conjI; rule impI)
  assume a: "lifecycle_inv p \<and> block_ids p \<subseteq> used \<and> uuid_New e \<notin> used \<and>
    (\<forall>meta objs newMeta. CreateBlock e meta objs = Inr newMeta \<longrightarrow>
       BlockID newMeta = BlockID meta) \<and>
    \<not> half_done e op p \<and> run e now op p = (r, p')"
  then have "lifecycle_step used (uuid_New e) p p'"
    by (intro run_step [where op = op and now = now and r = r]) simp_all
  then show "lifecycle_inv p' \<and>
      block_ids p' \<subseteq> insert (uuid_New e) used \<and>
      (\<forall>i. stage_of p i \<noteq> Absent \<longrightarrow> forward (stage_of p i) (stage_of p' i)) \<and>
      (\<forall>i. stage_of p i = Absent \<and> stage_of p' i \<noteq> Absent \<longrightarrow>
           i = uuid_New e \<and> stage_of p' i = Head)"
    by (simp add: lifecycle_step_def)
next
  assume "New e0 cfg t False ob = (Inr p0, ob0)"
  then show "headBlock p0 = None \<and>
      distinct (map fst (walBlocks p0)) \<and> distinct (map fst (completeBlocks p0)) \<and>
      list_all (\<lambda>kb. BlockID (BlockMeta (snd kb)) = fst kb) (walBlocks p0) \<and>
      (\<forall>blks. RescanBlocks e0 = Inr blks \<longrightarrow>
         wal_ids p0 = {BlockID (BlockMeta b) |b. b \<in> set blks \<and> TenantID (BlockMeta b) = t}) \<and>
      complete_ids p0 \<subseteq> {i. \<exists>meta. ReadBlockMeta e0 i t = Inr meta} \<and>
      (lifecycle_inv p0 \<longleftrightarrow> wal_ids p0 \<inter> complete_ids p0 = {})"
    by (rule recovery_lifecycle)
qed

lemma ex_run_values:
  "New ex_collab ex_cfg ''t'' False ex_obs = (Inr ex_init, ex_obs)"
  "writeHeadBlock ex_collab 1000000000 [1] [7] ex_init = (None, ex_written)"
  "headBlock ex_written = Some \<lparr>BlockMeta = \<lparr>BlockID = 2, TenantID = ''t'',
       EndTime = 1000000000, Size = 0\<rparr>, DataLength = 1, appended = [([1], [7])]\<rparr>"
  "walBlocks ex_written = []" "completeBlocks ex_written = []"
  by (simp_all add: New_def reloadBlocks_def reload_wal_def ex_collab_def ex_init_def
      ex_written_def writeHeadBlock_def resetHeadBlock_def wal_NewBlock_def wal_Append_def
      unix_u32_def time_zero_def Let_def)

lemma ex_cut_values:
  "cutBlocks ex_collab3 1000000000 True ex_written = (None, ex_cut)"
  "walBlocks ex_cut = [(2, \<lparr>BlockMeta = \<lparr>BlockID = 2, TenantID = ''t'',
       EndTime = 1000000000, Size = 0\<rparr>, DataLength = 1, appended = [([1], [7])]\<rparr>)]"
  "completeBlocks ex_cut = []"
  "map_option (\<lambda>b. BlockID (BlockMeta b)) (headBlock ex_cut) = Some 3"
  by (simp_all add: ex_cut_def cutBlocks_def ex_run_values resetHeadBlock_def wal_NewBlock_def
      ex_collab3_def ex_collab_def Let_def)

theorem C6_lifecycle_witness:
  "lifecycle_inv ex_written \<and> block_ids ex_written \<subseteq> {2} \<and> uuid_New ex_collab3 \<notin> {2} \<and>
   \<not> half_done ex_collab3 (Op_cutBlocks True) ex_written \<and>
   run ex_collab3 1000000000 (Op_cutBlocks True) ex_written = (None, ex_cut) \<and>
   stage_of ex_written 2 = Head \<and> stage_of ex_cut 2 = WriteAhead \<and>
   forward (stage_of ex_written 2) (stage_of ex_cut 2) \<and>
   lifecycle_inv ex_cut \<and> block_ids ex_cut \<subseteq> {3, 2} \<and>
   headBlock ex_init = None \<and> lifecycle_inv ex_init"
proof -
  have i: "lifecycle_inv ex_written" and b: "block_ids ex_written \<subseteq> {2}"
    and s: "stage_of ex_written 2 = Head"
    by (simp_all add: lifecycle_inv_def block_ids_def stage_of_def head_ids_def wal_ids_def
        complete_ids_def ex_run_values)
  have u: "uuid_New ex_collab3 \<notin> {2}" "uuid_New ex_collab3 = 3"
    and h: "\<not> half_done ex_collab3 (Op_cutBlocks True) ex_written"
    and c: "\<forall>meta objs newMeta. CreateBlock ex_collab3 meta objs = Inr newMeta \<longrightarrow>
       BlockID newMeta = BlockID meta"
    by (simp_all add: ex_collab3_def ex_collab_def)
  have r: "run ex_collab3 1000000000 (Op_cutBlocks True) ex_written = (None, ex_cut)"
    by (simp add: ex_cut_values)
  have hd: "head_ids ex_cut = {3}"
    using ex_cut_values(4) by (cases "headBlock ex_cut") (simp_all add: head_ids_def)
  have s': "stage_of ex_cut 2 = WriteAhead"
    by (simp add: stage_of_def hd wal_ids_def ex_cut_values)
  have n: "New ex_collab ex_cfg ''t'' False ex_obs = (Inr ex_init, ex_obs)"
    by (rule ex_run_values)
  have w0: "wal_ids ex_init \<inter> complete_ids ex_init = {}"
    by (simp add: wal_ids_def ex_init_def)
  note inst = C6_lifecycle [of ex_written "{2}" ex_collab3 "Op_cutBlocks True" 1000000000
      None ex_cut ex_collab ex_cfg "''t''" ex_obs ex_init ex_obs]
  have pre: "lifecycle_inv ex_written \<and> block_ids ex_written \<subseteq> {2} \<and>
    uuid_New ex_collab3 \<notin> {2} \<and>
    (\<forall>meta objs newMeta. CreateBlock ex_collab3 meta objs = Inr newMeta \<longrightarrow>
       BlockID newMeta = BlockID meta) \<and>
    \<not> half_done ex_collab3 (Op_cutBlocks True) ex_written \<and>
    run ex_collab3 1000000000 (Op_cutBlocks True) ex_written = (None, ex_cut)"
    by (intro conjI i b u(1) c h r)
  from inst [THEN conjunct1, THEN mp, OF pre]
  have a1: "lifecycle_inv ex_cut" and a2: "block_ids ex_cut \<subseteq> insert (uuid_New ex_collab3) {2}"
    and a3: "\<forall>i. stage_of ex_written i \<noteq> Absent \<longrightarrow>
               forward (stage_of ex_written i) (stage_of ex_cut i)"
    by simp_all
  from a3 s have a4: "forward (stage_of ex_written 2) (stage_of ex_cut 2)"
    by (metis stage.distinct(1))
  from inst [THEN conjunct2, THEN mp, OF n]
  have b1: "headBlock ex_init = None"
    and b2: "lifecycle_inv ex_init \<longleftrightarrow> wal_ids ex_init \<inter> complete_ids ex_init = {}"
    by simp_all
  from b2 w0 have b3: "lifecycle_inv ex_init" by simp
  from a2 u(2) have a5: "block_ids ex_cut \<subseteq> {3, 2}" by simp
  show ?thesis
    by (intro conjI i b u(1) h r s s' a4 a1 a5 b1 b3)
qed

text \<open>The claim as stated fails on reachable states. After construction, one write, a cut
  and a compaction whose storage clear fails, identifier 2 is in the write-ahead set and
  in the complete set. And after a cut whose allocation of the new head block fails,
  block 2 is head block and write-ahead block at once; a compaction and a further cut,
  both successful, then take it to the complete set while it is still head, and back
  into the write-ahead set.\<close>

theorem C6_counterexample:
  "fst (New ex_collab ex_cfg ''t'' False ex_obs) = Inr ex_init \<and>
   writeHeadBlock ex_collab 1000000000 [1] [7] ex_init = (None, ex_written) \<and>
   cutBlocks ex_collab3 1000000000 True ex_written = (None, ex_cut) \<and>
   completeBlock ex_clear_fails ex_cut = (Some ex_disk_full, ex_half_completed) \<and>
   2 \<in> wal_ids ex_half_completed \<and> 2 \<in> complete_ids ex_half_completed \<and>
   cutBlocks ex_newblock_fails 1000000000 True ex_written
     = (Some (ErrWrap ''failed to resetHeadBlock'' ex_disk_full), ex_reset_failed) \<and>
   2 \<in> head_ids ex_reset_failed \<and> 2 \<in> wal_ids ex_reset_failed \<and>
   completeBlock ex_collab ex_reset_failed = (None, ex_recompleted) \<and>
   stage_of ex_recompleted 2 = Head \<and> 2 \<in> complete_ids ex_recompleted \<and>
   cutBlocks ex_collab3 1000000000 True ex_recompleted = (None, ex_recut) \<and>
   2 \<in> wal_ids ex_recut \<and> 2 \<in> complete_ids ex_recut"
proof -
  have "completeBlock ex_clear_fails ex_cut = (Some ex_disk_full, ex_half_completed)"
    and "walBlocks ex_half_completed = walBlocks ex_cut"
    and "map fst (completeBlocks ex_half_completed) = [2]"
    by (simp_all add: ex_half_completed_def completeBlock_def ex_cut_values ex_clear_fails_def
        ex_collab_def Let_def)
  moreover have "complete_ids ex_half_completed = set (map fst (completeBlocks ex_half_completed))"
    by (simp add: complete_ids_def)
  ultimately have first: "fst (New ex_collab ex_cfg ''t'' False ex_obs) = Inr ex_init \<and>
   writeHeadBlock ex_collab 1000000000 [1] [7] ex_init = (None, ex_written) \<and>
   cutBlocks ex_collab3 1000000000 True ex_written = (None, ex_cut) \<and>
   completeBlock ex_clear_fails ex_cut = (Some ex_disk_full, ex_half_completed) \<and>
   2 \<in> wal_ids ex_half_completed \<and> 2 \<in> complete_ids ex_half_completed"
    by (simp add: ex_run_values ex_cut_values wal_ids_def)
  have rf: "cutBlocks ex_newblock_fails 1000000000 True ex_written
     = (Some (ErrWrap ''failed to resetHeadBlock'' ex_disk_full), ex_reset_failed)"
    and rf_head: "headBlock ex_reset_failed = headBlock ex_written"
    and rf_wal: "walBlocks ex_reset_failed = [(2, \<lparr>BlockMeta = \<lparr>BlockID = 2, TenantID = ''t'',
       EndTime = 1000000000, Size = 0\<rparr>, DataLength = 1, appended = [([1], [7])]\<rparr>)]"
    and rf_c: "completeBlocks ex_reset_failed = []"
    by (simp_all add: ex_reset_failed_def cutBlocks_def ex_run_values resetHeadBlock_def
        wal_NewBlock_def ex_newblock_fails_def ex_collab_def Let_def)
  have rc: "completeBlock ex_collab ex_reset_failed = (None, ex_recompleted)"
    and rc_head: "headBlock ex_recompleted = headBlock ex_written"
    and rc_wal: "walBlocks ex_recompleted = []"
    and rc_c: "map fst (completeBlocks ex_recompleted) = [2]"
    by (simp_all add: ex_recompleted_def completeBlock_def rf_head rf_wal rf_c ex_collab_def
        Let_def)
  have ru: "cutBlocks ex_collab3 1000000000 True ex_recompleted = (None, ex_recut)"
    and ru_wal: "map fst (walBlocks ex_recut) = [2]"
    and ru_c: "completeBlocks ex_recut = completeBlocks ex_recompleted"
    by (simp_all add: ex_recut_def cutBlocks_def rc_head rc_wal ex_run_values resetHeadBlock_def
        wal_NewBlock_def ex_collab3_def ex_collab_def Let_def)
  have ids: "wal_ids q = set (map fst (walBlocks q))"
    "complete_ids q = set (map fst (completeBlocks q))" for q
    by (simp_all add: wal_ids_def complete_ids_def)
  have second: "2 \<in> head_ids ex_reset_failed \<and> 2 \<in> wal_ids ex_reset_failed \<and>
    stage_of ex_recompleted 2 = Head \<and> 2 \<in> complete_ids ex_recompleted \<and>
    2 \<in> wal_ids ex_recut \<and> 2 \<in> complete_ids ex_recut"
    unfolding ids ru_wal ru_c rc_c
    by (simp add: head_ids_def stage_of_def rf_head rc_head rf_wal ex_run_values)
  from first rf rc ru second show ?thesis by simp
qed

section \<open>Results: failures are logged, counted or returned\<close>

lemma push_batch_None:
  "filterBatch h batch = None \<Longrightarrow> push_batch h key now batch (p, ob) = (p, ob)"
  by (simp add: push_batch_def)

lemma push_batch_Some:
  "filterBatch h batch = Some b \<Longrightarrow>
   liveTraces_Push (key b) now b (MaxLiveTraces (Cfg p)) (liveTraces p) = (err, lt) \<Longrightarrow>
   push_batch h key now batch (p, ob) =
     (p\<lparr>liveTraces := lt\<rparr>,
      if err = Some errMaxExceeded
      then ob\<lparr>metricDroppedTraces := metricDroppedTraces ob + 1\<rparr> else ob)"
  by (simp add: push_batch_def)

lemma fold_push_batch_dropped:
  "fold (push_batch h key now) batches (p, ob) = (p', ob') \<Longrightarrow>
   metricDroppedTraces ob' = metricDroppedTraces ob + length (push_errors h key now batches p) \<and>
   logs ob' = logs ob"
proof (induction batches arbitrary: p ob)
  case Nil
  then show ?case by simp
next
  case (Cons batch batches)
  show ?case
  proof (cases "filterBatch h batch")
    case None
    with Cons.prems have "fold (push_batch h key now) batches (p, ob) = (p', ob')"
      by (simp add: push_batch_None)
    from Cons.IH [OF this] None show ?thesis by simp
  next
    case (Some b)
    obtain err lt where pu:
      "liveTraces_Push (key b) now b (MaxLiveTraces (Cfg p)) (liveTraces p) = (err, lt)"
      by (cases "liveTraces_Push (key b) now b (MaxLiveTraces (Cfg p)) (liveTraces p)")
    have e: "err = None \<or> err = Some errMaxExceeded"
      using pu by (auto simp: liveTraces_Push_def split: option.splits if_splits)
    let ?ob1 = "if err = Some errMaxExceeded
                then ob\<lparr>metricDroppedTraces := metricDroppedTraces ob + 1\<rparr> else ob"
    from Cons.prems Some pu
    have "fold (push_batch h key now) batches (p\<lparr>liveTraces := lt\<rparr>, ?ob1) = (p', ob')"
      by (simp add: push_batch_Some)
    from Cons.IH [OF this] Some pu e show ?thesis by auto
  qed
qed

lemma push_errors_kind: "set (push_errors h key now batches p) \<subseteq> {errMaxExceeded}"
proof (induction batches arbitrary: p)
  case Nil
  show ?case by simp
next
  case (Cons batch batches)
  show ?case
  proof (cases "filterBatch h batch")
    case None
    with Cons show ?thesis by simp
  next
    case (Some b)
    obtain err lt where pu:
      "liveTraces_Push (key b) now b (MaxLiveTraces (Cfg p)) (liveTraces p) = (err, lt)"
      by (cases "liveTraces_Push (key b) now b (MaxLiveTraces (Cfg p)) (liveTraces p)")
    have e: "err = None \<or> err = Some errMaxExceeded"
      using pu by (auto simp: liveTraces_Push_def split: option.splits if_splits)
    with Cons [of "p\<lparr>liveTraces := lt\<rparr>"] Some pu show ?thesis by auto
  qed
qed

lemma PushSpans_dropped:
  "metricDroppedTraces (snd (PushSpans h key now batches (p, ob)))
     = metricDroppedTraces ob + length (push_errors h key now batches p)"
proof -
  obtain p' ob' where f: "fold (push_batch h key now) batches (p, ob) = (p', ob')"
    by (cases "fold (push_batch h key now) batches (p, ob)")
  from fold_push_batch_dropped [OF f] f show ?thesis
    by (simp add: PushSpans_def Let_def)
qed

lemma cutIdleTraces_logs: "logs (snd (snd (cutIdleTraces e now immediate (p, ob)))) = logs ob"
  by (auto simp: cutIdleTraces_unfold split: prod.splits option.splits)

lemma tick_logs:
  "logs (snd (flushLoop_tick e1 e2 now (p, ob))) =
     logs ob
     @ log_of ''local blocks processor failed to cut idle traces''
         (fst (cutIdleTraces e1 now False (p, ob)))
     @ log_of ''local blocks processor failed to cut head block''
         (fst (cutBlocks e2 now False (fst (snd (cutIdleTraces e1 now False (p, ob))))))"
  "logs (snd (Shutdown e1 e2 now (p, ob))) =
     logs ob
     @ log_of ''local blocks processor failed to cut remaining traces on shutdown''
         (fst (cutIdleTraces e1 now True (p, ob)))
     @ log_of ''local blocks processor failed to cut head block on shutdown''
         (fst (cutBlocks e2 now True (fst (snd (cutIdleTraces e1 now True (p, ob))))))"
  "logs (snd (deleteLoop_tick e now (p, ob))) =
     logs ob @ log_of ''local blocks processor failed to delete old blocks''
                 (fst (deleteOldBlocks e now p))"
  "logs (snd (completeLoop_tick e (p, ob))) =
     logs ob @ log_of ''local blocks processor failed to complete a block''
                 (fst (completeBlock e p))"
proof -
  show "logs (snd (flushLoop_tick e1 e2 now (p, ob))) =
     logs ob
     @ log_of ''local blocks processor failed to cut idle traces''
         (fst (cutIdleTraces e1 now False (p, ob)))
     @ log_of ''local blocks processor failed to cut head block''
         (fst (cutBlocks e2 now False (fst (snd (cutIdleTraces e1 now False (p, ob))))))"
    using cutIdleTraces_logs [of e1 now False p ob]
    by (auto simp: flushLoop_tick_def log_error_def log_of_def split: prod.splits option.splits)
  show "logs (snd (Shutdown e1 e2 now (p, ob))) =
     logs ob
     @ log_of ''local blocks processor failed to cut remaining traces on shutdown''
         (fst (cutIdleTraces e1 now True (p, ob)))
     @ log_of ''local blocks processor failed to cut head block on shutdown''
         (fst (cutBlocks e2 now True (fst (snd (cutIdleTraces e1 now True (p, ob))))))"
    using cutIdleTraces_logs [of e1 now True p ob]
    by (auto simp: Shutdown_def log_error_def log_of_def split: prod.splits option.splits)
  show "logs (snd (deleteLoop_tick e now (p, ob))) =
     logs ob @ log_of ''local blocks processor failed to delete old blocks''
                 (fst (deleteOldBlocks e now p))"
    by (auto simp: deleteLoop_tick_def log_error_def log_of_def split: prod.splits option.splits)
  show "logs (snd (completeLoop_tick e (p, ob))) =
     logs ob @ log_of ''local blocks processor failed to complete a block''
                 (fst (completeBlock e p))"
    by (auto simp: completeLoop_tick_def log_error_def log_of_def split: prod.splits option.splits)
qed

text \<open>An operation that returns no error made no collaborator call that failed.\<close>

lemma writeHeadBlock_ok:
  assumes "writeHeadBlock e now i b p = (None, p')"
  shows "(headBlock p = None \<longrightarrow> NewBlock_err e = None) \<and>
         Append_err e (BlockID (BlockMeta (head_or_new e p))) i = None"
proof (cases "headBlock p")
  case (Some hb)
  with assms show ?thesis
    by (auto simp: writeHeadBlock_head head_or_new_def split: option.splits)
next
  case None
  show ?thesis
  proof (cases "NewBlock_err e")
    case (Some err)
    with assms None show ?thesis by (simp add: writeHeadBlock_nohead)
  next
    case nb: None
    let ?q = "p\<lparr>calls := calls p @ [Call_NewBlock (uuid_New e)],
               headBlock := Some (head_or_new e p), lastCutTime := now\<rparr>"
    from assms None nb have w: "writeHeadBlock e now i b ?q = (None, p')"
      by (simp add: writeHeadBlock_nohead)
    have hq: "headBlock ?q = Some (head_or_new e p)" by simp
    from w [unfolded writeHeadBlock_head [OF hq]] nb show ?thesis
      by (auto split: option.splits)
  qed
qed

lemma cutBlocks_ok:
  assumes "cutBlocks e now immediate p = (None, p')" and "headBlock p = Some hb"
    and "DataLength hb \<noteq> 0"
    and "immediate \<or> MaxBlockDuration (Cfg p) \<le> time_Since now (lastCutTime p)
          \<or> MaxBlockBytes (Cfg p) \<le> DataLength hb"
  shows "Flush_err e (BlockID (BlockMeta hb)) = None \<and> NewBlock_err e = None"
proof -
  have f: "Flush_err e (BlockID (BlockMeta hb)) = None"
  proof (cases "Flush_err e (BlockID (BlockMeta hb))")
    case (Some err)
    with assms show ?thesis by (auto simp: cutBlocks_def Let_def)
  qed simp
  have "NewBlock_err e = None"
  proof (cases "NewBlock_err e")
    case (Some err)
    with assms f show ?thesis
      by (auto simp: cutBlocks_def Let_def resetHeadBlock_fail)
  qed simp
  with f show ?thesis by simp
qed

lemma cut_loop_ok_head:
  "headBlock p = Some hb \<Longrightarrow> cut_loop e now ts p = (None, p') \<Longrightarrow>
   \<forall>t \<in> set ts. (\<exists>buf out. PrepareForWrite e (Batches t) = Inr buf \<and>
                              ToObject e [buf] = Inr out) \<and>
                  Append_err e (BlockID (BlockMeta hb)) (tid t) = None"
proof (induction ts arbitrary: p hb)
  case Nil
  show ?case by simp
next
  case (Cons t ts)
  from Cons.prems(2) obtain buf where buf: "PrepareForWrite e (Batches t) = Inr buf"
    by (auto split: sum.splits)
  from Cons.prems(2) buf obtain out where out: "ToObject e [buf] = Inr out"
    by (auto split: sum.splits)
  let ?hb1 = "wal_Append hb (tid t) out (unix_u32 now) (unix_u32 now)"
  let ?p1 = "p\<lparr>calls := calls p @ [Call_Append (BlockID (BlockMeta hb)) (tid t)],
               headBlock := Some ?hb1\<rparr>"
  from Cons.prems buf out have ok: "Append_err e (BlockID (BlockMeta hb)) (tid t) = None"
    by (auto simp: writeHeadBlock_head split: option.splits)
  with Cons.prems buf out have rest: "cut_loop e now ts ?p1 = (None, p')"
    by (simp add: writeHeadBlock_head)
  have h1: "headBlock ?p1 = Some ?hb1" by simp
  from Cons.IH [OF h1 rest] buf out ok show ?case
    by (simp add: wal_Append_fields)
qed

lemma cut_loop_ok:
  assumes "cut_loop e now ts p = (None, p')"
  shows "(\<forall>t \<in> set ts. (\<exists>buf out. PrepareForWrite e (Batches t) = Inr buf \<and>
                              ToObject e [buf] = Inr out) \<and>
                  Append_err e (BlockID (BlockMeta (head_or_new e p))) (tid t) = None) \<and>
         (ts \<noteq> [] \<and> headBlock p = None \<longrightarrow> NewBlock_err e = None)"
proof (cases "headBlock p")
  case (Some hb)
  from cut_loop_ok_head [OF Some assms] Some show ?thesis
    by (simp add: head_or_new_def)
next
  case None
  show ?thesis
  proof (cases ts)
    case Nil
    then show ?thesis by simp
  next
    case (Cons t ts')
    from assms Cons obtain buf where buf: "PrepareForWrite e (Batches t) = Inr buf"
      by (auto split: sum.splits)
    from assms Cons buf obtain out where out: "ToObject e [buf] = Inr out"
      by (auto split: sum.splits)
    let ?q = "p\<lparr>calls := calls p @ [Call_NewBlock (uuid_New e)],
               headBlock := Some (head_or_new e p), lastCutTime := now\<rparr>"
    have nb: "NewBlock_err e = None"
      using assms Cons buf out None
      by (auto simp: writeHeadBlock_nohead split: option.splits)
    have w: "writeHeadBlock e now (tid t) out p = writeHeadBlock e now (tid t) out ?q"
      using None nb by (simp add: writeHeadBlock_nohead)
    have "cut_loop e now ts ?q = cut_loop e now ts p"
      using Cons buf out w by simp
    with assms have c: "cut_loop e now ts ?q = (None, p')" by simp
    have h: "headBlock ?q = Some (head_or_new e p)" by simp
    from cut_loop_ok_head [OF h c] nb show ?thesis by simp
  qed
qed

lemma cutIdleTraces_ok:
  assumes "cutIdleTraces e now immediate (p, ob) = (None, p', ob')"
  shows "(\<forall>t \<in> set (traces_to_cut now immediate p).
            (\<exists>buf out. PrepareForWrite e (Batches t) = Inr buf \<and> ToObject e [buf] = Inr out) \<and>
            Append_err e (BlockID (BlockMeta (head_or_new e p))) (tid t) = None) \<and>
         (traces_to_cut now immediate p \<noteq> [] \<longrightarrow>
            (headBlock p = None \<longrightarrow> NewBlock_err e = None) \<and>
            Flush_err e (BlockID (BlockMeta (head_or_new e p))) = None)"
proof (cases "traces_to_cut now immediate p = []")
  case True
  then show ?thesis by simp
next
  case False
  let ?cut = "traces_to_cut now immediate p"
  let ?sorted = "sort_Slice less_id ?cut"
  let ?p1 = "p\<lparr>liveTraces := snd (liveTraces_CutIdle (idle_since now immediate p) (liveTraces p))\<rparr>"
  obtain r2 p2 where l: "cut_loop e now ?sorted ?p1 = (r2, p2)"
    by (cases "cut_loop e now ?sorted ?p1")
  from False assms l have r2: "r2 = None"
    by (cases r2) (auto simp: cutIdleTraces_unfold)
  have ne: "?sorted \<noteq> []"
    using False mset_sort_Slice [of less_id ?cut] by (metis mset_zero_iff)
  have st: "set ?sorted = set ?cut"
    using mset_sort_Slice [of less_id ?cut] by (metis set_mset_mset)
  have hn: "head_or_new e ?p1 = head_or_new e p"
    by (cases "headBlock p") (simp_all add: head_or_new_def)
  from cut_loop_ok [OF l [unfolded r2]] ne
  have a: "\<forall>t \<in> set ?cut.
            (\<exists>buf out. PrepareForWrite e (Batches t) = Inr buf \<and> ToObject e [buf] = Inr out) \<and>
            Append_err e (BlockID (BlockMeta (head_or_new e p))) (tid t) = None"
    and b: "headBlock p = None \<longrightarrow> NewBlock_err e = None"
    unfolding hn st by simp_all
  from cut_loop_success [OF l [unfolded r2] ne] obtain hb where
    hb: "headBlock p2 = Some hb"
        "BlockID (BlockMeta hb) = BlockID (BlockMeta (head_or_new e p))"
    unfolding hn by auto
  from False assms l r2 hb(1) have "Flush_err e (BlockID (BlockMeta hb)) = None"
    by (auto simp: cutIdleTraces_unfold)
  with a b hb(2) False show ?thesis by simp
qed

lemma deleteOldBlocks_ok:
  "fst (deleteOldBlocks e now p) = None \<longleftrightarrow>
     (\<forall>kb \<in> set (walBlocks p). EndTime (BlockMeta (snd kb)) < delete_cutoff p now \<longrightarrow>
            Clear_err e (BlockID (BlockMeta (snd kb))) = None) \<and>
     (\<forall>kb \<in> set (completeBlocks p). EndTime (BackendMeta (snd kb)) < delete_cutoff p now \<longrightarrow>
            ClearBlock_err e (fst kb) = None)"
proof -
  let ?OW = "filter (\<lambda>kb. EndTime (BlockMeta (snd kb)) < delete_cutoff p now) (walBlocks p)"
  let ?OC = "filter (\<lambda>kb. EndTime (BackendMeta (snd kb)) < delete_cutoff p now)
               (completeBlocks p)"
  have w: "first_failure (wal_clear e) ?OW = None \<longleftrightarrow>
      (\<forall>kb \<in> set (walBlocks p). EndTime (BlockMeta (snd kb)) < delete_cutoff p now \<longrightarrow>
            Clear_err e (BlockID (BlockMeta (snd kb))) = None)"
    by (auto simp: first_failure_None_iff wal_clear_def)
  have c: "first_failure (complete_clear e) ?OC = None \<longleftrightarrow>
      (\<forall>kb \<in> set (completeBlocks p). EndTime (BackendMeta (snd kb)) < delete_cutoff p now \<longrightarrow>
            ClearBlock_err e (fst kb) = None)"
    by (fastforce simp: first_failure_None_iff complete_clear_def)
  have "fst (deleteOldBlocks e now p) = None \<longleftrightarrow>
      first_failure (wal_clear e) ?OW = None \<and> first_failure (complete_clear e) ?OC = None"
    unfolding deleteOldBlocks_exact
    by (cases "first_failure (wal_clear e) ?OW") simp_all
  then show ?thesis unfolding w c .
qed

text \<open>Recovery, for every outcome: the error returned, and the log records left, which are
  those of the failed deletions of the partial blocks handled before recovery fails or
  ends. No counter changes.\<close>

lemma clear_failure_logs_simps:
  "clear_failure_logs e [] = []"
  "clear_failure_logs e (i # ids) =
     log_of ''local blocks processor failed to clear partially written block during replay''
       (ClearBlock_err e i) @ clear_failure_logs e ids"
  by (simp_all add: clear_failure_logs_def log_of_def split: option.split)

lemma reload_complete_Cfg:
  "reload_complete e ids p ob = (r, p', ob') \<Longrightarrow> Cfg p' = Cfg p"
  by (induction ids arbitrary: p ob)
     (auto simp: Let_def split: sum.splits if_splits option.splits)

lemma reload_complete_exact:
  "reload_complete e ids p ob = (r, p', ob') \<Longrightarrow>
     r = first_failure (block_error e (tenant p)) ids \<and>
     ob' = ob\<lparr>logs := logs ob @ clear_failure_logs e
               (partial_blocks e (tenant p)
                  (takeWhile (\<lambda>i. block_error e (tenant p) i = None) ids))\<rparr>"
proof (induction ids arbitrary: p ob)
  case Nil
  then show ?case
    by (simp add: first_failure_simps partial_blocks_def clear_failure_logs_simps)
next
  case (Cons i ids)
  show ?case
  proof (cases "ReadBlockMeta e i (tenant p)")
    case (Inl err)
    show ?thesis
    proof (cases "err = ErrDoesNotExist")
      case False
      with Inl have be: "block_error e (tenant p) i = Some err"
        by (simp add: block_error_def)
      from Cons.prems Inl False have "r = Some err" "ob' = ob" by simp_all
      with be show ?thesis
        by (simp add: first_failure_simps partial_blocks_def clear_failure_logs_simps)
    next
      case True
      with Inl have be: "block_error e (tenant p) i = None"
        by (simp add: block_error_def)
      have pb: "partial_blocks e (tenant p) (i # xs) = i # partial_blocks e (tenant p) xs" for xs
        using Inl True by (simp add: partial_blocks_def)
      let ?p1 = "p\<lparr>calls := calls p @ [Call_ClearBlock i]\<rparr>"
      show ?thesis
      proof (cases "ClearBlock_err e i")
        case None
        with Cons.prems Inl True have "reload_complete e ids ?p1 ob = (r, p', ob')"
          by (simp add: Let_def)
        from Cons.IH [OF this] be None show ?thesis
          by (simp add: first_failure_simps pb clear_failure_logs_simps log_of_def)
      next
        case (Some err')
        let ?ob1 = "ob\<lparr>logs := logs ob @
          [(''local blocks processor failed to clear partially written block during replay'',
            err')]\<rparr>"
        from Cons.prems Inl True Some have "reload_complete e ids ?p1 ?ob1 = (r, p', ob')"
          by (simp add: Let_def)
        from Cons.IH [OF this] be Some show ?thesis
          by (simp add: first_failure_simps pb clear_failure_logs_simps log_of_def)
      qed
    qed
  next
    case (Inr meta)
    have pb: "partial_blocks e (tenant p) (i # xs) = partial_blocks e (tenant p) xs" for xs
      using Inr by (simp add: partial_blocks_def)
    show ?thesis
    proof (cases "OpenBlock e meta")
      case (Inl err)
      with Inr have be: "block_error e (tenant p) i = Some err"
        by (simp add: block_error_def)
      from Cons.prems Inr Inl have "r = Some err" "ob' = ob" by (simp_all add: Let_def)
      with be show ?thesis
        by (simp add: first_failure_simps partial_blocks_def clear_failure_logs_simps)
    next
      case blk: (Inr blk)
      with Inr have be: "block_error e (tenant p) i = None"
        by (simp add: block_error_def)
      let ?p1 = "p\<lparr>calls := calls p @ [Call_OpenBlock (BlockID meta)],
                 completeBlocks := AList.update i blk (completeBlocks p)\<rparr>"
      from Cons.prems Inr blk have "reload_complete e ids ?p1 ob = (r, p', ob')"
        by (simp add: Let_def)
      from Cons.IH [OF this] be show ?thesis
        by (simp add: first_failure_simps pb)
    qed
  qed
qed

lemma reload_wal_Cfg: "Cfg (reload_wal blks p) = Cfg p"
  by (subst reload_wal_frame) simp

lemma reloadBlocks_exact:
  assumes "reloadBlocks e p ob = (r, p', ob')"
  shows "r = recovery_failure e (tenant p) \<and>
         ob' = ob\<lparr>logs := logs ob @ clear_failure_logs e
                  (partial_blocks e (tenant p) (recovery_visited e (tenant p)))\<rparr> \<and>
         Cfg p' = Cfg p"
proof (cases "RescanBlocks e")
  case (Inl err)
  with assms show ?thesis
    by (auto simp: reloadBlocks_def recovery_failure_def recovery_visited_def
        partial_blocks_def clear_failure_logs_simps)
next
  case blks: (Inr blks)
  show ?thesis
  proof (cases "Tenants e")
    case (Inl err)
    with assms blks show ?thesis
      by (auto simp: reloadBlocks_def recovery_failure_def recovery_visited_def Let_def
          partial_blocks_def clear_failure_logs_simps reload_wal_Cfg)
  next
    case ts: (Inr ts)
    show ?thesis
    proof (cases "ts = []")
      case True
      with assms blks ts show ?thesis
        by (auto simp: reloadBlocks_def recovery_failure_def recovery_visited_def Let_def
            partial_blocks_def clear_failure_logs_simps reload_wal_Cfg)
    next
      case False
      show ?thesis
      proof (cases "Blocks e (tenant p)")
        case (Inl err)
        with assms blks ts False show ?thesis
          by (auto simp: reloadBlocks_def recovery_failure_def recovery_visited_def Let_def
              partial_blocks_def clear_failure_logs_simps reload_wal_Cfg reload_wal_fields)
      next
        case (Inr ids)
        with assms blks ts False
        have rc: "reload_complete e ids (reload_wal blks p) ob = (r, p', ob')"
          by (simp add: reloadBlocks_def Let_def reload_wal_fields)
        from reload_complete_exact [OF rc] reload_complete_Cfg [OF rc] blks ts False Inr
        show ?thesis
          by (simp add: recovery_failure_def recovery_visited_def reload_wal_fields
              reload_wal_Cfg)
      qed
    qed
  qed
qed

lemma New_exact:
  "New e cfg t True ob = (Inl (ErrMsg ''local blocks processor requires traces wal''), ob)"
  "snd (New e cfg t False ob)
     = ob\<lparr>logs := logs ob @ clear_failure_logs e (partial_blocks e t (recovery_visited e t))\<rparr>"
  "recovery_failure e t = Some err \<Longrightarrow>
     fst (New e cfg t False ob) = Inl (ErrWrap ''replaying blocks'' err)"
  "recovery_failure e t = None \<Longrightarrow> \<exists>p0. fst (New e cfg t False ob) = Inr p0 \<and> Cfg p0 = cfg"
proof -
  let ?p = "\<lparr>tenant = t, Cfg = cfg, headBlock = None, walBlocks = [],
                  completeBlocks = [], lastCutTime = time_zero, liveTraces = [], calls = []\<rparr>"
  obtain r p1 ob1 where rb: "reloadBlocks e ?p ob = (r, p1, ob1)"
    by (cases "reloadBlocks e ?p ob") auto
  from reloadBlocks_exact [OF rb]
  have r: "r = recovery_failure e t"
    and o: "ob1 = ob\<lparr>logs := logs ob @ clear_failure_logs e
                  (partial_blocks e t (recovery_visited e t))\<rparr>"
    and c: "Cfg p1 = cfg"
    by simp_all
  have n: "New e cfg t False ob =
      (case r of Some err \<Rightarrow> Inl (ErrWrap ''replaying blocks'' err) | None \<Rightarrow> Inr p1, ob1)"
    using rb by (auto simp: New_def split: option.splits)
  show "New e cfg t True ob = (Inl (ErrMsg ''local blocks processor requires traces wal''), ob)"
    by (simp add: New_def)
  show "snd (New e cfg t False ob)
     = ob\<lparr>logs := logs ob @ clear_failure_logs e (partial_blocks e t (recovery_visited e t))\<rparr>"
    unfolding n using o by simp
  show "fst (New e cfg t False ob) = Inl (ErrWrap ''replaying blocks'' err)"
    if "recovery_failure e t = Some err"
    unfolding n using that r by simp
  show "\<exists>p0. fst (New e cfg t False ob) = Inr p0 \<and> Cfg p0 = cfg"
    if "recovery_failure e t = None"
    unfolding n using that r c by simp
qed

lemma loops_start:
  "flushLoop ticks (p, ob) =
     (if FlushCheckPeriod (Cfg p) \<le> 0 then (Some ErrPanic, p, ob)
      else (None, fold (\<lambda>tk. flushLoop_tick (fst tk) (fst (snd tk)) (snd (snd tk))) ticks
                    (p, ob)))"
  "deleteLoop dticks (p, ob) = (None, fold (\<lambda>tk. deleteLoop_tick (fst tk) (snd tk)) dticks (p, ob))"
  "completeLoop cticks (p, ob) = (None, fold completeLoop_tick cticks (p, ob))"
  "metricLoop n (p, ob) = (None, (recordBlockBytes ^^ n) (p, ob))"
  by (simp_all add: flushLoop_def deleteLoop_def completeLoop_def metricLoop_def
      time_NewTicker_def)

lemma no_nil_head:
  "resetHeadBlock e now p = (None, p1) \<Longrightarrow> headBlock p1 \<noteq> None"
  "cut_loop e now ts p = (None, p2) \<Longrightarrow> ts \<noteq> [] \<Longrightarrow> headBlock p2 \<noteq> None"
proof -
  show "headBlock p1 \<noteq> None" if "resetHeadBlock e now p = (None, p1)"
    using that by (auto simp: resetHeadBlock_def wal_NewBlock_def split: option.splits)
  show "headBlock p2 \<noteq> None" if "cut_loop e now ts p = (None, p2)" "ts \<noteq> []"
    using cut_loop_success [OF that] by auto
qed

text \<open>Claim C9, as amended. Each tick of a loop and \<open>Shutdown\<close> append to the log exactly one
  record for each error that the operations they invoke return. \<open>PushSpans\<close> increments the
  dropped-trace counter once for each error the buffer's push returns, and the only error
  it returns is the buffer-full error. During recovery each failed deletion of a partial
  block is logged, whether construction then succeeds or fails. No failure of a
  collaborator is discarded inside an operation: an operation that returns no error made
  no call that failed, and the nil head block that \<open>writeHeadBlock\<close> and \<open>cutIdleTraces\<close>
  would dereference does not occur. Two failures leave neither a log record nor a change
  of a counter. A failure of construction is returned to the caller of \<open>New\<close>: the error of
  a nil WAL as it is, the error with which recovery fails wrapped; the log holds only
  the records of the failed deletions of partial blocks, and every counter is as before.
  And with a \<open>FlushCheckPeriod\<close> that is not positive, \<open>New\<close> succeeds when recovery does,
  and the flush loop panics when it creates its ticker, before its first tick; the
  tickers of the other loops have a positive period.\<close>

theorem C9_failures_observable:
  "logs (snd (flushLoop_tick e1 e2 now (p, ob))) =
     logs ob
     @ log_of ''local blocks processor failed to cut idle traces''
         (fst (cutIdleTraces e1 now False (p, ob)))
     @ log_of ''local blocks processor failed to cut head block''
         (fst (cutBlocks e2 now False (fst (snd (cutIdleTraces e1 now False (p, ob)))))) \<and>
   logs (snd (Shutdown e1 e2 now (p, ob))) =
     logs ob
     @ log_of ''local blocks processor failed to cut remaining traces on shutdown''
         (fst (cutIdleTraces e1 now True (p, ob)))
     @ log_of ''local blocks processor failed to cut head block on shutdown''
         (fst (cutBlocks e2 now True (fst (snd (cutIdleTraces e1 now True (p, ob)))))) \<and>
   logs (snd (deleteLoop_tick e now (p, ob))) =
     logs ob @ log_of ''local blocks processor failed to delete old blocks''
                 (fst (deleteOldBlocks e now p)) \<and>
   logs (snd (completeLoop_tick e (p, ob))) =
     logs ob @ log_of ''local blocks processor failed to complete a block''
                 (fst (completeBlock e p)) \<and>
   metricDroppedTraces (snd (PushSpans h key now batches (p, ob)))
     = metricDroppedTraces ob + length (push_errors h key now batches p) \<and>
   set (push_errors h key now batches p) \<subseteq> {errMaxExceeded} \<and>
   New e cfg t True ob = (Inl (ErrMsg ''local blocks processor requires traces wal''), ob) \<and>
   snd (New e cfg t False ob)
     = ob\<lparr>logs := logs ob @ clear_failure_logs e (partial_blocks e t (recovery_visited e t))\<rparr> \<and>
   (\<forall>err. recovery_failure e t = Some err \<longrightarrow>
      fst (New e cfg t False ob) = Inl (ErrWrap ''replaying blocks'' err)) \<and>
   (recovery_failure e t = None \<longrightarrow>
      (\<exists>p0. fst (New e cfg t False ob) = Inr p0 \<and> Cfg p0 = cfg)) \<and>
   flushLoop ticks (p, ob) =
     (if FlushCheckPeriod (Cfg p) \<le> 0 then (Some ErrPanic, p, ob)
      else (None, fold (\<lambda>tk. flushLoop_tick (fst tk) (fst (snd tk)) (snd (snd tk))) ticks
                    (p, ob))) \<and>
   deleteLoop dticks (p, ob)
     = (None, fold (\<lambda>tk. deleteLoop_tick (fst tk) (snd tk)) dticks (p, ob)) \<and>
   completeLoop cticks (p, ob) = (None, fold completeLoop_tick cticks (p, ob)) \<and>
   metricLoop n (p, ob) = (None, (recordBlockBytes ^^ n) (p, ob)) \<and>
   (\<forall>p'. writeHeadBlock e now i b p = (None, p') \<longrightarrow>
      (headBlock p = None \<longrightarrow> NewBlock_err e = None) \<and>
      Append_err e (BlockID (BlockMeta (head_or_new e p))) i = None) \<and>
   (\<forall>p' hb. cutBlocks e now immediate p = (None, p') \<and> headBlock p = Some hb \<and>
        DataLength hb \<noteq> 0 \<and>
        (immediate \<or> MaxBlockDuration (Cfg p) \<le> time_Since now (lastCutTime p)
          \<or> MaxBlockBytes (Cfg p) \<le> DataLength hb) \<longrightarrow>
      Flush_err e (BlockID (BlockMeta hb)) = None \<and> NewBlock_err e = None) \<and>
   (\<forall>p' i0 b0 rest. completeBlock e p = (None, p') \<and> walBlocks p = (i0, b0) # rest \<longrightarrow>
      Iterator_err e (BlockID (BlockMeta b0)) = None \<and>
      (\<exists>newMeta newBlock. CreateBlock e (BlockMeta b0) (appended b0) = Inr newMeta \<and>
          OpenBlock e newMeta = Inr newBlock) \<and>
      Clear_err e (BlockID (BlockMeta b0)) = None) \<and>
   (fst (deleteOldBlocks e now p) = None \<longleftrightarrow>
      (\<forall>kb \<in> set (walBlocks p). EndTime (BlockMeta (snd kb)) < delete_cutoff p now \<longrightarrow>
         Clear_err e (BlockID (BlockMeta (snd kb))) = None) \<and>
      (\<forall>kb \<in> set (completeBlocks p). EndTime (BackendMeta (snd kb)) < delete_cutoff p now \<longrightarrow>
         ClearBlock_err e (fst kb) = None)) \<and>
   (\<forall>p' ob'. cutIdleTraces e now immediate (p, ob) = (None, p', ob') \<longrightarrow>
      (\<forall>tr \<in> set (traces_to_cut now immediate p).
          (\<exists>buf out. PrepareForWrite e (Batches tr) = Inr buf \<and> ToObject e [buf] = Inr out) \<and>
          Append_err e (BlockID (BlockMeta (head_or_new e p))) (tid tr) = None) \<and>
      (traces_to_cut now immediate p \<noteq> [] \<longrightarrow>
          (headBlock p = None \<longrightarrow> NewBlock_err e = None) \<and>
          Flush_err e (BlockID (BlockMeta (head_or_new e p))) = None)) \<and>
   (\<forall>p1. resetHeadBlock e now p = (None, p1) \<longrightarrow> headBlock p1 \<noteq> None) \<and>
   (\<forall>ts p2. cut_loop e now ts p = (None, p2) \<and> ts \<noteq> [] \<longrightarrow> headBlock p2 \<noteq> None)"
proof -
  have cb: "Iterator_err e (BlockID (BlockMeta b0)) = None \<and>
      (\<exists>newMeta newBlock. CreateBlock e (BlockMeta b0) (appended b0) = Inr newMeta \<and>
          OpenBlock e newMeta = Inr newBlock) \<and>
      Clear_err e (BlockID (BlockMeta b0)) = None"
    if "completeBlock e p = (None, p') \<and> walBlocks p = (i0, b0) # rest" for p' i0 b0 rest
    using completeBlock_success [of p i0 b0 rest e p'] that by blast
  have c8: "\<forall>err. recovery_failure e t = Some err \<longrightarrow>
      fst (New e cfg t False ob) = Inl (ErrWrap ''replaying blocks'' err)"
    using New_exact(3) [of e t _ cfg ob] by blast
  have c9: "recovery_failure e t = None \<longrightarrow>
      (\<exists>p0. fst (New e cfg t False ob) = Inr p0 \<and> Cfg p0 = cfg)"
    using New_exact(4) [of e t cfg ob] by blast
  have c10: "\<forall>p'. writeHeadBlock e now i b p = (None, p') \<longrightarrow>
      (headBlock p = None \<longrightarrow> NewBlock_err e = None) \<and>
      Append_err e (BlockID (BlockMeta (head_or_new e p))) i = None"
    using writeHeadBlock_ok [of e now i b p] by blast
  have c11: "\<forall>p' hb. cutBlocks e now immediate p = (None, p') \<and> headBlock p = Some hb \<and>
        DataLength hb \<noteq> 0 \<and>
        (immediate \<or> MaxBlockDuration (Cfg p) \<le> time_Since now (lastCutTime p)
          \<or> MaxBlockBytes (Cfg p) \<le> DataLength hb) \<longrightarrow>
      Flush_err e (BlockID (BlockMeta hb)) = None \<and> NewBlock_err e = None"
    using cutBlocks_ok [of e now immediate p] by blast
  have c12: "\<forall>p' i0 b0 rest. completeBlock e p = (None, p') \<and> walBlocks p = (i0, b0) # rest \<longrightarrow>
      Iterator_err e (BlockID (BlockMeta b0)) = None \<and>
      (\<exists>newMeta newBlock. CreateBlock e (BlockMeta b0) (appended b0) = Inr newMeta \<and>
          OpenBlock e newMeta = Inr newBlock) \<and>
      Clear_err e (BlockID (BlockMeta b0)) = None"
    using cb by blast
  have c14: "\<forall>p' ob'. cutIdleTraces e now immediate (p, ob) = (None, p', ob') \<longrightarrow>
      (\<forall>tr \<in> set (traces_to_cut now immediate p).
          (\<exists>buf out. PrepareForWrite e (Batches tr) = Inr buf \<and> ToObject e [buf] = Inr out) \<and>
          Append_err e (BlockID (BlockMeta (head_or_new e p))) (tid tr) = None) \<and>
      (traces_to_cut now immediate p \<noteq> [] \<longrightarrow>
          (headBlock p = None \<longrightarrow> NewBlock_err e = None) \<and>
          Flush_err e (BlockID (BlockMeta (head_or_new e p))) = None)"
    using cutIdleTraces_ok [of e now immediate p ob] by blast
  have c15: "\<forall>p1. resetHeadBlock e now p = (None, p1) \<longrightarrow> headBlock p1 \<noteq> None"
    using no_nil_head(1) [of e now p] by blast
  have c16: "\<forall>ts p2. cut_loop e now ts p = (None, p2) \<and> ts \<noteq> [] \<longrightarrow> headBlock p2 \<noteq> None"
    using no_nil_head(2) [of e now _ p] by blast
  show ?thesis
    by (intro conjI tick_logs PushSpans_dropped push_errors_kind New_exact(1) New_exact(2)
        c8 c9 loops_start c10 c11 c12 deleteOldBlocks_ok c14 c15 c16)
qed

theorem C9_failures_observable_witness:
  "recovery_failure ex_partial_then_fail ''t'' = Some ex_disk_full \<and>
   New ex_partial_then_fail ex_cfg ''t'' False ex_obs
     = (Inl (ErrWrap ''replaying blocks'' ex_disk_full),
        ex_obs\<lparr>logs :=
          [(''local blocks processor failed to clear partially written block during replay'',
            ex_disk_full)]\<rparr>) \<and>
   fst (cutBlocks ex_flush_fails 0 True ex_proc)
     = Some (ErrWrap ''failed to flush head block'' ex_disk_full) \<and>
   logs (snd (Shutdown ex_collab ex_flush_fails 0 (ex_proc, ex_obs)))
     = [(''local blocks processor failed to cut head block on shutdown'',
         ErrWrap ''failed to flush head block'' ex_disk_full)] \<and>
   push_errors ex_server_store ex_key 3000 [ex_span_batch 3] ex_proc_full = [errMaxExceeded] \<and>
   metricDroppedTraces (snd (PushSpans ex_server_store ex_key 3000 [ex_span_batch 3]
      (ex_proc_full, ex_obs))) = 1 \<and>
   FlushCheckPeriod (Cfg (ex_proc\<lparr>Cfg := ex_cfg_zero\<rparr>)) \<le> 0 \<and>
   flushLoop [(ex_collab, ex_collab, 0)] (ex_proc\<lparr>Cfg := ex_cfg_zero\<rparr>, ex_obs)
     = (Some ErrPanic, ex_proc\<lparr>Cfg := ex_cfg_zero\<rparr>, ex_obs)"
proof -
  note inst = C9_failures_observable [where ?e1.0 = ex_collab and ?e2.0 = ex_flush_fails
      and now = 0 and p = ex_proc and ob = ex_obs and e = ex_partial_then_fail and t = "''t''"
      and cfg = ex_cfg and h = ex_server_store and key = ex_key and batches = "[]"
      and i = "[]" and b = "[]" and immediate = True
      and ticks = "[]" and dticks = "[]" and cticks = "[]" and n = 0]
  note inst2 = C9_failures_observable [where ?e1.0 = ex_collab and ?e2.0 = ex_flush_fails
      and now = 3000 and p = ex_proc_full and ob = ex_obs and e = ex_rescan_fails and t = "''t''"
      and cfg = ex_cfg and h = ex_server_store and key = ex_key
      and batches = "[ex_span_batch 3]" and i = "[]" and b = "[]" and immediate = True
      and ticks = "[]" and dticks = "[]" and cticks = "[]" and n = 0]
  note inst3 = C9_failures_observable [where ?e1.0 = ex_collab and ?e2.0 = ex_flush_fails
      and now = 0 and p = "ex_proc\<lparr>Cfg := ex_cfg_zero\<rparr>" and ob = ex_obs
      and e = ex_rescan_fails and t = "''t''"
      and cfg = ex_cfg and h = ex_server_store and key = ex_key and batches = "[]"
      and i = "[]" and b = "[]" and immediate = True
      and ticks = "[(ex_collab, ex_collab, 0)]" and dticks = "[]" and cticks = "[]"
      and n = 0]
  have be9: "block_error ex_partial_then_fail ''t'' 9 = None"
    and be8: "block_error ex_partial_then_fail ''t'' 8 = Some ex_disk_full"
    by (simp_all add: block_error_def ex_partial_then_fail_def ex_disk_full_def)
  have rf: "recovery_failure ex_partial_then_fail ''t'' = Some ex_disk_full"
    using be9 be8
    by (simp add: recovery_failure_def ex_partial_then_fail_def ex_collab_def
        first_failure_simps)
  have rv: "recovery_visited ex_partial_then_fail ''t'' = [9]"
    using be9 be8
    by (simp add: recovery_visited_def ex_partial_then_fail_def ex_collab_def)
  have pl: "clear_failure_logs ex_partial_then_fail
              (partial_blocks ex_partial_then_fail ''t'' [9])
      = [(''local blocks processor failed to clear partially written block during replay'',
            ex_disk_full)]"
    by (simp add: partial_blocks_def clear_failure_logs_def ex_partial_then_fail_def)
  have lo: "logs ex_obs = []" by (simp add: ex_obs_def)
  from inst have "snd (New ex_partial_then_fail ex_cfg ''t'' False ex_obs)
     = ex_obs\<lparr>logs := logs ex_obs @ clear_failure_logs ex_partial_then_fail
          (partial_blocks ex_partial_then_fail ''t''
             (recovery_visited ex_partial_then_fail ''t''))\<rparr>"
    by (elim conjE) assumption
  then have n2: "snd (New ex_partial_then_fail ex_cfg ''t'' False ex_obs)
     = ex_obs\<lparr>logs :=
          [(''local blocks processor failed to clear partially written block during replay'',
            ex_disk_full)]\<rparr>"
    unfolding rv pl lo by simp
  from inst have "\<forall>err. recovery_failure ex_partial_then_fail ''t'' = Some err \<longrightarrow>
      fst (New ex_partial_then_fail ex_cfg ''t'' False ex_obs)
        = Inl (ErrWrap ''replaying blocks'' err)"
    by (elim conjE) assumption
  with rf have n1: "fst (New ex_partial_then_fail ex_cfg ''t'' False ex_obs)
        = Inl (ErrWrap ''replaying blocks'' ex_disk_full)"
    by blast
  from n1 n2 have a: "New ex_partial_then_fail ex_cfg ''t'' False ex_obs
     = (Inl (ErrWrap ''replaying blocks'' ex_disk_full),
        ex_obs\<lparr>logs :=
          [(''local blocks processor failed to clear partially written block during replay'',
            ex_disk_full)]\<rparr>)"
    by (simp add: prod_eq_iff)
  have ci: "cutIdleTraces ex_collab 0 True (ex_proc, ex_obs)
      = (None, ex_proc, ex_obs\<lparr>metricLiveTraces := 0\<rparr>)"
    by (simp add: cutIdleTraces_def liveTraces_CutIdle_def ex_proc_def)
  have cb: "fst (cutBlocks ex_flush_fails 0 True ex_proc)
     = Some (ErrWrap ''failed to flush head block'' ex_disk_full)"
    by (simp add: cutBlocks_def ex_proc_def ex_block_def ex_flush_fails_def ex_collab_def)
  from inst have "logs (snd (Shutdown ex_collab ex_flush_fails 0 (ex_proc, ex_obs))) =
     logs ex_obs
     @ log_of ''local blocks processor failed to cut remaining traces on shutdown''
         (fst (cutIdleTraces ex_collab 0 True (ex_proc, ex_obs)))
     @ log_of ''local blocks processor failed to cut head block on shutdown''
         (fst (cutBlocks ex_flush_fails 0 True
            (fst (snd (cutIdleTraces ex_collab 0 True (ex_proc, ex_obs))))))"
    by (elim conjE) assumption
  then have "logs (snd (Shutdown ex_collab ex_flush_fails 0 (ex_proc, ex_obs))) =
     logs ex_obs
     @ log_of ''local blocks processor failed to cut remaining traces on shutdown'' None
     @ log_of ''local blocks processor failed to cut head block on shutdown''
         (Some (ErrWrap ''failed to flush head block'' ex_disk_full))"
    unfolding ci by (simp add: cb)
  then have b: "logs (snd (Shutdown ex_collab ex_flush_fails 0 (ex_proc, ex_obs)))
     = [(''local blocks processor failed to cut head block on shutdown'',
         ErrWrap ''failed to flush head block'' ex_disk_full)]"
    unfolding lo by (simp add: log_of_def)
  have pe: "push_errors ex_server_store ex_key 3000 [ex_span_batch 3] ex_proc_full
      = [errMaxExceeded]"
    by (simp add: filterBatch_def keepSS_loop_def keepSpans_loop_def ex_server_store_def
        ex_span_batch_def liveTraces_Push_def liveTraces_Len_def ex_proc_full_def ex_key_def
        ex_cfg_def)
  from inst2 have "metricDroppedTraces (snd (PushSpans ex_server_store ex_key 3000
        [ex_span_batch 3] (ex_proc_full, ex_obs)))
     = metricDroppedTraces ex_obs
       + length (push_errors ex_server_store ex_key 3000 [ex_span_batch 3] ex_proc_full)"
    by (elim conjE) assumption
  moreover have "metricDroppedTraces ex_obs = 0" by (simp add: ex_obs_def)
  ultimately have c: "metricDroppedTraces (snd (PushSpans ex_server_store ex_key 3000
        [ex_span_batch 3] (ex_proc_full, ex_obs))) = 1"
    unfolding pe by simp
  have z: "FlushCheckPeriod (Cfg (ex_proc\<lparr>Cfg := ex_cfg_zero\<rparr>)) \<le> 0"
    by (simp add: ex_cfg_zero_def)
  from inst3 have "flushLoop [(ex_collab, ex_collab, 0)] (ex_proc\<lparr>Cfg := ex_cfg_zero\<rparr>, ex_obs) =
     (if FlushCheckPeriod (Cfg (ex_proc\<lparr>Cfg := ex_cfg_zero\<rparr>)) \<le> 0
      then (Some ErrPanic, ex_proc\<lparr>Cfg := ex_cfg_zero\<rparr>, ex_obs)
      else (None, fold (\<lambda>tk. flushLoop_tick (fst tk) (fst (snd tk)) (snd (snd tk)))
                    [(ex_collab, ex_collab, 0)] (ex_proc\<lparr>Cfg := ex_cfg_zero\<rparr>, ex_obs)))"
    by (elim conjE) assumption
  with z have d: "flushLoop [(ex_collab, ex_collab, 0)] (ex_proc\<lparr>Cfg := ex_cfg_zero\<rparr>, ex_obs)
     = (Some ErrPanic, ex_proc\<lparr>Cfg := ex_cfg_zero\<rparr>, ex_obs)"
    by (simp only: if_True)
  show ?thesis by (intro conjI rf a cb b pe c z d)
qed

text \<open>The claim as stated fails during construction: when the WAL rescan fails, \<open>New\<close>
  returns the wrapped error and leaves the log and every counter as they were. It fails
  also with a \<open>FlushCheckPeriod\<close> of zero: \<open>New\<close> returns a processor, and its flush loop
  panics before its first tick, with the log and every counter as they were.\<close>

theorem C9_counterexample:
  "RescanBlocks ex_rescan_fails = Inl ex_disk_full \<and>
   New ex_rescan_fails ex_cfg ''t'' False ex_obs
     = (Inl (ErrWrap ''replaying blocks'' ex_disk_full), ex_obs) \<and>
   New ex_collab ex_cfg_zero ''t'' False ex_obs
     = (Inr (ex_init\<lparr>Cfg := ex_cfg_zero\<rparr>), ex_obs) \<and>
   flushLoop [(ex_collab, ex_collab, 0)] (ex_init\<lparr>Cfg := ex_cfg_zero\<rparr>, ex_obs)
     = (Some ErrPanic, ex_init\<lparr>Cfg := ex_cfg_zero\<rparr>, ex_obs)"
  by (simp add: New_def reloadBlocks_def reload_wal_def ex_rescan_fails_def ex_collab_def
      ex_init_def flushLoop_def time_NewTicker_def ex_cfg_zero_def)

end
